(* ===== verification/Prelude.thy ===== *)
theory Prelude
  imports Main "HOL-Library.Word" "HOL-Library.Sublist" "HOL-Library.Signed_Division"
begin

text \<open>
  Shared vocabulary of the development: the machine integer types of the
  target (a 32-bit ARM guest), the conversion between HOL strings and bytes,
  the outcome type of a run that may trap, and the sequencing combinators every
  component theory uses to compose C statements, among them \<^verbatim>\<open>while (1)\<close>
  as a function (\<open>forever\<close>) and as a step relation on the heads of the
  loop (\<open>rounds\<close>).  Nothing here depends on the
  UART or on a particular program; the component theories instantiate the
  state type \<open>'s\<close> with the machine record.
\<close>

unbundle bit_operations_syntax

section \<open>Simplification bundles\<close>

named_theorems prog_simps
  \<open>characteristic equations of the sequencing combinators\<close>
named_theorems frame_simps
  \<open>what an operation leaves unchanged (memory, the transmit log, the spin counter)\<close>
named_theorems run_simps
  \<open>closed forms of the operations on a machine whose strings are in place\<close>

section \<open>Machine integers and bytes\<close>

type_synonym u8 = "8 word"
type_synonym u32 = "32 word"

text \<open>
  A C string literal is a HOL string here; \<open>bytes_of\<close> gives the bytes the
  compiler puts in memory for it (without the terminator).
\<close>

definition bytes_of :: "string \<Rightarrow> u8 list" where
  "bytes_of str = map of_char str"

lemma bytes_of_Nil [simp]: "bytes_of [] = []"
  by (simp add: bytes_of_def)

lemma bytes_of_Cons [simp]: "bytes_of (c # cs) = of_char c # bytes_of cs"
  by (simp add: bytes_of_def)

lemma bytes_of_append [simp]: "bytes_of (xs @ ys) = bytes_of xs @ bytes_of ys"
  by (simp add: bytes_of_def)

lemma concat_replicate_snoc: "concat (replicate n xs) @ xs = xs @ concat (replicate n xs)"
  by (induction n) simp_all

lemma length_bytes_of [simp]: "length (bytes_of str) = length str"
  by (simp add: bytes_of_def)

text \<open>Pointer arithmetic: stepping a pointer \<open>n\<close> times is adding \<open>n\<close>.\<close>

lemma ptr_add_Suc: "p + 1 + (of_nat n :: u32) = p + of_nat (Suc n)"
  by simp

lemma ptr_add_int_Suc: "p + (word_of_int (i + 1) :: u32) = p + word_of_int i + 1"
  by simp

text \<open>
  C division and remainder truncate towards zero (\<open>sdiv\<close>, \<open>smod\<close>); on the
  non-negative counters of the programs they agree with \<open>div\<close> and \<open>mod\<close>.
\<close>

lemma sdiv_nonneg: "0 \<le> i \<Longrightarrow> 0 \<le> n \<Longrightarrow> i sdiv n = i div n" for i n :: int
  by (simp add: signed_divide_int_def sgn_if)

lemma smod_nonneg: "0 \<le> i \<Longrightarrow> 0 \<le> n \<Longrightarrow> i smod n = i mod n" for i n :: int
  by (simp add: signed_modulo_int_def sgn_if)

lemma smod_int_nat: "0 < n \<Longrightarrow> int i smod int n = 0 \<longleftrightarrow> i mod n = 0"
  by (simp add: smod_nonneg flip: of_nat_mod)

section \<open>Runs that may trap\<close>

text \<open>
  A run of a piece of code from a state either returns (\<open>Done\<close>, with the
  state it leaves), or stops at a memory access the platform refuses
  (\<open>Trap\<close>, with the faulting address and the state at that moment; the trace
  up to the fault is what the operator sees on the serial line), or never
  returns (\<open>None\<close>).
\<close>

datatype 's result = Done 's | Trap u32 's

type_synonym 's prog = "'s \<Rightarrow> 's result option"

primrec state_of :: "'s result \<Rightarrow> 's" where
  "state_of (Done s) = s"
| "state_of (Trap a s) = s"

primrec is_Done :: "'s result \<Rightarrow> bool" where
  "is_Done (Done s) = True"
| "is_Done (Trap a s) = False"

definition exec :: "('s \<Rightarrow> 's) \<Rightarrow> 's prog" where
  "exec f s = Some (Done (f s))"

definition andthen :: "'s prog \<Rightarrow> 's prog \<Rightarrow> 's prog" where
  "andthen p q s =
     (case p s of
        None \<Rightarrow> None
      | Some (Done t) \<Rightarrow> q t
      | Some (Trap a t) \<Rightarrow> Some (Trap a t))"

primrec chain :: "'s prog list \<Rightarrow> 's prog" where
  "chain [] = exec id"
| "chain (p # ps) = andthen p (chain ps)"

text \<open>
  \<^verbatim>\<open>int iteration = k; while (1) { iteration++; body }\<close>: the body runs with
  the incremented counter, again and again.  The loop has no exit, so a run
  either goes on for ever (\<open>None\<close>) or ends in a trap of its body.
\<close>

partial_function (option) forever :: "(int \<Rightarrow> 's prog) \<Rightarrow> int \<Rightarrow> 's prog" where
  "forever body iteration st =
     (case body (iteration + 1) st of
        None \<Rightarrow> None
      | Some (Done t) \<Rightarrow> forever body (iteration + 1) t
      | Some (Trap a t) \<Rightarrow> Some (Trap a t))"

text \<open>
  The same loop as a step relation on its heads: \<open>rounds body k s j t\<close>
  says that the loop entered with counter \<open>k\<close> in state \<open>s\<close> is at its
  head again with counter \<open>j\<close> in state \<open>t\<close>, every round in between
  having returned.
\<close>

inductive rounds :: "(int \<Rightarrow> 's prog) \<Rightarrow> int \<Rightarrow> 's \<Rightarrow> int \<Rightarrow> 's \<Rightarrow> bool"
  for body :: "int \<Rightarrow> 's prog" and k :: int and s :: 's where
  rounds_start [simp, intro]: "rounds body k s k s"
| rounds_round:
    "rounds body k s j t \<Longrightarrow> body (j + 1) t = Some (Done u) \<Longrightarrow> rounds body k s (j + 1) u"

code_pred rounds .

inductive_cases rounds_startE: "rounds body k s k t"

lemma exec_apply [prog_simps]: "exec f s = Some (Done (f s))"
  by (simp add: exec_def)

lemma chain_Nil_apply [prog_simps, simp]: "chain [] s = Some (Done s)"
  by (simp add: exec_def)

lemma andthen_Done [prog_simps]: "p s = Some (Done t) \<Longrightarrow> andthen p q s = q t"
  by (simp add: andthen_def)

lemma andthen_Trap [prog_simps]:
  "p s = Some (Trap a t) \<Longrightarrow> andthen p q s = Some (Trap a t)"
  by (simp add: andthen_def)

lemma andthen_None [prog_simps]: "p s = None \<Longrightarrow> andthen p q s = None"
  by (simp add: andthen_def)

lemma andthen_exec [prog_simps, simp]: "andthen (exec f) q s = q (f s)"
  by (simp add: andthen_def exec_def)

lemma andthen_assoc: "andthen (andthen p q) r = andthen p (andthen q r)"
  by (rule ext) (simp add: andthen_def split: option.split result.split)

lemma andthen_exec_id_left [simp]: "andthen (exec id) q = q"
  by (rule ext) (simp add: andthen_def exec_def)

lemma andthen_exec_id_right [simp]: "andthen p (exec id) = p"
  by (rule ext) (simp add: andthen_def exec_def split: option.split result.split)

lemma chain_append: "chain (ps @ qs) = andthen (chain ps) (chain qs)"
proof (induction ps)
  case Nil
  show ?case by (rule ext) (simp add: andthen_def exec_def)
next
  case (Cons p ps)
  then show ?case by (simp add: andthen_assoc)
qed

lemma chain_single [simp]: "chain [p] = p"
  by simp

text \<open>
  A run that returns or traps does so in a state; a property of all states a
  program can leave is lifted through \<open>andthen\<close> once and for all.
\<close>

lemma andthen_cases:
  assumes "andthen p q s = Some r"
  obtains (first) a t where "p s = Some (Trap a t)" and "r = Trap a t"
  | (second) t where "p s = Some (Done t)" and "q t = Some r"
  using assms by (auto simp: andthen_def split: option.splits result.splits)

lemma andthen_Done_D:
  assumes "andthen p q s = Some (Done t)"
  obtains u where "p s = Some (Done u)" and "q u = Some (Done t)"
  using assms by (cases rule: andthen_cases) auto

lemma chain_append_Done_D:
  assumes "chain (ps @ qs) s = Some (Done t)"
  obtains u where "chain ps s = Some (Done u)" and "chain qs u = Some (Done t)"
  using assms by (auto simp: chain_append elim: andthen_Done_D)

lemma andthen_preserves:
  assumes p: "\<And>s r. P s \<Longrightarrow> p s = Some r \<Longrightarrow> P (state_of r)"
    and q: "\<And>s r. P s \<Longrightarrow> q s = Some r \<Longrightarrow> P (state_of r)"
    and s: "P s" and run: "andthen p q s = Some r"
  shows "P (state_of r)"
  using run
proof (cases rule: andthen_cases)
  case (first a t)
  with p [OF s] show ?thesis by fastforce
next
  case (second t)
  from p [OF s second(1)] have "P t" by simp
  then show ?thesis using second(2) by (rule q)
qed

lemma chain_preserves:
  assumes each: "\<And>p s r. p \<in> set ps \<Longrightarrow> P s \<Longrightarrow> p s = Some r \<Longrightarrow> P (state_of r)"
    and s: "P s" and run: "chain ps s = Some r"
  shows "P (state_of r)"
  using each s run
proof (induction ps arbitrary: s r)
  case Nil
  then show ?case by (auto simp: exec_def)
next
  case (Cons p ps)
  from Cons.prems(3) have run: "andthen p (chain ps) s = Some r" by simp
  have p: "P (state_of r')" if "P s'" "p s' = Some r'" for s' r'
    using that Cons.prems(1) [of p s' r'] by simp
  have ps: "P (state_of r')" if "P s'" "chain ps s' = Some r'" for s' r'
  proof (rule Cons.IH [OF _ that])
    show "P (state_of r'')" if "q \<in> set ps" "P t" "q t = Some r''" for q t r''
      using Cons.prems(1) [of q t r''] that by simp
  qed
  from p ps Cons.prems(2) run show ?case
    by (rule andthen_preserves)
qed

section \<open>The endless loop\<close>

lemma forever_unroll: "forever body k = andthen (body (k + 1)) (forever body (k + 1))"
  by (rule ext) (subst forever.simps, simp add: andthen_def)

text \<open>
  Induction over a run of the loop that ends: it ends in a trap of some
  round, and the rounds before it returned.
\<close>

lemma forever_induct [consumes 1, case_names trap round]:
  assumes run: "forever body k st = Some r"
    and trap: "\<And>k st a t. body (k + 1) st = Some (Trap a t) \<Longrightarrow> P k st (Trap a t)"
    and round: "\<And>k st t r. body (k + 1) st = Some (Done t) \<Longrightarrow> P (k + 1) t r \<Longrightarrow> P k st r"
  shows "P k st r"
proof (rule forever.raw_induct
    [where P = "\<lambda>b k st r. b = body \<longrightarrow> P k st r", rule_format, OF _ run refl])
  fix f b k st r
  assume IH: "\<And>b k st r. f b k st = Some r \<Longrightarrow> b = body \<Longrightarrow> P k st r"
    and eq: "(case b (k + 1) st of None \<Rightarrow> None | Some (Done t) \<Rightarrow> f b (k + 1) t
       | Some (Trap a t) \<Rightarrow> Some (Trap a t)) = Some r" and b: "b = body"
  show "P k st r"
  proof (cases "body (k + 1) st")
    case None
    with eq b show ?thesis by simp
  next
    case (Some r')
    with eq b IH trap round show ?thesis by (cases r') auto
  qed
qed

lemma forever_never_done: "forever body k st = Some r \<Longrightarrow> \<not> is_Done r"
  by (induction rule: forever_induct) simp_all

lemma andthen_never_done:
  assumes "\<And>t r. q t = Some r \<Longrightarrow> \<not> is_Done r" and "andthen p q s = Some r"
  shows "\<not> is_Done r"
  using assms(2)
proof (cases rule: andthen_cases)
  case (first a t)
  then show ?thesis by simp
next
  case (second t)
  with assms(1) show ?thesis by blast
qed

lemma chain_never_done:
  assumes "\<And>t r. q t = Some r \<Longrightarrow> \<not> is_Done r" and "chain (ps @ [q]) s = Some r"
  shows "\<not> is_Done r"
  using assms(2)
proof (induction ps arbitrary: s r)
  case Nil
  with assms(1) show ?case by simp
next
  case (Cons p ps)
  from Cons.prems have "andthen p (chain (ps @ [q])) s = Some r" by simp
  with Cons.IH show ?case by (rule andthen_never_done)
qed

lemma chain_last_never_done:
  assumes "ps \<noteq> []" and "\<And>t r. last ps t = Some r \<Longrightarrow> \<not> is_Done r"
    and "chain ps s = Some r"
  shows "\<not> is_Done r"
proof -
  from assms(1) have "ps = butlast ps @ [last ps]" by simp
  with assms(3) have "chain (butlast ps @ [last ps]) s = Some r" by simp
  with assms(2) show ?thesis by (rule chain_never_done)
qed

text \<open>A loop whose rounds all return from the states it can reach never ends.\<close>

lemma forever_diverges:
  assumes inv: "\<And>k s. I s \<Longrightarrow> \<exists>t. body k s = Some (Done t) \<and> I t" and "I st"
  shows "forever body k st = None"
proof (rule ccontr)
  assume "forever body k st \<noteq> None"
  then obtain r where "forever body k st = Some r" by auto
  then have "\<not> I st"
  proof (induction rule: forever_induct)
    case (trap k st a t)
    with inv [of st "k + 1"] show ?case by auto
  next
    case (round k st t r)
    with inv [of st "k + 1"] show ?case by auto
  qed
  with assms(2) show False by simp
qed

section \<open>The heads of a loop\<close>

lemma rounds_forever: "rounds body k s j t \<Longrightarrow> forever body k s = forever body j t"
  by (induction rule: rounds.induct) (simp_all add: forever.simps [of body _ _])

lemma rounds_counter: "rounds body k s j t \<Longrightarrow> k \<le> j"
  by (induction rule: rounds.induct) simp_all

text \<open>Rounds that return one after the other lead from head to head.\<close>

lemma rounds_steps:
  assumes "\<And>j. j < n \<Longrightarrow> body (k + int j + 1) (S j) = Some (Done (S (Suc j)))"
  shows "rounds body k (S 0) (k + int n) (S n)"
  using assms
proof (induction n)
  case 0
  show ?case by simp
next
  case (Suc n)
  then have "rounds body k (S 0) (k + int n) (S n)" by simp
  from rounds_round [OF this Suc.prems [of n]] show ?case by (simp add: ac_simps)
qed

text \<open>The counter determines the state at a head.\<close>

lemma rounds_start_iff [simp]: "rounds body k s k t \<longleftrightarrow> t = s"
proof
  assume "rounds body k s k t"
  then show "t = s"
  proof (rule rounds_startE)
    fix j t' assume "k = j + 1" and "rounds body (j + 1) s j t'"
    then show ?thesis by (auto dest: rounds_counter)
  qed
qed simp

lemma rounds_unique:
  assumes "rounds body k s j t" and "rounds body k s j t'"
  shows "t = t'"
  using assms
proof (induction arbitrary: t' rule: rounds.induct)
  case rounds_start
  then show ?case by simp
next
  case (rounds_round j t u)
  from rounds_round.prems show ?case
  proof (cases rule: rounds.cases)
    case rounds_start
    with rounds_counter [OF rounds_round.hyps(1)] show ?thesis by simp
  next
    case (rounds_round j' t0)
    with rounds_round.IH [of t0] rounds_round.hyps(2) show ?thesis by simp
  qed
qed

text \<open>What holds at the entry and is kept by every round that returns holds at every head.\<close>

lemma rounds_invariant:
  assumes "rounds body k s j t" and "I s"
    and "\<And>j s t. I s \<Longrightarrow> body j s = Some (Done t) \<Longrightarrow> I t"
  shows "I t"
  using assms by (induction rule: rounds.induct) blast+

lemma rounds_first:
  assumes "rounds body (k + 1) t j u" and "body (k + 1) s = Some (Done t)"
  shows "rounds body k s j u"
  using assms by (induction rule: rounds.induct) (blast intro: rounds_round)+

text \<open>
  The loop and its step relation agree: a run of the loop that ends, ends
  with the trap of a round entered at a head, and a round that traps at a
  head ends the loop.
\<close>

lemma forever_trap_rounds:
  assumes "forever body k s = Some r"
  shows "\<exists>j t a u. rounds body k s j t \<and> body (j + 1) t = Some (Trap a u) \<and> r = Trap a u"
  using assms
proof (induction rule: forever_induct)
  case (trap k st a t)
  then show ?case by blast
next
  case (round k st t r)
  then show ?case by (blast intro: rounds_first)
qed

lemma rounds_trap:
  "rounds body k s j t \<Longrightarrow> body (j + 1) t = Some (Trap a u) \<Longrightarrow>
   forever body k s = Some (Trap a u)"
  by (simp add: rounds_forever forever.simps [of body j t])

lemma forever_rounds:
  "forever body k s = None \<or>
   (\<exists>j t a u. rounds body k s j t \<and> body (j + 1) t = Some (Trap a u) \<and>
      forever body k s = Some (Trap a u))"
proof (cases "forever body k s")
  case (Some r)
  from forever_trap_rounds [OF this] Some show ?thesis by blast
qed simp

end
