(* ===== verification/Machine.thy ===== *)
theory Machine
  imports Prelude
begin

text \<open>
  The hardware the three programs run on, as far as they can observe it: the
  UART data register at \<open>0x9000000\<close> (every store to it is logged, in order),
  the busy-wait iterations executed so far (the programs' only notion of
  time), and the guest's byte-addressed memory, where an address without a
  backing capability is \<open>None\<close> and an access to it traps.  The flags register
  \<open>UART0_FR\<close> is defined by the sources but never read or written, so it has no
  field.  The theory also holds the predicates that say a C string lies at an
  address, the scan of a region (\<open>scan\<close>: the bytes up to the terminator,
  a cap or the first unmapped address, and which of the three ended it),
  against which the probes are specified, the loader that builds a memory
  image from segments, the
  invariant \<open>wf_machine\<close> of the serial line, and the properties of runs
  that sequences and loops inherit from their parts: \<open>tracing\<close>, \<open>probing\<close>
  and \<open>returns_on\<close>.
\<close>

unbundle bit_operations_syntax

section \<open>State\<close>

record machine =
  uart_dr :: "u32 list"
  spins :: nat
  mem :: "u32 \<Rightarrow> u8 option"

definition UART0_DR :: u32 where
  "UART0_DR = 0x9000000"

definition UART0_FR :: u32 where
  "UART0_FR = 0x9000018"

text \<open>A store to the data register: the value is appended to the log.\<close>

definition write_dr :: "u32 \<Rightarrow> machine \<Rightarrow> machine" where
  "write_dr v s = s\<lparr>uart_dr := uart_dr s @ [v]\<rparr>"

text \<open>One iteration of an empty \<open>for\<close> loop over a volatile counter.\<close>

definition tick :: "machine \<Rightarrow> machine" where
  "tick s = s\<lparr>spins := Suc (spins s)\<rparr>"

text \<open>A byte load; \<open>None\<close> is the trap.\<close>

definition load8 :: "u32 \<Rightarrow> machine \<Rightarrow> u8 option" where
  "load8 a s = mem s a"

text \<open>A byte store to a mapped address; a store to an unmapped one traps.\<close>

definition store8 :: "u32 \<Rightarrow> u8 \<Rightarrow> machine prog" where
  "store8 a v s =
     (case mem s a of
        None \<Rightarrow> Some (Trap a s)
      | Some old \<Rightarrow> Some (Done (s\<lparr>mem := (mem s)(a \<mapsto> v)\<rparr>)))"

text \<open>
  An initialised local array (\<^verbatim>\<open>char a[] = {...}\<close>): its bytes are stored one
  after the other at the array's address.  \<open>mapped m a n\<close>: the \<open>n\<close> bytes
  from \<open>a\<close> on are mapped; \<open>poke m a bs\<close>: memory \<open>m\<close> with \<open>bs\<close> written at
  \<open>a\<close>.
\<close>

fun store_bytes :: "u32 \<Rightarrow> u8 list \<Rightarrow> machine prog" where
  "store_bytes a [] = exec id"
| "store_bytes a (b # bs) = andthen (store8 a b) (store_bytes (a + 1) bs)"

fun mapped :: "(u32 \<Rightarrow> u8 option) \<Rightarrow> u32 \<Rightarrow> nat \<Rightarrow> bool" where
  "mapped m a 0 = True"
| "mapped m a (Suc n) = (m a \<noteq> None \<and> mapped m (a + 1) n)"

fun poke :: "(u32 \<Rightarrow> u8 option) \<Rightarrow> u32 \<Rightarrow> u8 list \<Rightarrow> u32 \<Rightarrow> u8 option" where
  "poke m a [] = m"
| "poke m a (b # bs) = poke (m(a \<mapsto> b)) (a + 1) bs"

text \<open>
  The use of a byte read from memory (\<open>s[i]\<close>, \<open>*s\<close>) in a statement: the
  statement runs with the byte, or the run traps at the address.
\<close>

definition read_byte :: "u32 \<Rightarrow> (u8 \<Rightarrow> machine prog) \<Rightarrow> machine prog" where
  "read_byte a k s = (case load8 a s of None \<Rightarrow> Some (Trap a s) | Some c \<Rightarrow> k c s)"

text \<open>The bytes the serial line carries: the low byte of each logged store.\<close>

definition console :: "machine \<Rightarrow> u8 list" where
  "console s = map ucast (uart_dr s)"

section \<open>Strings in memory\<close>

fun bytes_at :: "(u32 \<Rightarrow> u8 option) \<Rightarrow> u32 \<Rightarrow> u8 list \<Rightarrow> bool" where
  "bytes_at m p [] = True"
| "bytes_at m p (b # bs) = (m p = Some b \<and> bytes_at m (p + 1) bs)"

text \<open>
  \<open>cstring_at m p bs\<close>: the NUL-terminated string at \<open>p\<close> is \<open>bs\<close>.
  \<open>cut_at m p bs\<close>: the bytes \<open>bs\<close> at \<open>p\<close> are readable and not NUL, and the
  address after them is not mapped (the string runs into a missing frame).
\<close>

definition cstring_at :: "(u32 \<Rightarrow> u8 option) \<Rightarrow> u32 \<Rightarrow> u8 list \<Rightarrow> bool" where
  "cstring_at m p bs = (bytes_at m p (bs @ [0]) \<and> 0 \<notin> set bs)"

definition cut_at :: "(u32 \<Rightarrow> u8 option) \<Rightarrow> u32 \<Rightarrow> u8 list \<Rightarrow> bool" where
  "cut_at m p bs =
     (bytes_at m p bs \<and> 0 \<notin> set bs \<and> m (p + of_nat (length bs)) = None)"

text \<open>
  The specification's bounded scan of a region: the bytes read from \<open>p\<close>
  on, one by one, up to the first NUL byte or after \<open>n\<close> bytes, whichever
  comes first, and the way the scan ended.  A read of an unmapped address
  ends it with the address of the fault.  The scan is a function of the
  memory alone: it is what a probe of the region is meant to report.
\<close>

datatype ending = Terminator | Capped | Fault u32

fun scan :: "(u32 \<Rightarrow> u8 option) \<Rightarrow> u32 \<Rightarrow> nat \<Rightarrow> u8 list \<times> ending" where
  "scan m p 0 = ([], Capped)"
| "scan m p (Suc n) =
     (case m p of
        None \<Rightarrow> ([], Fault p)
      | Some c \<Rightarrow>
          if c = 0 then ([], Terminator)
          else (case scan m (p + 1) n of (bs, e) \<Rightarrow> (c # bs, e)))"

text \<open>The result of a run that ended this way in state \<open>s\<close>.\<close>

primrec finish :: "ending \<Rightarrow> 's \<Rightarrow> 's result" where
  "finish Terminator s = Done s"
| "finish Capped s = Done s"
| "finish (Fault a) s = Trap a s"

text \<open>
  The linker's string table: \<open>L str\<close> is the address of the literal \<open>str\<close>.
  \<open>lit_at L m str\<close> says the literal is in place in memory \<open>m\<close>.
\<close>

type_synonym layout = "string \<Rightarrow> u32"

definition lit_at :: "layout \<Rightarrow> (u32 \<Rightarrow> u8 option) \<Rightarrow> string \<Rightarrow> bool" where
  "lit_at L m str = cstring_at m (L str) (bytes_of str)"

definition lits_at :: "layout \<Rightarrow> (u32 \<Rightarrow> u8 option) \<Rightarrow> string list \<Rightarrow> bool" where
  "lits_at L m strs = list_all (lit_at L m) strs"

section \<open>Memory images\<close>

text \<open>
  A memory image is a list of segments (base address, contents); an address
  is mapped when it falls into a segment, the first one winning.
\<close>

fun image_of :: "(u32 \<times> u8 list) list \<Rightarrow> u32 \<Rightarrow> u8 option" where
  "image_of [] a = None"
| "image_of ((base, bs) # segs) a =
     (if unat (a - base) < length bs then Some (bs ! unat (a - base))
      else image_of segs a)"

definition boot :: "(u32 \<times> u8 list) list \<Rightarrow> machine" where
  "boot segs = \<lparr>uart_dr = [], spins = 0, mem = image_of segs\<rparr>"

text \<open>
  A string table lists the strings of a program with the addresses the
  linker gave them; it determines the layout and the segments to load (each
  string with its terminator).
\<close>

definition layout_of :: "(string \<times> u32) list \<Rightarrow> layout" where
  "layout_of tbl str = (case map_of tbl str of None \<Rightarrow> 0 | Some a \<Rightarrow> a)"

definition segments_of :: "(string \<times> u32) list \<Rightarrow> (u32 \<times> u8 list) list" where
  "segments_of tbl = map (\<lambda>(str, a). (a, bytes_of str @ [0])) tbl"

definition boot_table :: "(string \<times> u32) list \<Rightarrow> machine" where
  "boot_table tbl = boot (segments_of tbl)"

section \<open>Relations between states\<close>

text \<open>
  \<open>stops m a\<close>: a string walk ends at address \<open>a\<close>, in a terminator or in a
  trap.  \<open>extends s t\<close>: state \<open>t\<close> can follow \<open>s\<close> in a run: what was on
  the serial line stays there, what was added are zero-extended characters,
  and each of them took its settle delay.  \<open>same_mem s t\<close>: the code
  between \<open>s\<close> and \<open>t\<close> only read memory.
\<close>

definition stops :: "(u32 \<Rightarrow> u8 option) \<Rightarrow> u32 \<Rightarrow> bool" where
  "stops m a = (m a = None \<or> m a = Some 0)"

definition extends :: "machine \<Rightarrow> machine \<Rightarrow> bool" where
  "extends s t =
     (prefix (uart_dr s) (uart_dr t) \<and>
      spins s + 10000 * (length (uart_dr t) - length (uart_dr s)) \<le> spins t \<and>
      list_all (\<lambda>w. w < 256) (drop (length (uart_dr s)) (uart_dr t)))"

text \<open>
  The invariant of the machine: every word stored to the data register is a
  zero-extended character, and each of them was followed by its settle
  delay of 10000 busy-wait iterations.
\<close>

definition wf_machine :: "machine \<Rightarrow> bool" where
  "wf_machine s =
     (list_all (\<lambda>w. w < 256) (uart_dr s) \<and> 10000 * length (uart_dr s) \<le> spins s)"

definition same_mem :: "machine \<Rightarrow> machine \<Rightarrow> bool" where
  "same_mem s t = (mem t = mem s)"

definition probe_step :: "machine \<Rightarrow> machine \<Rightarrow> bool" where
  "probe_step s t = (extends s t \<and> same_mem s t)"

section \<open>Frame facts of the primitives\<close>

lemma write_dr_fields [frame_simps, simp]:
  "uart_dr (write_dr v s) = uart_dr s @ [v]"
  "spins (write_dr v s) = spins s"
  "mem (write_dr v s) = mem s"
  by (simp_all add: write_dr_def)

lemma tick_fields [frame_simps, simp]:
  "uart_dr (tick s) = uart_dr s"
  "spins (tick s) = Suc (spins s)"
  "mem (tick s) = mem s"
  by (simp_all add: tick_def)

lemma load8_frame [frame_simps]:
  "mem t = mem s \<Longrightarrow> load8 a t = load8 a s"
  by (simp add: load8_def)

lemma read_byte_Some [prog_simps]: "load8 a s = Some c \<Longrightarrow> read_byte a k s = k c s"
  by (simp add: read_byte_def)

lemma read_byte_None [prog_simps]: "load8 a s = None \<Longrightarrow> read_byte a k s = Some (Trap a s)"
  by (simp add: read_byte_def)

lemma andthen_read_byte_Some [prog_simps]:
  "load8 a s = Some c \<Longrightarrow> andthen (read_byte a k) q s = andthen (k c) q s"
  by (simp add: andthen_def read_byte_def)

lemma andthen_read_byte_None [prog_simps]:
  "load8 a s = None \<Longrightarrow> andthen (read_byte a k) q s = Some (Trap a s)"
  by (simp add: andthen_def read_byte_def)

lemma boot_fields [simp]:
  "uart_dr (boot segs) = []"
  "spins (boot segs) = 0"
  "mem (boot segs) = image_of segs"
  by (simp_all add: boot_def)

lemma console_update [simp]:
  "console (s\<lparr>mem := m\<rparr>) = console s" "console (s\<lparr>spins := n\<rparr>) = console s"
  by (simp_all add: console_def)

lemma console_boot [simp]: "console (boot segs) = []"
  by (simp add: console_def)

lemma console_append:
  "uart_dr t = uart_dr s @ ws \<Longrightarrow> console t = console s @ map ucast ws"
  by (simp add: console_def)

section \<open>Facts about strings in memory\<close>

lemma bytes_at_append:
  "bytes_at m p (xs @ ys) \<longleftrightarrow> bytes_at m p xs \<and> bytes_at m (p + of_nat (length xs)) ys"
proof (induction xs arbitrary: p)
  case Nil
  show ?case by simp
next
  case (Cons x xs)
  then show ?case by (simp add: add.assoc)
qed

lemma bytes_at_nth:
  "bytes_at m p bs \<Longrightarrow> i < length bs \<Longrightarrow> m (p + of_nat i) = Some (bs ! i)"
proof (induction bs arbitrary: p i)
  case Nil
  then show ?case by simp
next
  case (Cons b bs)
  show ?case
  proof (cases i)
    case 0
    with Cons.prems show ?thesis by simp
  next
    case (Suc j)
    with Cons.prems have "m (p + 1 + of_nat j) = Some (bs ! j)"
      by (intro Cons.IH) simp_all
    with Suc show ?thesis by (simp add: add.assoc)
  qed
qed

lemma bytes_at_take: "bytes_at m p bs \<Longrightarrow> bytes_at m p (take n bs)"
  by (induction bs arbitrary: p n) (auto simp: take_Cons split: nat.split)

lemma cstring_at_Nil [simp]: "cstring_at m p [] \<longleftrightarrow> m p = Some 0"
  by (simp add: cstring_at_def)

lemma cstring_at_Cons [simp]:
  "cstring_at m p (b # bs) \<longleftrightarrow> m p = Some b \<and> b \<noteq> 0 \<and> cstring_at m (p + 1) bs"
  by (auto simp: cstring_at_def)

lemma cut_at_Nil [simp]: "cut_at m p [] \<longleftrightarrow> m p = None"
  by (simp add: cut_at_def)

lemma cut_at_Cons [simp]:
  "cut_at m p (b # bs) \<longleftrightarrow> m p = Some b \<and> b \<noteq> 0 \<and> cut_at m (p + 1) bs"
  by (auto simp: cut_at_def add.assoc)

lemma cstring_at_bytes: "cstring_at m p bs \<Longrightarrow> bytes_at m p bs \<and> 0 \<notin> set bs"
  by (simp add: cstring_at_def bytes_at_append)

lemma cstring_at_end: "cstring_at m p bs \<Longrightarrow> m (p + of_nat (length bs)) = Some 0"
  by (simp add: cstring_at_def bytes_at_append)

lemma cstring_at_unique:
  "cstring_at m p xs \<Longrightarrow> cstring_at m p ys \<Longrightarrow> xs = ys"
proof (induction xs arbitrary: p ys)
  case Nil
  then show ?case by (cases ys) auto
next
  case (Cons x xs)
  then show ?case by (cases ys) auto
qed

text \<open>
  The three endings of a scan, in terms of what lies in memory: a
  terminated string shorter than the cap, a string cut by an unmapped
  address before the cap, or as many bytes without NUL as the cap allows.
\<close>

lemma scan_Suc_Nil:
  "scan m p (Suc n) = ([], e) \<longleftrightarrow>
     m p = None \<and> e = Fault p \<or> m p = Some 0 \<and> e = Terminator"
  by (auto split: option.splits prod.splits)

lemma scan_Suc_Cons:
  "scan m p (Suc n) = (c # bs, e) \<longleftrightarrow>
     m p = Some c \<and> c \<noteq> 0 \<and> scan m (p + 1) n = (bs, e)"
  by (auto split: option.splits prod.splits)

lemmas scan_Suc = scan_Suc_Nil scan_Suc_Cons

declare scan.simps(2) [simp del]

lemma scan_Terminator:
  "scan m p n = (bs, Terminator) \<longleftrightarrow> cstring_at m p bs \<and> length bs < n"
proof (induction n arbitrary: p bs)
  case 0
  show ?case by simp
next
  case (Suc n)
  show ?case by (cases bs) (auto simp: scan_Suc Suc.IH)
qed

lemma scan_Capped:
  "scan m p n = (bs, Capped) \<longleftrightarrow> bytes_at m p bs \<and> 0 \<notin> set bs \<and> length bs = n"
proof (induction n arbitrary: p bs)
  case 0
  show ?case by auto
next
  case (Suc n)
  show ?case by (cases bs) (auto simp: scan_Suc Suc.IH)
qed

lemma scan_Fault:
  "scan m p n = (bs, Fault a) \<longleftrightarrow>
     cut_at m p bs \<and> length bs < n \<and> a = p + of_nat (length bs)"
proof (induction n arbitrary: p bs)
  case 0
  show ?case by simp
next
  case (Suc n)
  show ?case by (cases bs) (auto simp: scan_Suc Suc.IH add.assoc)
qed

lemmas scan_iff = scan_Terminator scan_Capped scan_Fault

lemma scan_length: "scan m p n = (bs, e) \<Longrightarrow> length bs \<le> n"
  by (cases e) (simp_all add: scan_iff)

lemma scan_bytes: "scan m p n = (bs, e) \<Longrightarrow> bytes_at m p bs \<and> 0 \<notin> set bs"
  by (cases e) (auto simp: scan_iff cut_at_def dest: cstring_at_bytes)

lemma lits_at_Nil [simp]: "lits_at L m []"
  by (simp add: lits_at_def)

lemma lits_at_Cons [simp]:
  "lits_at L m (str # strs) \<longleftrightarrow> lit_at L m str \<and> lits_at L m strs"
  by (simp add: lits_at_def)

lemma lits_at_mem: "lits_at L m strs \<Longrightarrow> str \<in> set strs \<Longrightarrow> lit_at L m str"
  by (simp add: lits_at_def list_all_iff)

lemma lits_at_append [simp]:
  "lits_at L m (xs @ ys) \<longleftrightarrow> lits_at L m xs \<and> lits_at L m ys"
  by (simp add: lits_at_def)

section \<open>Facts about the relations between states\<close>

lemma extends_iff:
  "extends s t \<longleftrightarrow>
     (\<exists>ws. uart_dr t = uart_dr s @ ws \<and> list_all (\<lambda>w. w < 256) ws \<and>
        spins s + 10000 * length ws \<le> spins t)"
  by (auto simp: extends_def prefix_def)

lemma extendsI:
  "uart_dr t = uart_dr s @ ws \<Longrightarrow> list_all (\<lambda>w. w < 256) ws \<Longrightarrow>
   spins s + 10000 * length ws \<le> spins t \<Longrightarrow> extends s t"
  by (auto simp: extends_iff)

lemma extends_refl [simp, intro]: "extends s s"
  by (simp add: extends_def)

lemma extends_trans [trans]:
  assumes "extends s t" and "extends t u"
  shows "extends s u"
proof -
  from assms obtain a b where "uart_dr t = uart_dr s @ a" "uart_dr u = uart_dr t @ b"
    "list_all (\<lambda>w. w < 256) a" "list_all (\<lambda>w. w < 256) b"
    "spins s + 10000 * length a \<le> spins t" "spins t + 10000 * length b \<le> spins u"
    by (auto simp: extends_iff)
  then show ?thesis by (intro extendsI [where ws = "a @ b"]) simp_all
qed

lemma extends_spins: "extends s t \<Longrightarrow> spins s \<le> spins t"
  by (simp add: extends_def)

lemma extends_prefix: "extends s t \<Longrightarrow> prefix (uart_dr s) (uart_dr t)"
  by (simp add: extends_def)

lemma extends_wf: "extends s t \<Longrightarrow> wf_machine s \<Longrightarrow> wf_machine t"
  by (auto simp: extends_iff wf_machine_def)

lemma wf_machine_boot [simp]: "wf_machine (boot segs)"
  by (simp add: wf_machine_def boot_def)

lemma probe_step_refl [simp, intro]: "probe_step s s"
  by (simp add: probe_step_def same_mem_def)

lemma probe_step_trans [trans]: "probe_step s t \<Longrightarrow> probe_step t u \<Longrightarrow> probe_step s u"
  by (auto simp: probe_step_def same_mem_def intro: extends_trans)

lemma probe_stepI:
  "uart_dr t = uart_dr s @ ws \<Longrightarrow> list_all (\<lambda>w. w < 256) ws \<Longrightarrow>
   spins s + 10000 * length ws \<le> spins t \<Longrightarrow> mem t = mem s \<Longrightarrow> probe_step s t"
  by (simp add: probe_step_def same_mem_def extendsI)

lemma probe_step_mem: "probe_step s t \<Longrightarrow> mem t = mem s"
  by (simp add: probe_step_def same_mem_def)

lemma probe_step_extends: "probe_step s t \<Longrightarrow> extends s t"
  by (simp add: probe_step_def)

lemma probe_step_console: "probe_step s t \<Longrightarrow> prefix (console s) (console t)"
  by (auto simp: probe_step_def extends_def console_def prefix_def)

text \<open>
  A program whose every run is a probe step: composition keeps the property,
  so it is proved once per primitive and inherited by every sequence.
\<close>

definition probing :: "machine prog \<Rightarrow> bool" where
  "probing p = (\<forall>s r. p s = Some r \<longrightarrow> probe_step s (state_of r))"

lemma probingI: "(\<And>s r. p s = Some r \<Longrightarrow> probe_step s (state_of r)) \<Longrightarrow> probing p"
  by (simp add: probing_def)

lemma probingD: "probing p \<Longrightarrow> p s = Some r \<Longrightarrow> probe_step s (state_of r)"
  by (simp add: probing_def)

lemma probing_exec: "(\<And>s. probe_step s (f s)) \<Longrightarrow> probing (exec f)"
  by (auto simp: probing_def exec_def)

lemma probing_andthen: "probing p \<Longrightarrow> probing q \<Longrightarrow> probing (andthen p q)"
proof (rule probingI)
  fix s r
  assume p: "probing p" and q: "probing q" and run: "andthen p q s = Some r"
  from run show "probe_step s (state_of r)"
  proof (cases rule: andthen_cases)
    case (first a t)
    with p show ?thesis by (auto dest: probingD)
  next
    case (second t)
    from p second(1) have "probe_step s t" by (auto dest: probingD)
    also from q second(2) have "probe_step t (state_of r)" by (rule probingD)
    finally show ?thesis .
  qed
qed

lemma probing_exec_id [simp, intro]: "probing (exec id)"
  by (simp add: probing_exec)

lemma probing_read_byte:"(\<And>c. probing (k c)) \<Longrightarrow> probing (read_byte a k)"
  by (auto simp: probing_def read_byte_def split: option.splits)

lemma probing_if: "probing p \<Longrightarrow> probing q \<Longrightarrow> probing (if b then p else q)"
  by simp

lemma probing_chain: "list_all probing ps \<Longrightarrow> probing (chain ps)"
  by (induction ps) (auto intro: probing_exec probing_andthen)

lemma probing_forever:
  assumes "\<And>k. probing (body k)"
  shows "probing (forever body k)"
proof (rule probingI)
  fix s r
  assume "forever body k s = Some r"
  then show "probe_step s (state_of r)"
  proof (induction rule: forever_induct)
    case (trap k st a t)
    with assms [of "k + 1"] show ?case by (auto dest: probingD)
  next
    case (round k st t r)
    from assms [of "k + 1"] round(1) have "probe_step st t" by (auto dest: probingD)
    with round(2) show ?case by (blast intro: probe_step_trans)
  qed
qed

text \<open>
  A program whose every run extends the state it starts from, whether or
  not it keeps memory as it is; such a program keeps the invariant.
\<close>

definition tracing :: "machine prog \<Rightarrow> bool" where
  "tracing p = (\<forall>s r. p s = Some r \<longrightarrow> extends s (state_of r))"

lemma tracingI: "(\<And>s r. p s = Some r \<Longrightarrow> extends s (state_of r)) \<Longrightarrow> tracing p"
  by (simp add: tracing_def)

lemma tracingD: "tracing p \<Longrightarrow> p s = Some r \<Longrightarrow> extends s (state_of r)"
  by (simp add: tracing_def)

lemma probing_tracing: "probing p \<Longrightarrow> tracing p"
  by (auto simp: probing_def tracing_def probe_step_extends)

lemma tracing_andthen: "tracing p \<Longrightarrow> tracing q \<Longrightarrow> tracing (andthen p q)"
proof (rule tracingI)
  fix s r
  assume p: "tracing p" and q: "tracing q" and run: "andthen p q s = Some r"
  from run show "extends s (state_of r)"
  proof (cases rule: andthen_cases)
    case (first a t)
    with p show ?thesis by (auto dest: tracingD)
  next
    case (second t)
    from p second(1) have "extends s t" by (auto dest: tracingD)
    also from q second(2) have "extends t (state_of r)" by (rule tracingD)
    finally show ?thesis .
  qed
qed

lemma tracing_chain: "list_all tracing ps \<Longrightarrow> tracing (chain ps)"
  by (induction ps) (auto intro: tracing_andthen probing_tracing)

lemma tracing_forever:
  assumes "\<And>k. tracing (body k)"
  shows "tracing (forever body k)"
proof (rule tracingI)
  fix s r
  assume "forever body k s = Some r"
  then show "extends s (state_of r)"
  proof (induction rule: forever_induct)
    case (trap k st a t)
    with assms [of "k + 1"] show ?case by (auto dest: tracingD)
  next
    case (round k st t r)
    from assms [of "k + 1"] round(1) have "extends st t" by (auto dest: tracingD)
    with round(2) show ?case by (blast intro: extends_trans)
  qed
qed

lemma tracing_store8: "tracing (store8 a v)"
  by (auto simp: tracing_def store8_def extends_def split: option.splits)

lemma tracing_store_bytes: "tracing (store_bytes a bs)"
  by (induction bs arbitrary: a)
    (auto intro: tracing_andthen tracing_store8 probing_tracing)

lemma tracing_wf: "tracing p \<Longrightarrow> wf_machine s \<Longrightarrow> p s = Some r \<Longrightarrow> wf_machine (state_of r)"
  by (blast dest: tracingD extends_wf)

lemma tracing_rounds:
  assumes "rounds body k s j t" and "\<And>k. tracing (body k)"
  shows "extends s t"
  using assms(1)
proof (rule rounds_invariant [where I = "extends s"])
  fix j s' t assume "extends s s'" and run: "body j s' = Some (Done t)"
  from tracingD [OF assms(2) run] have "extends s' t" by simp
  with \<open>extends s s'\<close> show "extends s t" by (rule extends_trans)
qed simp

lemma probing_rounds:
  assumes "rounds body k s j t" and "\<And>k. probing (body k)"
  shows "probe_step s t"
  using assms(1)
proof (rule rounds_invariant [where I = "probe_step s"])
  fix j s' t assume "probe_step s s'" and run: "body j s' = Some (Done t)"
  from probingD [OF assms(2) run] have "probe_step s' t" by simp
  with \<open>probe_step s s'\<close> show "probe_step s t" by (rule probe_step_trans)
qed simp

lemma extends_console: "extends s t \<Longrightarrow> prefix (console s) (console t)"
  by (simp add: console_def extends_prefix map_mono_prefix)

lemma wf_probe_step: "probe_step s t \<Longrightarrow> wf_machine s \<Longrightarrow> wf_machine t"
  by (blast intro: extends_wf probe_step_extends)

lemma wf_probing: "probing q \<Longrightarrow> wf_machine s \<Longrightarrow> q s = Some r \<Longrightarrow> wf_machine (state_of r)"
  by (blast intro: tracing_wf probing_tracing)

text \<open>What a run, and a walk through the heads of a loop, keep of a well-formed machine.\<close>

lemma tracing_keeps:
  "tracing q \<Longrightarrow> wf_machine s \<Longrightarrow> q s = Some r \<Longrightarrow>
   wf_machine (state_of r) \<and> prefix (console s) (console (state_of r))"
  by (blast intro: tracing_wf dest: tracingD extends_console)

lemma probing_keeps:
  "probing q \<Longrightarrow> wf_machine s \<Longrightarrow> q s = Some r \<Longrightarrow>
   wf_machine (state_of r) \<and> prefix (console s) (console (state_of r)) \<and>
   mem (state_of r) = mem s"
  by (blast intro: wf_probing dest: probingD probe_step_console probe_step_mem)

lemma tracing_rounds_keeps:
  "(\<And>k. tracing (body k)) \<Longrightarrow> wf_machine s \<Longrightarrow> rounds body k s j t \<Longrightarrow>
   wf_machine t \<and> prefix (console s) (console t)"
  by (blast intro: extends_wf dest: tracing_rounds extends_console)

lemma probing_rounds_keeps:
  "(\<And>k. probing (body k)) \<Longrightarrow> wf_machine s \<Longrightarrow> rounds body k s j t \<Longrightarrow>
   wf_machine t \<and> prefix (console s) (console t) \<and> mem t = mem s"
  by (blast intro: wf_probe_step dest: probing_rounds probe_step_console probe_step_mem)

text \<open>
  A program that comes back, with \<open>Done\<close> or with \<open>Trap\<close>, from every state
  whose memory is \<open>M\<close>.  Probing programs leave the memory as it is, so the
  property passes through sequences.
\<close>

definition returns_on :: "(u32 \<Rightarrow> u8 option) \<Rightarrow> machine prog \<Rightarrow> bool" where
  "returns_on M p = (\<forall>s. mem s = M \<longrightarrow> (\<exists>r. p s = Some r))"

lemma returns_onI: "(\<And>s. mem s = M \<Longrightarrow> \<exists>r. p s = Some r) \<Longrightarrow> returns_on M p"
  by (simp add: returns_on_def)

lemma returns_onD: "returns_on M p \<Longrightarrow> mem s = M \<Longrightarrow> \<exists>r. p s = Some r"
  by (simp add: returns_on_def)

lemma returns_on_exec [simp, intro]: "returns_on M (exec f)"
  by (simp add: returns_on_def exec_def)

lemma returns_on_andthen:
  assumes "probing p" and "returns_on M p" and "returns_on M q"
  shows "returns_on M (andthen p q)"
proof (rule returns_onI)
  fix s :: machine assume s: "mem s = M"
  with assms(2) obtain r where r: "p s = Some r" by (auto dest: returns_onD)
  with assms(1) have "mem (state_of r) = mem s" by (auto dest: probingD probe_step_mem)
  with s assms(3) have "\<exists>r'. q (state_of r) = Some r'" by (auto dest: returns_onD)
  with r show "\<exists>r'. andthen p q s = Some r'"
    by (cases r) (simp_all add: andthen_def)
qed

lemma returns_on_read_byte: "(\<And>c. returns_on M (k c)) \<Longrightarrow> returns_on M (read_byte a k)"
  by (auto simp: returns_on_def read_byte_def split: option.splits)

lemma returns_on_if: "returns_on M p \<Longrightarrow> returns_on M q \<Longrightarrow> returns_on M (if b then p else q)"
  by simp

lemma returns_on_chain:
  "list_all probing ps \<Longrightarrow> list_all (returns_on M) ps \<Longrightarrow> returns_on M (chain ps)"
  by (induction ps) (auto intro: returns_on_andthen)

section \<open>Initialised arrays\<close>

lemma mapped_upd: "mapped m p n \<Longrightarrow> mapped (m(a \<mapsto> b)) p n"
  by (induction n arbitrary: p) simp_all

lemma store_bytes_Done:
  "mapped (mem s) a (length bs) \<Longrightarrow>
   store_bytes a bs s = Some (Done (s\<lparr>mem := poke (mem s) a bs\<rparr>))"
proof (induction bs arbitrary: a s)
  case Nil
  show ?case by (simp add: exec_apply)
next
  case (Cons b bs)
  let ?s = "s\<lparr>mem := (mem s)(a \<mapsto> b)\<rparr>"
  from Cons.prems have 1: "store8 a b s = Some (Done ?s)"
    by (auto simp: store8_def)
  have m: "mem ?s = (mem s)(a \<mapsto> b)" by simp
  have 2: "store_bytes (a + 1) bs ?s = Some (Done (?s\<lparr>mem := poke (mem ?s) (a + 1) bs\<rparr>))"
  proof (rule Cons.IH)
    from Cons.prems have "mapped (mem s) (a + 1) (length bs)" by simp
    then show "mapped (mem ?s) (a + 1) (length bs)"
      unfolding m by (rule mapped_upd)
  qed
  show ?case
    unfolding store_bytes.simps andthen_Done [where p = "store8 a b", OF 1] 2 m by simp
qed

lemma word_plus_neq: "0 < n \<Longrightarrow> n < 2 ^ 32 \<Longrightarrow> (a :: u32) + of_nat n \<noteq> a"
  by (simp add: word_of_nat_eq_0_iff nat_dvd_not_less)

lemma poke_outside: "(\<And>i. i < length bs \<Longrightarrow> a + of_nat i \<noteq> x) \<Longrightarrow> poke m a bs x = m x"
proof (induction bs arbitrary: a m)
  case Nil
  show ?case by simp
next
  case (Cons b bs)
  have "poke (m(a \<mapsto> b)) (a + 1) bs x = (m(a \<mapsto> b)) x"
    using Cons.prems [of "Suc i" for i] by (intro Cons.IH) (simp add: ac_simps)
  with Cons.prems [of 0] show ?case by simp
qed

text \<open>What was stored is read back, unless the array wraps around the address space.\<close>

lemma bytes_at_poke: "length bs \<le> 2 ^ 32 \<Longrightarrow> bytes_at (poke m a bs) a bs"
proof (induction bs arbitrary: a m)
  case Nil
  show ?case by simp
next
  case (Cons b bs)
  have "poke (m(a \<mapsto> b)) (a + 1) bs a = (m(a \<mapsto> b)) a"
  proof (rule poke_outside)
    fix i assume "i < length bs"
    with Cons.prems have "a + of_nat (Suc i) \<noteq> a" by (intro word_plus_neq) simp_all
    then show "a + 1 + of_nat i \<noteq> a" by (simp add: ac_simps)
  qed
  with Cons show ?case by simp
qed

end
