(* ===== verification/Image.thy ===== *)
theory Image
  imports Machine
begin

text \<open>
  String tables and the memory images built from them.  A table that is
  well formed (\<open>table_ok\<close>: names distinct, no NUL inside a string, address
  ranges apart and not wrapping) places every one of its strings: the
  hypothesis \<open>lits_at\<close> of the run lemmas then holds for the booted machine.
  The predicate looks at lengths and addresses only, so it is cheap to
  evaluate for the tables of whole programs.
\<close>

section \<open>Address ranges that miss each other\<close>

text \<open>\<open>seg_free base len p n\<close>: the \<open>n\<close> addresses from \<open>p\<close> on miss the \<open>len\<close> addresses from \<open>base\<close> on.\<close>

definition seg_free :: "u32 \<Rightarrow> nat \<Rightarrow> u32 \<Rightarrow> nat \<Rightarrow> bool" where
  "seg_free base len p n = (len \<le> unat (p - base) \<and> unat (p - base) + n \<le> 2 ^ 32)"

text \<open>
  Address ranges (start, length) of which each misses all later ones; a
  table is in order when its names are distinct, no string holds a NUL, and
  the ranges of its strings (terminators included) are apart.
\<close>

fun ranges_ok :: "(u32 \<times> nat) list \<Rightarrow> bool" where
  "ranges_ok [] = True"
| "ranges_ok ((a, n) # rs) =
     (n \<le> 2 ^ 32 \<and> list_all (\<lambda>(a', n'). seg_free a n a' n') rs \<and> ranges_ok rs)"

definition table_ok :: "(string \<times> u32) list \<Rightarrow> bool" where
  "table_ok tbl =
     (distinct (map fst tbl) \<and> list_all (\<lambda>(str, a). CHR 0x00 \<notin> set str) tbl \<and>
      ranges_ok (map (\<lambda>(str, a). (a, Suc (length str))) tbl))"

text \<open>\<open>table_free tbl p n\<close>: the \<open>n\<close> addresses from \<open>p\<close> on and the strings of the table miss each other.\<close>

definition table_free :: "(string \<times> u32) list \<Rightarrow> u32 \<Rightarrow> nat \<Rightarrow> bool" where
  "table_free tbl p n =
     list_all (\<lambda>(str, a). seg_free a (Suc (length str)) p n \<and> seg_free p n a (Suc (length str)))
       tbl"

section \<open>Well-formed tables, entry by entry\<close>

lemma of_char_eq_0: "(of_char c :: u8) = 0 \<longleftrightarrow> c = CHR 0x00"
proof -
  have "unat (of_char c :: u8) = of_char c"
    using of_nat_of_char [of c, where ?'a = u8] unat_of_nat [of "of_char c", where ?'a = 8]
    by (simp add: take_bit_eq_mod)
  moreover have "(of_char c :: nat) = 0 \<longleftrightarrow> c = CHR 0x00"
    using of_char_eq_iff [of c "CHR 0x00", where ?'a = nat] by simp
  ultimately show ?thesis by (simp add: unat_eq_0 [symmetric])
qed

lemma no_nul_bytes: "0 \<in> set (bytes_of str) \<longleftrightarrow> CHR 0x00 \<in> set str"
  by (auto simp: bytes_of_def of_char_eq_0 image_iff)

lemma table_ok_Nil [simp]: "table_ok []"
  by (simp add: table_ok_def)

lemma table_ok_Cons:
  "table_ok ((str, a) # tbl) \<longleftrightarrow>
     str \<notin> fst ` set tbl \<and> 0 \<notin> set (bytes_of str) \<and> length str < 2 ^ 32 \<and>
     list_all (\<lambda>(str', a'). seg_free a (Suc (length str)) a' (Suc (length str'))) tbl \<and>
     table_ok tbl"
  by (auto simp: table_ok_def no_nul_bytes list_all_iff less_eq_Suc_le)

section \<open>Reading past a segment\<close>

lemma unat_offset:
  fixes p base :: u32
  assumes "unat (p - base) + i < 2 ^ 32"
  shows "unat (p + of_nat i - base) = unat (p - base) + i"
proof -
  have eq: "p + of_nat i - base = (p - base) + of_nat i" by simp
  from assms show ?thesis
    unfolding eq by (simp add: unat_word_ariths unat_of_nat)
qed

lemma seg_free_miss:
  "seg_free base len p n \<Longrightarrow> i < n \<Longrightarrow> \<not> unat (p + of_nat i - base) < len"
  using unat_offset [of p base i] by (simp add: seg_free_def)

lemma image_of_skip:
  "seg_free base (length bs) p n \<Longrightarrow> i < n \<Longrightarrow>
   image_of ((base, bs) # segs) (p + of_nat i) = image_of segs (p + of_nat i)"
  by (simp add: seg_free_miss)

lemma image_of_here:
  assumes "i < length bs" and "length bs \<le> 2 ^ 32"
  shows "image_of ((base, bs) # segs) (base + of_nat i) = Some (bs ! i)"
proof -
  from assms have "unat (base + of_nat i - base) = i"
    by (simp add: unat_of_nat)
  with assms(1) show ?thesis by simp
qed

lemma bytes_at_iff:
  "bytes_at m p xs \<longleftrightarrow> (\<forall>i<length xs. m (p + of_nat i) = Some (xs ! i))"
proof (induction xs arbitrary: p)
  case Nil
  show ?case by simp
next
  case (Cons x xs)
  have "(\<forall>i<length (x # xs). m (p + of_nat i) = Some ((x # xs) ! i)) \<longleftrightarrow>
      m p = Some x \<and> (\<forall>i<length xs. m (p + 1 + of_nat i) = Some (xs ! i))"
    by (auto simp: All_less_Suc2 ac_simps)
  with Cons show ?case by simp
qed

lemma mapped_iff: "mapped m p n \<longleftrightarrow> (\<forall>i<n. m (p + of_nat i) \<noteq> None)"
proof (induction n arbitrary: p)
  case 0
  show ?case by simp
next
  case (Suc n)
  have "(\<forall>i<Suc n. m (p + of_nat i) \<noteq> None) \<longleftrightarrow>
      m p \<noteq> None \<and> (\<forall>i<n. m (p + 1 + of_nat i) \<noteq> None)"
    by (auto simp: All_less_Suc2 ac_simps)
  with Suc show ?case by simp
qed

lemma bytes_at_image_skip:
  "seg_free base (length bs) p (length xs) \<Longrightarrow>
   bytes_at (image_of ((base, bs) # segs)) p xs = bytes_at (image_of segs) p xs"
  unfolding bytes_at_iff by (auto simp: image_of_skip simp del: image_of.simps)

lemma bytes_at_image_here:
  "length bs \<le> 2 ^ 32 \<Longrightarrow> bytes_at (image_of ((base, bs) # segs)) base bs"
  unfolding bytes_at_iff by (auto simp: image_of_here simp del: image_of.simps)

lemma mapped_image_skip:
  "seg_free base (length bs) p n \<Longrightarrow>
   mapped (image_of ((base, bs) # segs)) p n = mapped (image_of segs) p n"
  unfolding mapped_iff by (auto simp: image_of_skip simp del: image_of.simps)

lemma mapped_image_here:
  "n \<le> length bs \<Longrightarrow> length bs \<le> 2 ^ 32 \<Longrightarrow> mapped (image_of ((base, bs) # segs)) base n"
  unfolding mapped_iff by (auto simp: image_of_here simp del: image_of.simps)

section \<open>Writing past a string\<close>

lemma poke_skip:
  assumes "seg_free a (length bs) p n" and "i < n"
  shows "poke m a bs (p + of_nat i) = m (p + of_nat i)"
proof (rule poke_outside)
  fix j assume j: "j < length bs"
  show "a + of_nat j \<noteq> p + of_nat i"
  proof
    assume "a + of_nat j = p + of_nat i"
    then have "p + of_nat i - a = a + of_nat j - a" by simp
    then have "p + of_nat i - a = of_nat j" by simp
    moreover from j assms(1) have "j < 2 ^ 32" by (simp add: seg_free_def)
    ultimately have "unat (p + of_nat i - a) = j" by (simp add: unat_of_nat)
    with seg_free_miss [OF assms] j show False by simp
  qed
qed

lemma bytes_at_poke_skip:
  "seg_free a (length bs) p (length xs) \<Longrightarrow> bytes_at (poke m a bs) p xs = bytes_at m p xs"
  unfolding bytes_at_iff by (auto simp: poke_skip)

section \<open>A well-formed table places its strings\<close>

lemma layout_of_Cons:
  "layout_of ((str, a) # tbl) str' = (if str' = str then a else layout_of tbl str')"
  by (simp add: layout_of_def)

lemma layout_of_mem:
  assumes "str \<in> fst ` set tbl"
  shows "(str, layout_of tbl str) \<in> set tbl"
proof -
  from assms obtain a where a: "map_of tbl str = Some a"
    using map_of_eq_None_iff [of tbl str] by (cases "map_of tbl str") auto
  then have "(str, a) \<in> set tbl" by (rule map_of_SomeD)
  with a show ?thesis by (simp add: layout_of_def)
qed

lemma lits_at_table:
  "lits_at L m (map fst tbl) \<longleftrightarrow> (\<forall>str \<in> fst ` set tbl. lit_at L m str)"
  by (auto simp: lits_at_def list_all_iff)

lemma lit_at_skip:
  assumes "str' \<noteq> str" and "seg_free a (length bs) (layout_of tbl str') (Suc (length str'))"
  shows "lit_at (layout_of ((str, a) # tbl)) (image_of ((a, bs) # segs)) str' \<longleftrightarrow>
    lit_at (layout_of tbl) (image_of segs) str'"
  using assms bytes_at_image_skip [of a bs "layout_of tbl str'" "bytes_of str' @ [0]" segs]
  by (simp add: lit_at_def cstring_at_def layout_of_Cons del: image_of.simps)

lemma lit_at_here:
  assumes "0 \<notin> set (bytes_of str)" and "length str < 2 ^ 32"
  shows "lit_at (layout_of ((str, a) # tbl)) (image_of ((a, bytes_of str @ [0]) # segs)) str"
  using assms bytes_at_image_here [of "bytes_of str @ [0]" a segs]
  by (simp add: lit_at_def cstring_at_def layout_of_Cons del: image_of.simps)

lemma table_lits:
  "table_ok tbl \<Longrightarrow>
   lits_at (layout_of tbl) (image_of (segments_of tbl @ extra)) (map fst tbl)"
proof (induction tbl)
  case Nil
  show ?case by simp
next
  case (Cons e tbl)
  obtain str a where e: "e = (str, a)" by (cases e)
  let ?segs = "segments_of tbl @ extra"
  from Cons e have IH: "lits_at (layout_of tbl) (image_of ?segs) (map fst tbl)"
    and free: "list_all (\<lambda>(str', a'). seg_free a (Suc (length str)) a' (Suc (length str'))) tbl"
    and new: "str \<notin> fst ` set tbl" and ok: "0 \<notin> set (bytes_of str)" "length str < 2 ^ 32"
    by (simp_all add: table_ok_Cons)
  have "lit_at (layout_of (e # tbl)) (image_of (segments_of (e # tbl) @ extra)) str'"
    if "str' \<in> fst ` set tbl" for str'
  proof -
    from that have "(str', layout_of tbl str') \<in> set tbl" by (rule layout_of_mem)
    with free have "seg_free a (Suc (length str)) (layout_of tbl str') (Suc (length str'))"
      by (auto simp: list_all_iff)
    moreover from that new have "str' \<noteq> str" by auto
    moreover from IH that have "lit_at (layout_of tbl) (image_of ?segs) str'"
      by (auto simp: lits_at_table)
    ultimately show ?thesis
      using lit_at_skip [of str' str a "bytes_of str @ [0]" tbl ?segs]
      by (simp add: e segments_of_def)
  qed
  moreover have "lit_at (layout_of (e # tbl)) (image_of (segments_of (e # tbl) @ extra)) str"
    using lit_at_here [OF ok, of a tbl ?segs] by (simp add: e segments_of_def)
  ultimately show ?case
    by (auto simp: lits_at_table e)
qed

lemma table_poke:
  assumes "lits_at (layout_of tbl) m (map fst tbl)" and "table_free tbl sp (length bs)"
  shows "lits_at (layout_of tbl) (poke m sp bs) (map fst tbl)"
  unfolding lits_at_table
proof
  fix str assume str: "str \<in> fst ` set tbl"
  then have "(str, layout_of tbl str) \<in> set tbl" by (rule layout_of_mem)
  with assms(2) have "seg_free sp (length bs) (layout_of tbl str) (Suc (length str))"
    by (auto simp: table_free_def list_all_iff)
  moreover from assms(1) str have "lit_at (layout_of tbl) m str"
    by (auto simp: lits_at_table)
  ultimately show "lit_at (layout_of tbl) (poke m sp bs) str"
    using bytes_at_poke_skip [of sp bs "layout_of tbl str" "bytes_of str @ [0]" m]
    by (simp add: lit_at_def cstring_at_def)
qed

lemma table_image_skip:
  assumes "table_free tbl p n" and "i < n"
  shows "image_of (segments_of tbl @ extra) (p + of_nat i) = image_of extra (p + of_nat i)"
  using assms(1)
proof (induction tbl)
  case Nil
  show ?case by (simp add: segments_of_def)
next
  case (Cons e tbl)
  obtain str a where e: "e = (str, a)" by (cases e)
  from Cons.prems e have "seg_free a (length (bytes_of str @ [0])) p n" and "table_free tbl p n"
    by (simp_all add: table_free_def)
  with Cons.IH assms(2) show ?case
    using image_of_skip [of a "bytes_of str @ [0]" p n i "segments_of tbl @ extra"]
    by (simp add: e segments_of_def del: image_of.simps)
qed

lemma table_unmapped:
  "table_free tbl p 1 \<Longrightarrow> image_of extra p = None \<Longrightarrow>
   image_of (segments_of tbl @ extra) p = None"
  using table_image_skip [of tbl p 1 0 extra] by simp

lemma table_mapped:
  assumes "table_free tbl p n"
  shows "mapped (image_of (segments_of tbl @ extra)) p n = mapped (image_of extra) p n"
  using assms
proof (induction tbl)
  case Nil
  show ?case by (simp add: segments_of_def)
next
  case (Cons e tbl)
  obtain str a where e: "e = (str, a)" by (cases e)
  from Cons.prems e have "seg_free a (length (bytes_of str @ [0])) p n" and "table_free tbl p n"
    by (simp_all add: table_free_def)
  with Cons.IH show ?case
    using mapped_image_skip [of a "bytes_of str @ [0]" p n "segments_of tbl @ extra"]
    by (simp add: e segments_of_def del: image_of.simps)
qed

end
