(* ===== verification/Uart.thy ===== *)
theory Uart
  imports Machine
begin

text \<open>
  The polled UART driver shared by the three programs: \<open>uart_putc\<close> (one store
  to the data register followed by a fixed busy-wait), the string transmitter
  \<open>uart_puts_safe\<close> (called \<open>uart_puts\<close> in the greeting program), and the
  coarse \<open>delay\<close> built from the same busy-wait loop.  The lemmas give each
  operation's exact effect on the machine, the two ways a string walk can
  end (terminator or trap), and the condition under which it ends at all.
\<close>

unbundle bit_operations_syntax

section \<open>Busy-wait loops\<close>

text \<open>
  \<^verbatim>\<open>for (volatile int i = 0; i < n; i++) {}\<close> with the counter made explicit.
  The bounds used by the sources (\<open>10000\<close> to \<open>5000000\<close>) are far below
  \<open>2^31\<close>, so the C \<open>int\<close> is an unbounded \<open>int\<close> here.
\<close>

function spin_loop :: "int \<Rightarrow> int \<Rightarrow> machine \<Rightarrow> machine" where
  "spin_loop i n s = (if i < n then spin_loop (i + 1) n (tick s) else s)"
  by pat_completeness auto
termination
  by (relation "measure (\<lambda>(i, n, s). nat (n - i))") auto

declare spin_loop.simps [simp del]

text \<open>
  \<^verbatim>\<open>while (count--) { for (volatile int i = 0; i < inner; i++) {} }\<close> over an
  \<open>unsigned int\<close> count: the test reads the old value, so the body runs
  \<open>count\<close> times.
\<close>

function delay_loop :: "int \<Rightarrow> u32 \<Rightarrow> machine \<Rightarrow> machine" where
  "delay_loop inner count s =
     (if count \<noteq> 0 then delay_loop inner (count - 1) (spin_loop 0 inner s) else s)"
  by pat_completeness auto
termination
  by (relation "measure (\<lambda>(inner, count, s). unat count)")
    (auto simp: unat_minus_one unat_gt_0)

declare delay_loop.simps [simp del]

section \<open>Character and string output\<close>

definition uart_putc :: "u8 \<Rightarrow> machine \<Rightarrow> machine" where
  "uart_putc c s = spin_loop 0 10000 (write_dr (ucast c) s)"

text \<open>Transmitting a list of bytes, one \<open>uart_putc\<close> each.\<close>

definition emit :: "u8 list \<Rightarrow> machine \<Rightarrow> machine" where
  "emit bs s = fold uart_putc bs s"

text \<open>
  \<^verbatim>\<open>while (*s) { uart_putc(*s); s++; }\<close>.  Both reads of \<open>*s\<close> are kept.  The
  loop has no bound of its own: \<open>None\<close> is the run that never returns.
\<close>

partial_function (option) uart_puts_safe :: "u32 \<Rightarrow> machine \<Rightarrow> machine result option" where
  "uart_puts_safe p s =
     (case load8 p s of
        None \<Rightarrow> Some (Trap p s)
      | Some c \<Rightarrow>
          if c \<noteq> 0 then
            (case load8 p s of
               None \<Rightarrow> Some (Trap p s)
             | Some c' \<Rightarrow> uart_puts_safe (p + 1) (uart_putc c' s))
          else Some (Done s))"

section \<open>The busy-wait loops in closed form\<close>

lemma spin_loop_eq: "spin_loop i n s = s\<lparr>spins := spins s + nat (n - i)\<rparr>"
proof (induction i n s rule: spin_loop.induct)
  case (1 i n s)
  show ?case
  proof (cases "i < n")
    case True
    then have "Suc (nat (n - (i + 1))) = nat (n - i)" by simp
    with True 1 show ?thesis
      by (subst spin_loop.simps) (simp add: tick_def)
  next
    case False
    then show ?thesis by (subst spin_loop.simps) simp
  qed
qed

lemma spin_loop_fields [frame_simps, simp]:
  "uart_dr (spin_loop i n s) = uart_dr s"
  "spins (spin_loop i n s) = spins s + nat (n - i)"
  "mem (spin_loop i n s) = mem s"
  by (simp_all add: spin_loop_eq)

lemma delay_loop_eq:
  "0 \<le> inner \<Longrightarrow>
   delay_loop inner count s = s\<lparr>spins := spins s + unat count * nat inner\<rparr>"
proof (induction inner count s rule: delay_loop.induct)
  case (1 inner count s)
  show ?case
  proof (cases "count = 0")
    case True
    then show ?thesis by (subst delay_loop.simps) simp
  next
    case False
    then have "unat count = Suc (unat (count - 1))"
      by (simp add: unat_minus_one unat_gt_0)
    with False 1 show ?thesis
      by (subst delay_loop.simps) (simp add: spin_loop_eq)
  qed
qed

lemma delay_loop_fields [frame_simps]:
  "uart_dr (delay_loop inner count s) = uart_dr s"
  "mem (delay_loop inner count s) = mem s"
  by (induction inner count s rule: delay_loop.induct;
      subst delay_loop.simps; simp)+

section \<open>Effect of uart_putc and emit\<close>

lemma uart_putc_eq:
  "uart_putc c s = s\<lparr>uart_dr := uart_dr s @ [ucast c], spins := spins s + 10000\<rparr>"
  by (simp add: uart_putc_def spin_loop_eq write_dr_def)

lemma uart_putc_fields [frame_simps, simp]:
  "uart_dr (uart_putc c s) = uart_dr s @ [ucast c]"
  "spins (uart_putc c s) = spins s + 10000"
  "mem (uart_putc c s) = mem s"
  by (simp_all add: uart_putc_eq)

lemma load8_uart_putc [frame_simps, simp]: "load8 a (uart_putc c s) = load8 a s"
  by (simp add: load8_def)

lemma emit_Nil [simp]: "emit [] s = s"
  by (simp add: emit_def)

lemma emit_Cons [simp]: "emit (b # bs) s = emit bs (uart_putc b s)"
  by (simp add: emit_def)

lemma emit_append [simp]: "emit (xs @ ys) s = emit ys (emit xs s)"
  by (simp add: emit_def)

lemma emit_snoc: "uart_putc b (emit bs s) = emit (bs @ [b]) s"
  by simp

lemma emit_fields [frame_simps, simp]:
  "uart_dr (emit bs s) = uart_dr s @ map ucast bs"
  "spins (emit bs s) = spins s + 10000 * length bs"
  "mem (emit bs s) = mem s"
  by (induction bs arbitrary: s) simp_all

lemma load8_emit [frame_simps, simp]: "load8 a (emit bs s) = load8 a s"
  by (simp add: load8_def)

lemma emit_eq:
  "emit bs s = s\<lparr>uart_dr := uart_dr s @ map ucast bs, spins := spins s + 10000 * length bs\<rparr>"
  by (induction bs arbitrary: s) (simp_all add: uart_putc_eq)

lemma ucast_u8_u32_u8 [simp]: "(ucast (ucast (b :: u8) :: u32) :: u8) = b"
  by (rule ucast_up_ucast_id) (simp add: is_up)

lemma console_uart_putc [simp]: "console (uart_putc c s) = console s @ [c]"
  by (simp add: console_def)

lemma console_emit [simp]: "console (emit bs s) = console s @ bs"
  by (simp add: console_def comp_def)

lemma console_spin_loop [simp]: "console (spin_loop i n s) = console s"
  by (simp add: console_def)

lemma console_delay_loop [simp]: "console (delay_loop inner count s) = console s"
  by (simp add: console_def delay_loop_fields)

section \<open>The string transmitter, step by step\<close>

lemma uart_puts_safe_trap:
  "load8 p s = None \<Longrightarrow> uart_puts_safe p s = Some (Trap p s)"
  by (subst uart_puts_safe.simps) simp

lemma uart_puts_safe_nul:
  "load8 p s = Some 0 \<Longrightarrow> uart_puts_safe p s = Some (Done s)"
  by (subst uart_puts_safe.simps) simp

lemma uart_puts_safe_char:
  "load8 p s = Some c \<Longrightarrow> c \<noteq> 0 \<Longrightarrow>
   uart_puts_safe p s = uart_puts_safe (p + 1) (uart_putc c s)"
  by (subst uart_puts_safe.simps) simp

lemmas uart_puts_safe_steps = uart_puts_safe_trap uart_puts_safe_nul uart_puts_safe_char

text \<open>The walk over readable non-NUL bytes transmits them and goes on behind them.\<close>

lemma uart_puts_safe_bytes:
  "bytes_at (mem s) p bs \<Longrightarrow> 0 \<notin> set bs \<Longrightarrow>
   uart_puts_safe p s = uart_puts_safe (p + of_nat (length bs)) (emit bs s)"
proof (induction bs arbitrary: p s)
  case Nil
  then show ?case by simp
next
  case (Cons b bs)
  from Cons.prems have b: "load8 p s = Some b" "b \<noteq> 0"
    by (auto simp: load8_def)
  from Cons.prems have "bytes_at (mem (uart_putc b s)) (p + 1) bs" "0 \<notin> set bs"
    by simp_all
  then have "uart_puts_safe (p + 1) (uart_putc b s) =
      uart_puts_safe (p + 1 + of_nat (length bs)) (emit bs (uart_putc b s))"
    by (rule Cons.IH)
  with b show ?case
    by (simp add: uart_puts_safe_char add.assoc)
qed

lemma uart_puts_safe_cstring [run_simps]:
  assumes "cstring_at (mem s) p bs"
  shows "uart_puts_safe p s = Some (Done (emit bs s))"
proof -
  from assms have "bytes_at (mem s) p bs" "0 \<notin> set bs"
    and "load8 (p + of_nat (length bs)) (emit bs s) = Some 0"
    by (simp_all add: cstring_at_bytes cstring_at_end load8_def)
  then show ?thesis
    by (simp add: uart_puts_safe_bytes uart_puts_safe_nul)
qed

lemma uart_puts_safe_cut:
  assumes "cut_at (mem s) p bs"
  shows "uart_puts_safe p s = Some (Trap (p + of_nat (length bs)) (emit bs s))"
proof -
  from assms have "bytes_at (mem s) p bs" "0 \<notin> set bs"
    and "load8 (p + of_nat (length bs)) (emit bs s) = None"
    by (simp_all add: cut_at_def load8_def)
  then show ?thesis
    by (simp add: uart_puts_safe_bytes uart_puts_safe_trap)
qed

lemma uart_puts_safe_lit [run_simps]:
  "lit_at L (mem s) str \<Longrightarrow> uart_puts_safe (L str) s = Some (Done (emit (bytes_of str) s))"
  by (simp add: lit_at_def uart_puts_safe_cstring)

lemma andthen_puts_lit [run_simps]:
  "lit_at L (mem s) str \<Longrightarrow>
   andthen (uart_puts_safe (L str)) q s = q (emit (bytes_of str) s)"
  by (simp add: andthen_def uart_puts_safe_lit)

lemma andthen_puts_cstring:
  "cstring_at (mem s) p bs \<Longrightarrow> andthen (uart_puts_safe p) q s = q (emit bs s)"
  by (simp add: andthen_def uart_puts_safe_cstring)

lemma andthen_puts_cut:
  "cut_at (mem s) p bs \<Longrightarrow>
   andthen (uart_puts_safe p) q s = Some (Trap (p + of_nat (length bs)) (emit bs s))"
  by (simp add: andthen_def uart_puts_safe_cut)

lemma lit_at_emit [simp]: "lit_at L (mem (emit bs s)) str = lit_at L (mem s) str"
  by simp

lemma lits_at_emit [simp]: "lits_at L (mem (emit bs s)) strs = lits_at L (mem s) strs"
  by simp

section \<open>Bounded walks over a string\<close>

text \<open>
  The two dump loops of the programs walk a string with a counter and print
  some text per byte.  \<open>walk_text out i bs\<close> is what such a walk prints for
  the bytes \<open>bs\<close> when it starts with counter value \<open>i\<close>.  A loop \<open>F\<close> whose
  round on a readable non-NUL byte prints \<open>out i c\<close> and continues with the
  next counter value runs through any readable NUL-free stretch below its cap.
\<close>

fun walk_text :: "(nat \<Rightarrow> u8 \<Rightarrow> u8 list) \<Rightarrow> nat \<Rightarrow> u8 list \<Rightarrow> u8 list" where
  "walk_text out i [] = []"
| "walk_text out i (b # bs) = out i b @ walk_text out (Suc i) bs"

lemma walk_text_append:
  "walk_text out i (xs @ ys) = walk_text out i xs @ walk_text out (i + length xs) ys"
  by (induction xs arbitrary: i) simp_all

lemma bounded_walk:
  fixes F :: "int \<Rightarrow> machine prog"
  assumes round: "\<And>i c st. i < cap \<Longrightarrow> mem st = m \<Longrightarrow> m (p + of_nat i) = Some c \<Longrightarrow>
      c \<noteq> 0 \<Longrightarrow> F (int i) st = F (int (Suc i)) (emit (out i c) st)"
    and "bytes_at m (p + of_nat i) bs" and "0 \<notin> set bs"
    and "i + length bs \<le> cap" and "mem st = m"
  shows "F (int i) st = F (int (i + length bs)) (emit (walk_text out i bs) st)"
  using assms(2-)
proof (induction bs arbitrary: i st)
  case Nil
  show ?case by simp
next
  case (Cons b bs)
  let ?st = "emit (out i b) st"
  from Cons.prems have "F (int i) st = F (int (Suc i)) ?st"
    by (intro round) simp_all
  also from Cons.prems have "\<dots> = F (int (Suc i + length bs)) (emit (walk_text out (Suc i) bs) ?st)"
    by (intro Cons.IH) (simp_all add: ac_simps)
  finally show ?case by simp
qed

section \<open>When the string walk returns\<close>

lemma uart_puts_safe_needs_stop:
  assumes "uart_puts_safe p s = Some r"
  shows "\<exists>a. stops (mem s) a"
proof (rule uart_puts_safe.raw_induct [where P = "\<lambda>p s r. \<exists>a. stops (mem s) a", OF _ assms])
  fix f p s r
  assume IH: "\<And>p s r. f p s = Some r \<Longrightarrow> \<exists>a. stops (mem s) a"
    and eq: "(case load8 p s of None \<Rightarrow> Some (Trap p s)
       | Some c \<Rightarrow> if c \<noteq> 0
           then case load8 p s of None \<Rightarrow> Some (Trap p s)
             | Some c' \<Rightarrow> f (p + 1) (uart_putc c' s)
           else Some (Done s)) = Some r"
  show "\<exists>a. stops (mem s) a"
  proof (cases "stops (mem s) p")
    case True
    then show ?thesis ..
  next
    case False
    then obtain c where "load8 p s = Some c" "c \<noteq> 0"
      by (auto simp: stops_def load8_def)
    with eq have "f (p + 1) (uart_putc c s) = Some r" by simp
    then have "\<exists>a. stops (mem (uart_putc c s)) a" by (rule IH)
    then show ?thesis by simp
  qed
qed

lemma uart_puts_safe_reaches_stop:
  "stops (mem s) (p + of_nat n) \<Longrightarrow> \<exists>r. uart_puts_safe p s = Some r"
proof (induction n arbitrary: p s)
  case 0
  then show ?case
    by (auto simp: stops_def load8_def uart_puts_safe_trap uart_puts_safe_nul)
next
  case (Suc n)
  show ?case
  proof (cases "stops (mem s) p")
    case True
    then show ?thesis
      by (auto simp: stops_def load8_def uart_puts_safe_trap uart_puts_safe_nul)
  next
    case False
    then obtain c where c: "load8 p s = Some c" "c \<noteq> 0"
      by (auto simp: stops_def load8_def)
    from Suc.prems have "stops (mem (uart_putc c s)) (p + 1 + of_nat n)"
      by (simp add: add.assoc)
    then have "\<exists>r. uart_puts_safe (p + 1) (uart_putc c s) = Some r"
      by (rule Suc.IH)
    with c show ?thesis by (simp add: uart_puts_safe_char)
  qed
qed

section \<open>Every driver operation is a probe step\<close>

lemma ucast_u8_less: "(ucast (c :: u8) :: u32) < 256"
proof -
  have small: "unat c < 256" using unsigned_less [of c, where ?'a = nat] by simp
  then have "unat (ucast c :: u32) = unat c"
    by (simp add: unsigned_ucast_eq take_bit_nat_eq_self)
  with small show ?thesis by (simp add: word_less_nat_alt)
qed

lemma probe_step_uart_putc [simp, intro]: "probe_step s (uart_putc c s)"
  by (rule probe_stepI [where ws = "[ucast c]"]) (simp_all add: ucast_u8_less)

lemma probe_step_emit [simp, intro]: "probe_step s (emit bs s)"
  by (rule probe_stepI [where ws = "map ucast bs"])
    (simp_all add: list_all_iff ucast_u8_less)

lemma probe_step_spin_loop [simp, intro]: "probe_step s (spin_loop i n s)"
  by (rule probe_stepI [where ws = "[]"]) simp_all

lemma probe_step_delay_loop [simp, intro]: "probe_step s (delay_loop inner count s)"
proof (induction inner count s rule: delay_loop.induct)
  case (1 inner count s)
  show ?case
  proof (cases "count = 0")
    case True
    then show ?thesis by (subst delay_loop.simps) simp
  next
    case False
    have "probe_step s (spin_loop 0 inner s)" ..
    also from False have "probe_step \<dots> (delay_loop inner (count - 1) (spin_loop 0 inner s))"
      by (rule 1)
    finally show ?thesis using False by (subst delay_loop.simps) simp
  qed
qed

lemma probing_uart_puts_safe [simp, intro]: "probing (uart_puts_safe p)"
proof (rule probingI)
  fix s r
  assume run: "uart_puts_safe p s = Some r"
  show "probe_step s (state_of r)"
  proof (rule uart_puts_safe.raw_induct
      [where P = "\<lambda>p s r. probe_step s (state_of r)", OF _ run])
    fix f p s r
    assume IH: "\<And>p s r. f p s = Some r \<Longrightarrow> probe_step s (state_of r)"
      and eq: "(case load8 p s of None \<Rightarrow> Some (Trap p s)
         | Some c \<Rightarrow> if c \<noteq> 0
             then case load8 p s of None \<Rightarrow> Some (Trap p s)
               | Some c' \<Rightarrow> f (p + 1) (uart_putc c' s)
             else Some (Done s)) = Some r"
    show "probe_step s (state_of r)"
    proof (cases "stops (mem s) p")
      case True
      with eq show ?thesis
        by (auto simp: stops_def load8_def)
    next
      case False
      then obtain c where "load8 p s = Some c" "c \<noteq> 0"
        by (auto simp: stops_def load8_def)
      with eq have "f (p + 1) (uart_putc c s) = Some r" by simp
      then have "probe_step (uart_putc c s) (state_of r)" by (rule IH)
      with probe_step_uart_putc show ?thesis by (rule probe_step_trans)
    qed
  qed
qed

section \<open>Programs that print a fixed text\<close>

text \<open>
  \<open>prints M p bs\<close>: from every state with memory \<open>M\<close> the program \<open>p\<close>
  returns, having transmitted exactly \<open>bs\<close> and changed nothing else.
  Sequences of printing programs print the concatenation.
\<close>

definition prints :: "(u32 \<Rightarrow> u8 option) \<Rightarrow> machine prog \<Rightarrow> u8 list \<Rightarrow> bool" where
  "prints M p bs = (\<forall>s. mem s = M \<longrightarrow> p s = Some (Done (emit bs s)))"

lemma printsI: "(\<And>s. mem s = M \<Longrightarrow> p s = Some (Done (emit bs s))) \<Longrightarrow> prints M p bs"
  by (simp add: prints_def)

lemma printsD: "prints M p bs \<Longrightarrow> mem s = M \<Longrightarrow> p s = Some (Done (emit bs s))"
  by (simp add: prints_def)

lemma prints_exec: "(\<And>s. f s = emit bs s) \<Longrightarrow> prints M (exec f) bs"
  by (simp add: prints_def exec_def)

lemma prints_andthen:
  "prints M p a \<Longrightarrow> prints M q b \<Longrightarrow> prints M (andthen p q) (a @ b)"
  by (simp add: prints_def andthen_def emit_append)

lemma prints_chain_single: "prints M p a \<Longrightarrow> prints M (chain [p]) a"
  by simp

lemma prints_chain_Cons:
  "prints M p a \<Longrightarrow> prints M (chain ps) b \<Longrightarrow> prints M (chain (p # ps)) (a @ b)"
  by (simp add: prints_andthen)

lemma prints_chain_append:
  "prints M (chain ps) a \<Longrightarrow> prints M (chain qs) b \<Longrightarrow> prints M (chain (ps @ qs)) (a @ b)"
  by (simp add: chain_append prints_andthen)

lemma prints_puts_cstring: "cstring_at M p bs \<Longrightarrow> prints M (uart_puts_safe p) bs"
  by (simp add: prints_def uart_puts_safe_cstring)

lemma prints_puts_lit: "lit_at L M str \<Longrightarrow> prints M (uart_puts_safe (L str)) (bytes_of str)"
  by (simp add: prints_def uart_puts_safe_lit)

lemma prints_then: "prints M p a \<Longrightarrow> mem s = M \<Longrightarrow> andthen p q s = q (emit a s)"
  by (simp add: prints_def andthen_def)

lemma prints_chain_then:
  "prints M (chain ps) a \<Longrightarrow> mem s = M \<Longrightarrow> chain (ps @ [q]) s = q (emit a s)"
  by (simp add: chain_append prints_then)

text \<open>A transmission that returns has walked a terminated string.\<close>

lemma uart_puts_safe_Done:
  assumes "uart_puts_safe p s = Some (Done t)"
  shows "\<exists>bs. cstring_at (mem s) p bs \<and> t = emit bs s"
proof -
  have "\<forall>t. r = Done t \<longrightarrow> (\<exists>bs. cstring_at (mem s) p bs \<and> t = emit bs s)"
    if "uart_puts_safe p s = Some r" for r
  proof (rule uart_puts_safe.raw_induct [where P = "\<lambda>p s r.
      \<forall>t. r = Done t \<longrightarrow> (\<exists>bs. cstring_at (mem s) p bs \<and> t = emit bs s)", OF _ that])
    fix f p s r
    assume IH: "\<And>p s r. f p s = Some r \<Longrightarrow>
        \<forall>t. r = Done t \<longrightarrow> (\<exists>bs. cstring_at (mem s) p bs \<and> t = emit bs s)"
      and eq: "(case load8 p s of None \<Rightarrow> Some (Trap p s)
         | Some c \<Rightarrow> if c \<noteq> 0
             then case load8 p s of None \<Rightarrow> Some (Trap p s)
               | Some c' \<Rightarrow> f (p + 1) (uart_putc c' s)
             else Some (Done s)) = Some r"
    show "\<forall>t. r = Done t \<longrightarrow> (\<exists>bs. cstring_at (mem s) p bs \<and> t = emit bs s)"
    proof (intro allI impI)
      fix t assume r: "r = Done t"
      with eq obtain c where c: "load8 p s = Some c" by (cases "load8 p s") auto
      show "\<exists>bs. cstring_at (mem s) p bs \<and> t = emit bs s"
      proof (cases "c = 0")
        case True
        with eq c r have "cstring_at (mem s) p [] \<and> t = emit [] s"
          by (simp add: load8_def)
        then show ?thesis ..
      next
        case False
        with eq c r have "f (p + 1) (uart_putc c s) = Some (Done t)" by simp
        from IH [OF this] obtain bs where
          "cstring_at (mem s) (p + 1) bs" "t = emit bs (uart_putc c s)" by auto
        with c False have "cstring_at (mem s) p (c # bs) \<and> t = emit (c # bs) s"
          by (simp add: load8_def)
        then show ?thesis ..
      qed
    qed
  qed
  from this [OF assms] show ?thesis by simp
qed

text \<open>One terminator or unmapped address anywhere makes every transmission return.\<close>

lemma returns_on_uart_puts_safe: "stops M a \<Longrightarrow> returns_on M (uart_puts_safe p)"
proof (rule returns_onI)
  fix s :: machine assume "stops M a" and "mem s = M"
  then have "stops (mem s) (p + of_nat (unat (a - p)))" by simp
  then show "\<exists>r. uart_puts_safe p s = Some r" by (rule uart_puts_safe_reaches_stop)
qed

lemma lit_at_stops: "lit_at L M str \<Longrightarrow> stops M (L str + of_nat (length str))"
  using cstring_at_end [of M "L str" "bytes_of str"] by (simp add: lit_at_def stops_def)

lemma returns_on_puts_lit: "lit_at L M str \<Longrightarrow> returns_on M (uart_puts_safe p)"
  by (blast intro: returns_on_uart_puts_safe lit_at_stops)

section \<open>Properties of the driver\<close>

text \<open>
  C8 (functional, \<open>uart_putc\<close>): transmitting a character stores exactly that
  character, zero-extended, to the data register once, then spins for exactly
  10000 iterations, and changes nothing else.
\<close>

theorem uart_putc_contract:
  "uart_dr (uart_putc c s) = uart_dr s @ [ucast c] \<and>
   console (uart_putc c s) = console s @ [c] \<and>
   spins (uart_putc c s) = spins s + 10000 \<and>
   mem (uart_putc c s) = mem s"
  by simp

text \<open>
  C3 (functional, \<open>uart_puts_safe\<close>): when a NUL-terminated string \<open>bs\<close> lies
  at \<open>p\<close>, the call returns, the serial line has received exactly the bytes
  of \<open>bs\<close> in order (the terminator is not sent), one settle delay was spent
  per byte, and memory is unchanged.
\<close>

theorem uart_puts_safe_transmits:
  assumes "cstring_at (mem s) p bs"
  shows "uart_puts_safe p s =
    Some (Done (s\<lparr>uart_dr := uart_dr s @ map ucast bs,
                   spins := spins s + 10000 * length bs\<rparr>))"
  using assms by (simp add: uart_puts_safe_cstring emit_eq)

theorem uart_puts_safe_transmits_witness:
  "cstring_at (mem (boot [(0x40000000, [72, 105, 0])])) 0x40000000 [72, 105] \<and>
   uart_puts_safe 0x40000000 (boot [(0x40000000, [72, 105, 0])]) =
     Some (Done \<lparr>uart_dr = [72, 105], spins = 20000,
                 mem = image_of [(0x40000000, [72, 105, 0])]\<rparr>)"
proof -
  have h: "cstring_at (mem (boot [(0x40000000, [72, 105, 0])])) 0x40000000 [72, 105]"
    by simp
  from uart_puts_safe_transmits [OF h] h show ?thesis
    by (simp add: boot_def)
qed

text \<open>
  C4 (error, \<open>uart_puts_safe\<close>): when the readable, NUL-free bytes \<open>bs\<close> at
  \<open>p\<close> are followed by an unmapped address, the run traps at that address
  after having sent exactly \<open>bs\<close>: the trace stops in the middle of the
  string and nothing is sent after the fault.
\<close>

theorem uart_puts_safe_traps:
  assumes "cut_at (mem s) p bs"
  shows "uart_puts_safe p s =
    Some (Trap (p + of_nat (length bs))
      (s\<lparr>uart_dr := uart_dr s @ map ucast bs,
         spins := spins s + 10000 * length bs\<rparr>))"
  using assms by (simp add: uart_puts_safe_cut emit_eq)

theorem uart_puts_safe_traps_witness:
  "cut_at (mem (boot [(0x40000FFE, [72, 105])])) 0x40000FFE [72, 105] \<and>
   uart_puts_safe 0x40000FFE (boot [(0x40000FFE, [72, 105])]) =
     Some (Trap 0x40001000 \<lparr>uart_dr = [72, 105], spins = 20000,
                 mem = image_of [(0x40000FFE, [72, 105])]\<rparr>)"
proof -
  have h: "cut_at (mem (boot [(0x40000FFE, [72, 105])])) 0x40000FFE [72, 105]"
    by simp
  from uart_puts_safe_traps [OF h] h show ?thesis
    by (simp add: boot_def)
qed

text \<open>
  C12 (termination, \<open>uart_puts_safe\<close>): the unbounded walk returns (normally
  or by a trap) exactly when some address of the 32-bit space holds a NUL
  byte or is unmapped; on a memory that is mapped everywhere and holds no
  NUL the call never returns, whatever the start address.
\<close>

theorem uart_puts_safe_returns:
  "(\<exists>r. uart_puts_safe p s = Some r) = (\<exists>a. stops (mem s) a)"
proof
  assume "\<exists>r. uart_puts_safe p s = Some r"
  then show "\<exists>a. stops (mem s) a"
    by (auto dest: uart_puts_safe_needs_stop)
next
  assume "\<exists>a. stops (mem s) a"
  then obtain a where "stops (mem s) a" ..
  then have "stops (mem s) (p + of_nat (unat (a - p)))" by simp
  then show "\<exists>r. uart_puts_safe p s = Some r"
    by (rule uart_puts_safe_reaches_stop)
qed

text \<open>
  C38 (bounds, \<open>delay_loop\<close>): the delay runs its inner busy-wait exactly
  \<open>count\<close> times, for every 32-bit count, and touches neither the serial
  line nor memory; with the constants of the debug program
  (\<open>delay(1000)\<close>, inner bound 100000) that is \<open>10^8\<close> iterations.
\<close>

theorem delay_loop_contract:
  assumes "0 \<le> inner"
  shows "delay_loop inner count s = s\<lparr>spins := spins s + unat count * nat inner\<rparr>"
  using assms by (rule delay_loop_eq)

theorem delay_loop_contract_witness:
  "(0::int) \<le> 100000 \<and>
   delay_loop 100000 1000 (boot []) = \<lparr>uart_dr = [], spins = 100000000, mem = image_of []\<rparr>"
  using delay_loop_contract [of 100000 1000 "boot []"] by (simp add: boot_def)

end
