(* ===== verification/Formatter.thy ===== *)
theory Formatter
  imports Uart
begin

text \<open>
  The text formatter: hexadecimal rendering of a 32-bit address (the loop that
  stands in \<open>uart_puts_debug\<close> and in \<open>print_hex_addr\<close>) and the decimal offset
  labels of the two walks in \<^verbatim>\<open>minimal_main_test_boundaries.c\<close>.  Each routine
  is modelled as the code computes it, shown equal to a closed form, and the
  hexadecimal rendering is shown to read back to the address it was given.
\<close>

unbundle bit_operations_syntax

section \<open>Hexadecimal\<close>

text \<open>\<^verbatim>\<open>char hex = ((addr >> i) & 0xF);\<close>\<close>

definition nibble :: "u32 \<Rightarrow> int \<Rightarrow> u8" where
  "nibble addr i = ucast (drop_bit (nat i) addr AND 0xF)"

text \<open>\<^verbatim>\<open>hex < 10 ? '0' + hex : 'A' + hex - 10\<close>, converted to \<open>char\<close> by the call.\<close>

definition hex_digit :: "u8 \<Rightarrow> u8" where
  "hex_digit hex = (if hex < 10 then 48 + hex else 65 + hex - 10)"

text \<open>\<^verbatim>\<open>for (int i = 28; i >= 0; i -= 4) { ...; uart_putc(...); }\<close> from \<open>i\<close> on.\<close>

function hex_loop :: "u32 \<Rightarrow> int \<Rightarrow> machine \<Rightarrow> machine" where
  "hex_loop addr i s =
     (if 0 \<le> i then hex_loop addr (i - 4) (uart_putc (hex_digit (nibble addr i)) s)
      else s)"
  by pat_completeness auto
termination
  by (relation "measure (\<lambda>(addr, i, s). nat (i + 4))") auto

declare hex_loop.simps [simp del]

definition print_hex_addr :: "layout \<Rightarrow> u32 \<Rightarrow> machine prog" where
  "print_hex_addr L addr = andthen (uart_puts_safe (L ''0x'')) (exec (hex_loop addr 28))"

text \<open>
  Closed form: the \<open>n\<close> low nibbles of the address as digits, the most
  significant first.
\<close>

definition hex_digits :: "u32 \<Rightarrow> nat \<Rightarrow> u8 list" where
  "hex_digits addr n = map (\<lambda>k. hex_digit (nibble addr (4 * int k))) (rev [0..<n])"

definition hex8 :: "u32 \<Rightarrow> u8 list" where
  "hex8 addr = hex_digits addr 8"

text \<open>
  Reference rendering, from the number alone: digit \<open>k\<close> of the base-16
  expansion, looked up in the digit alphabet.
\<close>

definition hex_alphabet :: "u8 list" where
  "hex_alphabet = bytes_of ''0123456789ABCDEF''"

definition hex_spec :: "nat \<Rightarrow> nat \<Rightarrow> u8 list" where
  "hex_spec v n = map (\<lambda>k. hex_alphabet ! (v div 16 ^ k mod 16)) (rev [0..<n])"

text \<open>Reading hexadecimal text back; \<open>None\<close> for a byte that is no digit.\<close>

definition hex_value :: "u8 \<Rightarrow> nat option" where
  "hex_value c =
     (if 48 \<le> c \<and> c \<le> 57 then Some (unat c - 48)
      else if 65 \<le> c \<and> c \<le> 70 then Some (unat c - 55)
      else None)"

fun parse_hex :: "nat \<Rightarrow> u8 list \<Rightarrow> nat option" where
  "parse_hex acc [] = Some acc"
| "parse_hex acc (c # cs) =
     (case hex_value c of None \<Rightarrow> None | Some d \<Rightarrow> parse_hex (16 * acc + d) cs)"

section \<open>Decimal offset labels\<close>

text \<open>
  The label of the byte-by-byte analysis (\<open>test_4kb_boundary_crossing\<close>):
  \<^verbatim>\<open>if (i < 10) uart_putc('0'); if (i < 100) uart_putc('0' + (i/10));
  uart_putc('0' + (i%10));\<close>  C division truncates, hence \<open>sdiv\<close> and \<open>smod\<close>.
\<close>

definition put_offset_4kb :: "int \<Rightarrow> machine \<Rightarrow> machine" where
  "put_offset_4kb i s =
     (let s1 = (if i < 10 then uart_putc 48 s else s);
          s2 = (if i < 100 then uart_putc (48 + word_of_int (i sdiv 10)) s1 else s1)
      in uart_putc (48 + word_of_int (i smod 10)) s2)"

text \<open>
  The label of the frame probe (\<open>test_capdl_frame_pattern\<close>):
  \<^verbatim>\<open>if (offset < 10) uart_putc('0'); uart_putc('0' + (offset/10));
  uart_putc('0' + (offset%10));\<close>
\<close>

definition put_offset_capdl :: "int \<Rightarrow> machine \<Rightarrow> machine" where
  "put_offset_capdl offset s =
     (let s1 = (if offset < 10 then uart_putc 48 s else s);
          s2 = uart_putc (48 + word_of_int (offset sdiv 10)) s1
      in uart_putc (48 + word_of_int (offset smod 10)) s2)"

text \<open>Closed forms of the two labels as byte lists.\<close>

definition offset_4kb :: "int \<Rightarrow> u8 list" where
  "offset_4kb i =
     (if i < 10 then [48] else []) @
     (if i < 100 then [48 + word_of_int (i sdiv 10)] else []) @
     [48 + word_of_int (i smod 10)]"

definition offset_capdl :: "int \<Rightarrow> u8 list" where
  "offset_capdl i =
     (if i < 10 then [48] else []) @
     [48 + word_of_int (i sdiv 10), 48 + word_of_int (i smod 10)]"

text \<open>What the specification asks of a label: three decimal digits, zero-padded.\<close>

definition dec3 :: "nat \<Rightarrow> u8 list" where
  "dec3 n = map (\<lambda>d. 48 + of_nat d) [n div 100 mod 10, n div 10 mod 10, n mod 10]"

section \<open>The hexadecimal loop in closed form\<close>

lemma hex_digits_0 [simp]: "hex_digits addr 0 = []"
  by (simp add: hex_digits_def)

lemma hex_digits_Suc:
  "hex_digits addr (Suc n) = hex_digit (nibble addr (4 * int n)) # hex_digits addr n"
  by (simp add: hex_digits_def)

lemma length_hex_digits [simp]: "length (hex_digits addr n) = n"
  by (simp add: hex_digits_def)

lemma hex_loop_eq_emit: "hex_loop addr (4 * int n - 4) s = emit (hex_digits addr n) s"
proof (induction n arbitrary: s)
  case 0
  show ?case by (subst hex_loop.simps) simp
next
  case (Suc n)
  have "hex_loop addr (4 * int (Suc n) - 4) s =
      hex_loop addr (4 * int n - 4) (uart_putc (hex_digit (nibble addr (4 * int n))) s)"
    by (subst hex_loop.simps) simp
  with Suc show ?case by (simp add: hex_digits_Suc)
qed

lemma hex_loop_28 [run_simps]: "hex_loop addr 28 s = emit (hex8 addr) s"
  using hex_loop_eq_emit [of addr 8 s] by (simp add: hex8_def)

lemma length_hex8 [simp]: "length (hex8 addr) = 8"
  by (simp add: hex8_def)

lemma print_hex_addr_lit [run_simps]:
  "lit_at L (mem s) ''0x'' \<Longrightarrow>
   print_hex_addr L addr s = Some (Done (emit (bytes_of ''0x'' @ hex8 addr) s))"
  by (simp add: print_hex_addr_def andthen_puts_lit exec_apply hex_loop_28)

lemma probing_print_hex_addr [simp, intro]: "probing (print_hex_addr L addr)"
  unfolding print_hex_addr_def
  by (intro probing_andthen probing_exec probing_uart_puts_safe)
    (simp add: hex_loop_eq_emit [of addr 8, simplified])

section \<open>Nibbles and digits as numbers\<close>

lemma and_15_eq: "(w :: u32) AND 0xF = take_bit 4 w"
  by (simp add: take_bit_eq_mask mask_eq_exp_minus_1)

lemma unat_nibble: "unat (nibble addr i) = unat addr div 2 ^ nat i mod 16"
proof -
  have "unat (take_bit 4 (drop_bit (nat i) addr)) = take_bit 4 (drop_bit (nat i) (unat addr))"
    by (simp add: unsigned_take_bit_eq unat_drop_bit_eq)
  also have "\<dots> = unat addr div 2 ^ nat i mod 16"
    by (simp add: take_bit_eq_mod drop_bit_eq_div)
  finally have "unat (take_bit 4 (drop_bit (nat i) addr)) = unat addr div 2 ^ nat i mod 16" .
  moreover have "unat addr div 2 ^ nat i mod 16 < 256"
    by (rule less_trans [of _ 16]) simp_all
  ultimately show ?thesis
    by (simp add: nibble_def and_15_eq unsigned_ucast_eq take_bit_eq_mod)
qed

lemma nibble_less_16: "nibble addr i < 16"
proof -
  have "unat (nibble addr i) < 16" by (simp add: unat_nibble)
  then show ?thesis by (simp add: word_less_nat_alt)
qed

lemma unat_nibble_16: "unat (nibble addr (4 * int k)) = unat addr div 16 ^ k mod 16"
proof -
  have "(2::nat) ^ (4 * k) = 16 ^ k"
    by (simp add: power_mult)
  then show ?thesis by (simp add: unat_nibble nat_mult_distrib)
qed

lemma unat_hex_digit:
  assumes "h < 16"
  shows "unat (hex_digit h) = (if unat h < 10 then 48 + unat h else 55 + unat h)"
proof -
  from assms have h: "unat h < 16" by (simp add: word_less_nat_alt)
  show ?thesis
  proof (cases "h < 10")
    case True
    with h show ?thesis
      by (simp add: hex_digit_def word_less_nat_alt unat_word_ariths)
  next
    case False
    then have "10 \<le> unat h" by (simp add: word_less_nat_alt)
    moreover have "hex_digit h = 55 + h" using False by (simp add: hex_digit_def)
    ultimately show ?thesis using h False
      by (simp add: word_less_nat_alt unat_word_ariths)
  qed
qed

lemma hex_value_hex_digit:
  assumes "h < 16"
  shows "hex_value (hex_digit h) = Some (unat h)"
proof -
  from assms have h: "unat h < 16" by (simp add: word_less_nat_alt)
  note u = unat_hex_digit [OF assms]
  show ?thesis
  proof (cases "unat h < 10")
    case True
    with u h show ?thesis
      by (simp add: hex_value_def word_le_nat_alt)
  next
    case False
    with u h show ?thesis
      by (simp add: hex_value_def word_le_nat_alt)
  qed
qed

lemma hex_alphabet_nat:
  "\<forall>n<16. hex_alphabet ! n = (if n < 10 then 48 + of_nat n else 55 + of_nat n)"
  by (simp add: hex_alphabet_def eval_nat_numeral All_less_Suc)

lemma hex_alphabet_nth:
  assumes "h < 16"
  shows "hex_alphabet ! unat h = hex_digit h"
proof -
  from assms have "unat h < 16" by (simp add: word_less_nat_alt)
  with hex_alphabet_nat
  have "hex_alphabet ! unat h = (if unat h < 10 then 48 + h else 55 + h)"
    by simp
  then show ?thesis
    by (simp add: hex_digit_def word_less_nat_alt)
qed

lemma hex_digits_spec: "hex_digits addr n = hex_spec (unat addr) n"
proof -
  have "hex_digit (nibble addr (4 * int k)) = hex_alphabet ! (unat addr div 16 ^ k mod 16)" for k
    using hex_alphabet_nth [OF nibble_less_16, of addr "4 * int k"]
    by (simp add: unat_nibble_16)
  then show ?thesis by (simp add: hex_digits_def hex_spec_def)
qed

lemma parse_hex_digits:
  "parse_hex acc (hex_digits addr n) = Some (acc * 16 ^ n + unat addr mod 16 ^ n)"
proof (induction n arbitrary: acc)
  case 0
  show ?case by simp
next
  case (Suc n)
  let ?d = "unat addr div 16 ^ n mod 16"
  have "hex_value (hex_digit (nibble addr (4 * int n))) = Some ?d"
    by (simp add: hex_value_hex_digit nibble_less_16 unat_nibble_16)
  then have "parse_hex acc (hex_digits addr (Suc n)) =
      Some ((16 * acc + ?d) * 16 ^ n + unat addr mod 16 ^ n)"
    by (simp add: hex_digits_Suc Suc.IH)
  moreover have "unat addr mod 16 ^ Suc n = 16 ^ n * ?d + unat addr mod 16 ^ n"
    using mod_mult2_eq [of "unat addr" "16 ^ n" 16] by (simp add: mult.commute)
  ultimately show ?case by (simp add: algebra_simps)
qed

section \<open>The offset labels in closed form\<close>

lemma put_offset_4kb_emit [run_simps]: "put_offset_4kb i s = emit (offset_4kb i) s"
  by (simp add: put_offset_4kb_def offset_4kb_def Let_def)

lemma put_offset_capdl_emit [run_simps]: "put_offset_capdl i s = emit (offset_capdl i) s"
  by (simp add: put_offset_capdl_def offset_capdl_def Let_def)

lemma sdiv_smod_nonneg:
  "0 \<le> i \<Longrightarrow> i sdiv 10 = i div 10" "0 \<le> i \<Longrightarrow> i smod 10 = i mod 10"
  for i :: int
  by (simp_all add: sdiv_nonneg smod_nonneg)

lemma dec3_int:
  assumes "0 \<le> i"
  shows "dec3 (nat i) = [48 + word_of_int (i div 100 mod 10),
    48 + word_of_int (i div 10 mod 10), 48 + word_of_int (i mod 10)]"
proof -
  from assms obtain n where i: "i = int n" by (rule nonneg_int_cases)
  have "(word_of_int (int k) :: u8) = word_of_nat k" for k by simp
  from this [of "n div 100 mod 10"] this [of "n div 10 mod 10"] this [of "n mod 10"]
  show ?thesis
    unfolding i dec3_def by (simp add: zdiv_int zmod_int)
qed

section \<open>Properties of the formatter\<close>

text \<open>
  C7 (roundtrip, hexadecimal loop): the eight characters the loop sends for
  an address read back, as hexadecimal text, to exactly that address; so two
  different addresses never print alike and no digit is lost or misplaced.
\<close>

theorem hex_loop_roundtrip:
  "hex_loop addr 28 s = emit (hex8 addr) s \<and>
   length (hex8 addr) = 8 \<and>
   parse_hex 0 (hex8 addr) = Some (unat addr)"
proof -
  have "unat addr < 16 ^ 8"
    using unsigned_less [of addr, where 'a = nat] by simp
  then show ?thesis
    by (simp add: hex_loop_28 hex8_def parse_hex_digits)
qed

text \<open>
  C26 (refinement, hexadecimal loop): the shift-and-mask loop implements the
  reference rendering: character \<open>k\<close> from the right is the digit
  \<open>addr div 16^k mod 16\<close> taken from the alphabet \<open>0123456789ABCDEF\<close>
  (upper case, most significant digit first, always eight digits); for
  \<open>0xDEADBEEF\<close> that is the text \<open>DEADBEEF\<close>.
\<close>

theorem hex8_refines_spec:
  "hex8 addr = hex_spec (unat addr) 8 \<and> hex8 0xDEADBEEF = bytes_of ''DEADBEEF''"
proof
  show "hex8 addr = hex_spec (unat addr) 8"
    by (simp add: hex8_def hex_digits_spec)
  show "hex8 0xDEADBEEF = bytes_of ''DEADBEEF''"
    by (simp add: hex8_def hex_digits_def nibble_def hex_digit_def upt_rec)
qed

text \<open>
  C27 (functional, \<open>print_hex_addr\<close>): with the literal \<open>0x\<close> in place, the
  call returns after sending \<open>0x\<close> and the eight hexadecimal digits of the
  address, ten characters in all.
\<close>

theorem print_hex_addr_output:
  assumes "lit_at L (mem s) ''0x''"
  shows "print_hex_addr L addr s = Some (Done (emit (bytes_of ''0x'' @ hex8 addr) s)) \<and>
    length (bytes_of ''0x'' @ hex8 addr) = 10"
  using assms by (simp add: print_hex_addr_lit)

theorem print_hex_addr_output_witness:
  "lit_at (\<lambda>str. 0x1000) (mem (boot [(0x1000, [48, 120, 0])])) ''0x'' \<and>
   map_option (console \<circ> state_of)
     (print_hex_addr (\<lambda>str. 0x1000) 0x40001000 (boot [(0x1000, [48, 120, 0])])) =
     Some (bytes_of ''0x40001000'')"
proof -
  have h: "lit_at (\<lambda>str. 0x1000) (mem (boot [(0x1000, [48, 120, 0])])) ''0x''"
    by (simp add: lit_at_def)
  from print_hex_addr_output [where addr = "0x40001000", OF h] h show ?thesis
    by (simp add: hex8_def hex_digits_def nibble_def hex_digit_def upt_rec)
qed

text \<open>
  C28 (functional, offset labels): the label code of the byte-by-byte analysis
  sends three zero-padded digits only for offsets below 10; from 10 to 99 it
  sends two digits, and from 100 on a single digit (the last one).  The
  specification's three-digit rendering (\<open>042\<close> for 42, \<open>128\<close> for 128) is
  therefore met for one-digit offsets only: 42 is printed as \<open>42\<close> and 128
  as \<open>8\<close>.
\<close>

theorem put_offset_4kb_width:
  "put_offset_4kb i s = emit (offset_4kb i) s \<and>
   (if 0 \<le> i \<and> i < 10 then offset_4kb i = dec3 (nat i)
    else if 10 \<le> i \<and> i < 100 then offset_4kb i = drop 1 (dec3 (nat i))
    else if 100 \<le> i then offset_4kb i = drop 2 (dec3 (nat i))
    else True) \<and>
   offset_4kb 5 = bytes_of ''005'' \<and>
   offset_4kb 42 = bytes_of ''42'' \<and>
   offset_4kb 128 = bytes_of ''8''"
proof -
  have "offset_4kb i = dec3 (nat i)" if "0 \<le> i" "i < 10"
    using that by (simp add: offset_4kb_def dec3_int sdiv_smod_nonneg)
  moreover have "offset_4kb i = drop 1 (dec3 (nat i))" if "10 \<le> i" "i < 100"
    using that by (simp add: offset_4kb_def dec3_int sdiv_smod_nonneg)
  moreover have "offset_4kb i = drop 2 (dec3 (nat i))" if "100 \<le> i"
    using that by (simp add: offset_4kb_def dec3_int sdiv_smod_nonneg)
  moreover have "offset_4kb 5 = bytes_of ''005''" "offset_4kb 42 = bytes_of ''42''"
    "offset_4kb 128 = bytes_of ''8''"
    by (simp_all add: offset_4kb_def)
  ultimately show ?thesis
    by (simp add: put_offset_4kb_emit)
qed

end
