(* ===== verification/Probe.thy ===== *)
theory Probe
  imports Formatter
begin

text \<open>
  The boundary probe engine.  This theory holds the bounded string dump
  \<open>uart_puts_debug\<close> of \<^verbatim>\<open>minimal_main_debug.c\<close>: the header with the string's
  address, the walk over at most 32 bytes with a marker after every fourth
  byte, and the closing bracket.  The walk is modelled read by read (the
  source evaluates \<open>s[i]\<close> three times per round), and its result is
  characterised for the three ways it can end: at the terminator, at the cap
  of 32 bytes, and in a trap.  One equation covers all three: on every
  memory the dump is a function of the scan of its argument
  (\<open>uart_puts_debug_scan\<close>), from which the bound on its output follows.
\<close>

unbundle bit_operations_syntax

section \<open>The bounded string dump\<close>

text \<open>
  \<^verbatim>\<open>while (i < 32 && s[i] != '\0') { uart_putc(s[i]); if (s[i] == '\0') break;
  i++; if (i % 4 == 0) { uart_puts_safe("|"); } }\<close> from counter value \<open>i\<close> on.
\<close>

function debug_loop :: "layout \<Rightarrow> u32 \<Rightarrow> int \<Rightarrow> machine prog" where
  "debug_loop L s i st =
     (if i < 32 then
        read_byte (s + word_of_int i) (\<lambda>c.
          if c \<noteq> 0 then
            read_byte (s + word_of_int i) (\<lambda>c1.
              andthen (exec (uart_putc c1))
                (read_byte (s + word_of_int i) (\<lambda>c2.
                   if c2 = 0 then exec id
                   else andthen
                     (if (i + 1) smod 4 = 0 then uart_puts_safe (L ''|'') else exec id)
                     (\<lambda>st2. debug_loop L s (i + 1) st2))))
          else exec id)
      else exec id) st"
  by pat_completeness auto
termination
  by (relation "measure (\<lambda>(L, s, i, st). nat (32 - i))") auto

declare debug_loop.simps [simp del]

definition uart_puts_debug :: "layout \<Rightarrow> u32 \<Rightarrow> machine prog" where
  "uart_puts_debug L s =
     chain [uart_puts_safe (L ''DEBUG: String addr=0x''),
            exec (hex_loop s 28),
            uart_puts_safe (L '' content=[''),
            debug_loop L s 0,
            uart_puts_safe (L '']\<newline>'')]"

text \<open>The literals \<open>uart_puts_debug\<close> reads.\<close>

definition debug_lits :: "string list" where
  "debug_lits = [''DEBUG: String addr=0x'', '' content=['', ''|'', '']\<newline>'']"

section \<open>What the dump prints\<close>

text \<open>
  \<open>mark4 i bs\<close>: the bytes \<open>bs\<close>, read from counter value \<open>i\<close> on, with the
  marker \<open>|\<close> after each byte that makes the count a multiple of four.
\<close>

fun mark4 :: "nat \<Rightarrow> u8 list \<Rightarrow> u8 list" where
  "mark4 i [] = []"
| "mark4 i (b # bs) =
     b # (if Suc i mod 4 = 0 then 124 # mark4 (Suc i) bs else mark4 (Suc i) bs)"

text \<open>The whole line for a string at address \<open>s\<close> whose dumped bytes are \<open>bs\<close>.\<close>

definition debug_head :: "u32 \<Rightarrow> u8 list \<Rightarrow> u8 list" where
  "debug_head s bs =
     bytes_of ''DEBUG: String addr=0x'' @ hex8 s @ bytes_of '' content=['' @ mark4 0 bs"

definition debug_line :: "u32 \<Rightarrow> u8 list \<Rightarrow> u8 list" where
  "debug_line s bs = debug_head s bs @ bytes_of '']\<newline>''"

section \<open>Facts about the marker insertion\<close>

lemma length_mark4_from:
  "length (mark4 i bs) + i div 4 = length bs + (i + length bs) div 4"
proof (induction bs arbitrary: i)
  case Nil
  show ?case by simp
next
  case (Cons b bs)
  have "Suc i div 4 = (if Suc i mod 4 = 0 then Suc (i div 4) else i div 4)"
    by (simp add: div_Suc)
  with Cons.IH [of "Suc i"] show ?case
    by (simp split: if_splits)
qed

lemma length_mark4: "length (mark4 0 bs) = length bs + length bs div 4"
  using length_mark4_from [of 0 bs] by simp

lemma mark4_walk: "walk_text (\<lambda>i c. mark4 i [c]) i bs = mark4 i bs"
  by (induction bs arbitrary: i) simp_all

lemma mark4_append:"mark4 i (xs @ ys) = mark4 i xs @ mark4 (i + length xs) ys"
  by (induction xs arbitrary: i) simp_all

lemma filter_mark4: "124 \<notin> set bs \<Longrightarrow> filter (\<lambda>b. b \<noteq> 124) (mark4 i bs) = bs"
  by (induction bs arbitrary: i) simp_all

lemma mark4_short: "i mod 4 + length bs < 4 \<Longrightarrow> mark4 i bs = bs"
proof (induction bs arbitrary: i)
  case Nil
  show ?case by simp
next
  case (Cons b bs)
  from Cons.prems have "Suc i mod 4 = Suc (i mod 4)"
    by (simp add: mod_Suc)
  with Cons.prems show ?case by (simp add: Cons.IH)
qed

section \<open>The walk, round by round\<close>

lemma debug_loop_cap: "32 \<le> i \<Longrightarrow> debug_loop L s i st = Some (Done st)"
  by (subst debug_loop.simps) (simp add: exec_apply)

lemma debug_loop_nul:
  "load8 (s + word_of_int i) st = Some 0 \<Longrightarrow> debug_loop L s i st = Some (Done st)"
  by (subst debug_loop.simps) (simp add: read_byte_Some exec_apply)

lemma debug_loop_trap:
  "i < 32 \<Longrightarrow> load8 (s + word_of_int i) st = None \<Longrightarrow>
   debug_loop L s i st = Some (Trap (s + word_of_int i) st)"
  by (subst debug_loop.simps) (simp add: read_byte_None)

lemma debug_loop_char:
  assumes "i < 32" and "load8 (s + word_of_int i) st = Some c" and "c \<noteq> 0"
  shows "debug_loop L s i st =
    andthen (if (i + 1) smod 4 = 0 then uart_puts_safe (L ''|'') else exec id)
      (debug_loop L s (i + 1)) (uart_putc c st)"
  using assms by (subst debug_loop.simps) (simp add: read_byte_Some)

lemma debug_loop_round:
  assumes "i < 32" and "load8 (s + of_nat i) st = Some c" and "c \<noteq> 0"
    and "lit_at L (mem st) ''|''"
  shows "debug_loop L s (int i) st = debug_loop L s (int (Suc i)) (emit (mark4 i [c]) st)"
proof -
  have lit: "lit_at L (mem (uart_putc c st)) ''|''"
    using assms(4) by simp
  have "debug_loop L s (int i) st =
      andthen (if (int i + 1) smod 4 = 0 then uart_puts_safe (L ''|'') else exec id)
        (debug_loop L s (int i + 1)) (uart_putc c st)"
    using assms(1-3) by (intro debug_loop_char) simp_all
  moreover have "(int i + 1) smod 4 = 0 \<longleftrightarrow> Suc i mod 4 = 0"
    using smod_int_nat [of 4 "Suc i"] by (simp add: add.commute)
  ultimately show ?thesis
    using lit by (simp add: andthen_puts_lit add.commute)
qed

lemma debug_loop_bytes:
  assumes "bytes_at (mem st) (s + of_nat i) bs" and "0 \<notin> set bs"
    and "i + length bs \<le> 32" and "lit_at L (mem st) ''|''"
  shows "debug_loop L s (int i) st =
    debug_loop L s (int (i + length bs)) (emit (mark4 i bs) st)"
proof -
  have "debug_loop L s (int i) st =
      debug_loop L s (int (i + length bs)) (emit (walk_text (\<lambda>i c. mark4 i [c]) i bs) st)"
  proof (rule bounded_walk [where F = "debug_loop L s" and out = "\<lambda>i c. mark4 i [c]"
        and cap = 32 and m = "mem st" and p = s])
    show "debug_loop L s (int j) t = debug_loop L s (int (Suc j)) (emit (mark4 j [c]) t)"
      if "j < 32" "mem t = mem st" "mem st (s + of_nat j) = Some c" "c \<noteq> 0" for j c t
      using that assms(4) by (intro debug_loop_round) (simp_all add: load8_def)
  qed (use assms in simp_all)
  then show ?thesis by (simp only: mark4_walk)
qed

section \<open>The three ways the walk ends\<close>

lemma debug_loop_cstring:
  assumes "cstring_at (mem st) s bs" and "length bs < 32" and "lit_at L (mem st) ''|''"
  shows "debug_loop L s 0 st = Some (Done (emit (mark4 0 bs) st))"
proof -
  from assms have "debug_loop L s (int 0) st =
      debug_loop L s (int (0 + length bs)) (emit (mark4 0 bs) st)"
    by (intro debug_loop_bytes) (simp_all add: cstring_at_bytes)
  moreover from assms(1)
  have "load8 (s + word_of_int (int (length bs))) (emit (mark4 0 bs) st) = Some 0"
    by (simp add: cstring_at_end load8_def)
  ultimately show ?thesis by (simp add: debug_loop_nul)
qed

lemma debug_loop_long:
  assumes "bytes_at (mem st) s bs" and "0 \<notin> set bs" and "length bs = 32"
    and "lit_at L (mem st) ''|''"
  shows "debug_loop L s 0 st = Some (Done (emit (mark4 0 bs) st))"
proof -
  from assms have "debug_loop L s (int 0) st =
      debug_loop L s (int (0 + length bs)) (emit (mark4 0 bs) st)"
    by (intro debug_loop_bytes) simp_all
  with assms(3) show ?thesis by (simp add: debug_loop_cap)
qed

lemma debug_loop_cut:
  assumes "cut_at (mem st) s bs" and "length bs < 32" and "lit_at L (mem st) ''|''"
  shows "debug_loop L s 0 st =
    Some (Trap (s + of_nat (length bs)) (emit (mark4 0 bs) st))"
proof -
  from assms have "debug_loop L s (int 0) st =
      debug_loop L s (int (0 + length bs)) (emit (mark4 0 bs) st)"
    by (intro debug_loop_bytes) (simp_all add: cut_at_def)
  moreover from assms(1)
  have "load8 (s + word_of_int (int (length bs))) (emit (mark4 0 bs) st) = None"
    by (simp add: cut_at_def load8_def)
  ultimately show ?thesis using assms(2) by (simp add: debug_loop_trap)
qed

text \<open>
  A terminated string of any length: the dump shows its first 32 bytes, all
  of it when it is shorter.
\<close>

lemma debug_loop_take:
  assumes "cstring_at (mem st) s bs" and "lit_at L (mem st) ''|''"
  shows "debug_loop L s 0 st = Some (Done (emit (mark4 0 (take 32 bs)) st))"
proof (cases "length bs < 32")
  case True
  with assms show ?thesis by (simp add: debug_loop_cstring)
next
  case False
  from assms(1) have "bytes_at (mem st) s (take 32 bs)" "0 \<notin> set (take 32 bs)"
    by (auto simp: bytes_at_take dest: cstring_at_bytes in_set_takeD)
  moreover from False have "length (take 32 bs) = 32" by simp
  ultimately show ?thesis using assms(2) by (rule debug_loop_long)
qed

section \<open>The whole dump\<close>

lemma uart_puts_debug_head:
  assumes "lits_at L (mem st) debug_lits"
  shows "uart_puts_debug L s st =
    andthen (debug_loop L s 0) (uart_puts_safe (L '']\<newline>'')) (emit (debug_head s []) st)"
  using assms
  by (simp add: uart_puts_debug_def debug_lits_def debug_head_def andthen_puts_lit hex_loop_28)

lemma uart_puts_debug_cstring:
  assumes "lits_at L (mem st) debug_lits" and "cstring_at (mem st) s bs"
  shows "uart_puts_debug L s st = Some (Done (emit (debug_line s (take 32 bs)) st))"
proof -
  let ?st = "emit (debug_head s []) st"
  from assms have "debug_loop L s 0 ?st = Some (Done (emit (mark4 0 (take 32 bs)) ?st))"
    by (intro debug_loop_take) (simp_all add: debug_lits_def)
  moreover from assms(1)
  have "lit_at L (mem (emit (mark4 0 (take 32 bs)) ?st)) '']\<newline>''"
    by (simp add: debug_lits_def)
  ultimately show ?thesis
    by (simp add: uart_puts_debug_head [OF assms(1)] andthen_def uart_puts_safe_lit
        debug_line_def debug_head_def)
qed

lemma uart_puts_debug_cut:
  assumes "lits_at L (mem st) debug_lits" and "cut_at (mem st) s bs" and "length bs < 32"
  shows "uart_puts_debug L s st =
    Some (Trap (s + of_nat (length bs)) (emit (debug_head s bs) st))"
proof -
  let ?st = "emit (debug_head s []) st"
  from assms have "debug_loop L s 0 ?st =
      Some (Trap (s + of_nat (length bs)) (emit (mark4 0 bs) ?st))"
    by (intro debug_loop_cut) (simp_all add: debug_lits_def)
  then show ?thesis
    by (simp add: uart_puts_debug_head [OF assms(1)] andthen_def debug_head_def)
qed

section \<open>The dump against the specification's scan\<close>

text \<open>
  On every memory the walk reads what the bounded scan of the string
  reports, and ends the way the scan ends.
\<close>

lemma debug_loop_scan:
  assumes "lit_at L (mem st) ''|''"
  shows "debug_loop L s 0 st =
    (case scan (mem st) s 32 of (bs, e) \<Rightarrow> Some (finish e (emit (mark4 0 bs) st)))"
proof (cases "scan (mem st) s 32")
  case (Pair bs e)
  with assms have "debug_loop L s 0 st = Some (finish e (emit (mark4 0 bs) st))"
    by (cases e) (auto simp: scan_iff debug_loop_cstring debug_loop_long debug_loop_cut)
  with Pair show ?thesis by simp
qed

lemma uart_puts_debug_scan:
  assumes "lits_at L (mem st) debug_lits"
  shows "uart_puts_debug L s st =
    (case scan (mem st) s 32 of
       (bs, Fault a) \<Rightarrow> Some (Trap a (emit (debug_head s bs) st))
     | (bs, e) \<Rightarrow> Some (Done (emit (debug_line s bs) st)))"
proof -
  let ?st = "emit (debug_head s []) st"
  from assms have bar: "lit_at L (mem ?st) ''|''" and ket: "lit_at L (mem st) '']\<newline>''"
    by (simp_all add: debug_lits_def)
  show ?thesis
    using debug_loop_scan [OF bar, of s] ket
    by (auto simp: uart_puts_debug_head [OF assms] andthen_def uart_puts_safe_lit
        debug_line_def debug_head_def split: prod.splits ending.splits)
qed

text \<open>The cap bounds what a dump can send: 39 characters of header, 40 of content, 2 to close.\<close>

lemma length_debug_line: "length bs \<le> 32 \<Longrightarrow> length (debug_line s bs) \<le> 81"
  by (simp add: debug_line_def debug_head_def length_mark4)

lemma uart_puts_debug_bounded:
  assumes "lits_at L (mem st) debug_lits"
  shows "\<exists>r bs. uart_puts_debug L s st = Some r \<and> state_of r = emit bs st \<and> length bs \<le> 81"
proof (cases "scan (mem st) s 32")
  case (Pair bs e)
  from scan_length [OF Pair] have "length (debug_line s bs) \<le> 81"
    by (rule length_debug_line)
  moreover have "length (debug_head s bs) \<le> length (debug_line s bs)"
    by (simp add: debug_line_def)
  ultimately show ?thesis
    using uart_puts_debug_scan [OF assms, of s] Pair
    by (cases e) (auto intro: order_trans)
qed

section \<open>The dump only reads\<close>

lemma debug_loop_unfold:
  "debug_loop L s i =
     (if i < 32 then
        read_byte (s + word_of_int i) (\<lambda>c.
          if c \<noteq> 0 then
            read_byte (s + word_of_int i) (\<lambda>c1.
              andthen (exec (uart_putc c1))
                (read_byte (s + word_of_int i) (\<lambda>c2.
                   if c2 = 0 then exec id
                   else andthen
                     (if (i + 1) smod 4 = 0 then uart_puts_safe (L ''|'') else exec id)
                     (debug_loop L s (i + 1)))))
          else exec id)
      else exec id)"
  by (rule ext) (subst debug_loop.simps, rule refl)

lemma probing_debug_loop [simp, intro]: "probing (debug_loop L s i)"
proof (induction "nat (32 - i)" arbitrary: i)
  case 0
  then have "debug_loop L s i = exec id"
    by (subst debug_loop_unfold) simp
  then show ?case by (simp add: probing_exec)
next
  case (Suc n)
  then have "probing (debug_loop L s (i + 1))"
    by (intro Suc.hyps) simp
  then show ?case
    by (subst debug_loop_unfold)
      (intro probing_if probing_read_byte probing_andthen probing_exec
        probing_uart_puts_safe probe_step_uart_putc; simp)
qed

lemma probing_uart_puts_debug [simp, intro]: "probing (uart_puts_debug L s)"
  unfolding uart_puts_debug_def
  by (intro probing_chain) (simp add: probing_exec hex_loop_28)

section \<open>The second test of the terminator is dead\<close>

text \<open>
  The walk without the inner \<^verbatim>\<open>if (s[i] == '\0') break;\<close> and with one read of
  \<open>s[i]\<close> per round.
\<close>

function debug_loop_plain :: "layout \<Rightarrow> u32 \<Rightarrow> int \<Rightarrow> machine prog" where
  "debug_loop_plain L s i st =
     (if i < 32 then
        read_byte (s + word_of_int i) (\<lambda>c.
          if c \<noteq> 0 then
            andthen (exec (uart_putc c))
              (andthen
                 (if (i + 1) smod 4 = 0 then uart_puts_safe (L ''|'') else exec id)
                 (\<lambda>st2. debug_loop_plain L s (i + 1) st2))
          else exec id)
      else exec id) st"
  by pat_completeness auto
termination
  by (relation "measure (\<lambda>(L, s, i, st). nat (32 - i))") auto

declare debug_loop_plain.simps [simp del]

lemma debug_loop_plain_eq: "debug_loop L s i st = debug_loop_plain L s i st"
proof (induction "nat (32 - i)" arbitrary: i st)
  case 0
  then show ?case
    by (subst debug_loop.simps, subst debug_loop_plain.simps) simp
next
  case (Suc n)
  then have IH: "debug_loop L s (i + 1) = debug_loop_plain L s (i + 1)"
    by (intro ext Suc.hyps) simp
  show ?case
  proof (cases "load8 (s + word_of_int i) st")
    case None
    then show ?thesis
      by (subst debug_loop.simps, subst debug_loop_plain.simps) (simp add: read_byte_None)
  next
    case (Some c)
    then show ?thesis
      by (subst debug_loop.simps, subst debug_loop_plain.simps)
        (simp add: read_byte_Some IH)
  qed
qed

text \<open>The markers are the only bars the dump adds to the bytes it shows.\<close>

lemma filter_mark4_eq:
  "filter (\<lambda>b. b \<noteq> 124) (mark4 i bs) = filter (\<lambda>b. b \<noteq> 124) bs"
  by (induction bs arbitrary: i) simp_all

section \<open>A table for concrete runs\<close>

text \<open>
  The literals of \<open>uart_puts_debug\<close> and the string \<open>Hi\<close> at addresses of
  their own; the string \<open>Hello from seL4!\<close> ends two bytes before an
  unmapped frame and is cut after \<open>Hello from seL4\<close>.
\<close>

definition demo_table :: "(string \<times> u32) list" where
  "demo_table =
     [(''DEBUG: String addr=0x'', 0x8000), ('' content=['', 0x8020),
      (''|'', 0x8030), ('']\<newline>'', 0x8034), (''Hi'', 0x40000000)]"

definition demo_machine :: machine where
  "demo_machine = boot_table demo_table"

definition cut_machine :: machine where
  "cut_machine = boot (segments_of demo_table @ [(0x40000FFA, bytes_of ''Hello '')])"

lemmas demo_simps = demo_table_def demo_machine_def cut_machine_def debug_lits_def
  lit_at_def layout_of_def segments_of_def boot_table_def
lemmas render_simps = debug_line_def debug_head_def hex8_def hex_digits_def nibble_def
  hex_digit_def upt_rec

lemma demo_lits: "lits_at (layout_of demo_table) (mem demo_machine) debug_lits"
  by (simp add: demo_simps)

lemma cut_lits: "lits_at (layout_of demo_table) (mem cut_machine) debug_lits"
  by (simp add: demo_simps)

section \<open>Properties of the bounded string dump\<close>

text \<open>
  C1 (functional, \<open>uart_puts_debug\<close>): for a NUL-terminated string \<open>bs\<close> at
  \<open>s\<close> the call returns having printed one line: the header with the
  address in eight hexadecimal digits, the first 32 bytes of the string (all
  of it when it is shorter) with a \<open>|\<close> after every fourth byte, and the
  closing \<open>]\<close> with a newline.  Memory is not changed.
\<close>

theorem uart_puts_debug_dump:
  assumes "lits_at L (mem st) debug_lits" and "cstring_at (mem st) s bs"
  shows "uart_puts_debug L s st =
    Some (Done (emit (bytes_of ''DEBUG: String addr=0x'' @ hex8 s @ bytes_of '' content=['' @
      mark4 0 (take 32 bs) @ bytes_of '']\<newline>'') st))"
  using uart_puts_debug_cstring [OF assms] by (simp add: debug_line_def debug_head_def)

theorem uart_puts_debug_dump_witness:
  "lits_at (layout_of demo_table) (mem demo_machine) debug_lits \<and>
   cstring_at (mem demo_machine) 0x40000000 (bytes_of ''Hi'') \<and>
   map_option (console \<circ> state_of)
     (uart_puts_debug (layout_of demo_table) 0x40000000 demo_machine) =
     Some (bytes_of ''DEBUG: String addr=0x40000000 content=[Hi]\<newline>'')"
proof -
  have h: "cstring_at (mem demo_machine) 0x40000000 (bytes_of ''Hi'')"
    by (simp add: demo_simps)
  from uart_puts_debug_dump [OF demo_lits h] demo_lits h show ?thesis
    by (simp add: render_simps demo_machine_def boot_table_def)
qed

text \<open>
  C2 (error, \<open>uart_puts_debug\<close>): when the string is cut by an unmapped
  address after fewer than 32 readable bytes \<open>bs\<close>, the run traps at that
  address; the line on the console ends with the bytes read before the
  fault (with their markers) and has no closing bracket.  Byte \<open>i\<close> is on
  the console only if bytes \<open>0\<close> to \<open>i\<close> were read.
\<close>

theorem uart_puts_debug_traps:
  assumes "lits_at L (mem st) debug_lits" and "cut_at (mem st) s bs" and "length bs < 32"
  shows "uart_puts_debug L s st =
    Some (Trap (s + of_nat (length bs))
      (emit (bytes_of ''DEBUG: String addr=0x'' @ hex8 s @ bytes_of '' content=['' @
        mark4 0 bs) st))"
  using uart_puts_debug_cut [OF assms] by (simp add: debug_head_def)

theorem uart_puts_debug_traps_witness:
  "lits_at (layout_of demo_table) (mem cut_machine) debug_lits \<and>
   cut_at (mem cut_machine) 0x40000FFA (bytes_of ''Hello '') \<and>
   uart_puts_debug (layout_of demo_table) 0x40000FFA cut_machine =
     Some (Trap 0x40001000
       (emit (bytes_of ''DEBUG: String addr=0x40000FFA content=[Hell|o '') cut_machine))"
proof -
  have h: "cut_at (mem cut_machine) 0x40000FFA (bytes_of ''Hello '')"
    by (simp add: demo_simps)
  from uart_puts_debug_traps [OF cut_lits h] cut_lits h show ?thesis
    by (simp add: render_simps)
qed

text \<open>
  C29 (functional, marker insertion): the dump of \<open>n\<close> bytes carries exactly
  \<open>n div 4\<close> markers, one after every fourth byte, and removing the markers
  gives back the bytes that were read; a two-byte string such as \<open>Hi\<close> has
  no marker.
\<close>

theorem mark4_count:
  "length (mark4 0 bs) = length bs + length bs div 4 \<and>
   filter (\<lambda>b. b \<noteq> 124) (mark4 0 bs) = filter (\<lambda>b. b \<noteq> 124) bs \<and>
   mark4 0 (bytes_of ''Hi'') = bytes_of ''Hi'' \<and>
   mark4 0 (bytes_of ''Hello from seL4!'') = bytes_of ''Hell|o fr|om s|eL4!|''"
  by (simp add: length_mark4 filter_mark4_eq)

text \<open>
  C13 (termination, \<open>uart_puts_debug\<close>): with its four literals in place the
  dump returns or traps for every argument, also for a string without
  terminator, and the cap of 32 bytes bounds what it does: whatever the
  memory holds, a dump sends at most 81 characters and spends at most
  810000 busy-wait iterations.
\<close>

theorem uart_puts_debug_returns:
  assumes "lits_at L (mem st) debug_lits"
  shows "\<exists>r. uart_puts_debug L s st = Some r \<and>
    length (console (state_of r)) \<le> length (console st) + 81 \<and>
    spins (state_of r) \<le> spins st + 810000"
proof -
  from uart_puts_debug_bounded [OF assms, of s] obtain r bs where
    "uart_puts_debug L s st = Some r" "state_of r = emit bs st" "length bs \<le> 81"
    by blast
  then show ?thesis by (auto simp: emit_eq console_def)
qed

theorem uart_puts_debug_returns_witness:
  "lits_at (layout_of demo_table) (mem demo_machine) debug_lits \<and>
   (\<exists>r. uart_puts_debug (layout_of demo_table) 0x9000000 demo_machine = Some r \<and>
      length (console (state_of r)) \<le> length (console demo_machine) + 81 \<and>
      spins (state_of r) \<le> spins demo_machine + 810000)"
  using uart_puts_debug_returns [OF demo_lits, of "0x9000000"] demo_lits by simp

text \<open>
  C30 (safety, \<open>uart_puts_debug\<close>): however a run of the dump ends, it has
  only read memory, and everything that was on the serial line before is
  still there, in order, in front of what the dump added.
\<close>

theorem uart_puts_debug_read_only:
  assumes "uart_puts_debug L s st = Some r"
  shows "mem (state_of r) = mem st \<and> prefix (console st) (console (state_of r)) \<and>
    spins st \<le> spins (state_of r)"
proof -
  from assms have "probe_step st (state_of r)"
    by (rule probingD [OF probing_uart_puts_debug])
  then show ?thesis
    by (simp add: probe_step_mem probe_step_console probe_step_extends extends_spins)
qed

theorem uart_puts_debug_read_only_witness:
  "uart_puts_debug (layout_of demo_table) 0x40000FFA cut_machine =
     Some (Trap 0x40001000
       (emit (bytes_of ''DEBUG: String addr=0x40000FFA content=[Hell|o '') cut_machine)) \<and>
   mem (emit (bytes_of ''DEBUG: String addr=0x40000FFA content=[Hell|o '') cut_machine) =
     mem cut_machine"
proof -
  have h: "cut_at (mem cut_machine) 0x40000FFA (bytes_of ''Hello '')"
    by (simp add: demo_simps)
  have run: "uart_puts_debug (layout_of demo_table) 0x40000FFA cut_machine =
     Some (Trap 0x40001000
       (emit (bytes_of ''DEBUG: String addr=0x40000FFA content=[Hell|o '') cut_machine))"
    using uart_puts_debug_cut [OF cut_lits h] by (simp add: render_simps)
  from uart_puts_debug_read_only [OF run] run show ?thesis by simp
qed

text \<open>
  C33 (equivalence, \<open>debug_loop\<close>): the second test of the terminator inside
  the loop body (\<^verbatim>\<open>if (s[i] == '\0') break;\<close>) never fires and the two
  further reads of \<open>s[i]\<close> never trap: the loop behaves, on every machine,
  like the loop with one read per round and no inner test.
\<close>

theorem debug_loop_break_dead:
  "debug_loop L s i st = debug_loop_plain L s i st"
  by (rule debug_loop_plain_eq)

end
