(* ===== verification/Stride.thy ===== *)
theory Stride
  imports Probe
begin

text \<open>
  The two walks of \<^verbatim>\<open>minimal_main_test_boundaries.c\<close>: the byte-by-byte analysis
  of the long test string (\<open>analysis_loop\<close>, the \<open>for\<close> loop of
  \<open>test_4kb_boundary_crossing\<close>) and the frame probe that samples guest RAM
  every four bytes (\<open>frame_probe_loop\<close>, the \<open>for\<close> loop of
  \<open>test_capdl_frame_pattern\<close>).  Both carry a test for a 4096-byte boundary;
  the lemmas give what each walk prints, where it traps, and how often the
  boundary test can hold.  On every memory the analysis is a function of
  the scan of its string and the frame probe of the word walk \<open>sample\<close>
  (\<open>analysis_loop_scan\<close>, \<open>frame_probe_loop_sample\<close>).
\<close>

unbundle bit_operations_syntax

section \<open>The byte-by-byte analysis\<close>

text \<open>
  \<^verbatim>\<open>for (int i = 0; i < 100 && test_string_long[i] != '\0'; i++) { ... }\<close> from
  counter value \<open>i\<close> on, for the string at address \<open>p\<close>.
\<close>

function analysis_loop :: "layout \<Rightarrow> u32 \<Rightarrow> int \<Rightarrow> machine prog" where
  "analysis_loop L p i st =
     (if i < 100 then
        read_byte (p + word_of_int i) (\<lambda>c.
          if c \<noteq> 0 then
            andthen
              (if i smod 16 = 0 then
                 chain [uart_puts_safe (L ''\<newline>Offset ''), exec (put_offset_4kb i),
                        uart_puts_safe (L '': '')]
               else exec id)
              (andthen (read_byte (p + word_of_int i) (\<lambda>c1. exec (uart_putc c1)))
                (andthen
                   (if (i + 1) smod 4096 = 0 then uart_puts_safe (L ''|4KB|'') else exec id)
                   (\<lambda>st1. analysis_loop L p (i + 1) st1)))
          else exec id)
      else exec id) st"
  by pat_completeness auto
termination
  by (relation "measure (\<lambda>(L, p, i, st). nat (100 - i))") auto

declare analysis_loop.simps [simp del]

definition analysis_lits :: "string list" where
  "analysis_lits = [''\<newline>Offset '', '': '', ''|4KB|'']"

text \<open>What one round prints: the label on every sixteenth byte, the byte, the marker.\<close>

definition analysis_label :: "nat \<Rightarrow> u8 list" where
  "analysis_label i =
     (if i mod 16 = 0 then bytes_of ''\<newline>Offset '' @ offset_4kb (int i) @ bytes_of '': ''
      else [])"

definition analysis_mark :: "nat \<Rightarrow> u8 list" where
  "analysis_mark i = (if Suc i mod 4096 = 0 then bytes_of ''|4KB|'' else [])"

definition analysis_round :: "nat \<Rightarrow> u8 \<Rightarrow> u8 list" where
  "analysis_round i c = analysis_label i @ c # analysis_mark i"

definition analysis_text :: "u8 list \<Rightarrow> u8 list" where
  "analysis_text bs = walk_text analysis_round 0 bs"

section \<open>The frame probe\<close>

text \<open>
  \<^verbatim>\<open>for (int offset = 0; offset < 32; offset += 4) { ... }\<close> from \<open>offset\<close> on,
  sampling \<open>base[offset]\<close>.
\<close>

text \<open>\<^verbatim>\<open>'0' + (test_byte & 0xF)\<close>, the character printed for a sampled byte.\<close>

definition sample_char :: "u8 \<Rightarrow> u8" where
  "sample_char test_byte = 48 + (test_byte AND 0xF)"

function frame_probe_loop :: "layout \<Rightarrow> u32 \<Rightarrow> int \<Rightarrow> machine prog" where
  "frame_probe_loop L base offset st =
     (if offset < 32 then
        andthen (uart_puts_safe (L ''Offset ''))
       (andthen (exec (put_offset_capdl offset))
       (andthen (uart_puts_safe (L '': ''))
       (andthen (read_byte (base + word_of_int offset)
                  (\<lambda>test_byte. exec (uart_putc (sample_char test_byte))))
       (andthen (uart_puts_safe (L '' ''))
       (andthen (if (offset + 4) smod 4096 = 0 then uart_puts_safe (L ''| 4KB boundary |'')
                 else exec id)
       (andthen (uart_puts_safe (L ''\<newline>''))
         (\<lambda>st1. frame_probe_loop L base (offset + 4) st1)))))))
      else exec id) st"
  by pat_completeness auto
termination
  by (relation "measure (\<lambda>(L, base, offset, st). nat (32 - offset))") auto

declare frame_probe_loop.simps [simp del]

definition frame_lits :: "string list" where
  "frame_lits = [''Offset '', '': '', '' '', ''| 4KB boundary |'', ''\<newline>'']"

text \<open>The sampled bytes: every fourth byte from an address on.\<close>

fun samples_at :: "(u32 \<Rightarrow> u8 option) \<Rightarrow> u32 \<Rightarrow> u8 list \<Rightarrow> bool" where
  "samples_at m p [] = True"
| "samples_at m p (b # bs) = (m p = Some b \<and> samples_at m (p + 4) bs)"

text \<open>
  The specification's walk in steps of one word: the first byte of each of
  \<open>n\<close> words from \<open>p\<close> on, up to the first unmapped one.  A word walk
  has no terminator.
\<close>

fun sample :: "(u32 \<Rightarrow> u8 option) \<Rightarrow> u32 \<Rightarrow> nat \<Rightarrow> u8 list \<times> ending" where
  "sample m p 0 = ([], Capped)"
| "sample m p (Suc n) =
     (case m p of
        None \<Rightarrow> ([], Fault p)
      | Some c \<Rightarrow> (case sample m (p + 4) n of (bs, e) \<Rightarrow> (c # bs, e)))"

text \<open>The label printed before a sample is read, and the whole line of a sample.\<close>

definition frame_label :: "nat \<Rightarrow> u8 list" where
  "frame_label off = bytes_of ''Offset '' @ offset_capdl (int off) @ bytes_of '': ''"

definition frame_line :: "nat \<Rightarrow> u8 \<Rightarrow> u8 list" where
  "frame_line off b =
     frame_label off @ [sample_char b] @ bytes_of '' '' @
     (if (off + 4) mod 4096 = 0 then bytes_of ''| 4KB boundary |'' else []) @
     bytes_of ''\<newline>''"

fun frame_text :: "nat \<Rightarrow> u8 list \<Rightarrow> u8 list" where
  "frame_text off [] = []"
| "frame_text off (b # bs) = frame_line off b @ frame_text (off + 4) bs"

section \<open>The specification's count of boundary markers\<close>

text \<open>
  A walk of \<open>S\<close> steps of size \<open>k\<close> marks the steps whose end
  \<open>offset + k\<close> is a multiple of the stride \<open>B\<close>.
\<close>

definition boundary_steps :: "nat \<Rightarrow> nat \<Rightarrow> nat \<Rightarrow> nat list" where
  "boundary_steps B k S = filter (\<lambda>off. (off + k) mod B = 0) (map (\<lambda>j. j * k) [0..<S])"

section \<open>The walks without their boundary tests\<close>

text \<open>
  The two loops with the \<^verbatim>\<open>if ((i + 1) % 4096 == 0)\<close> and
  \<^verbatim>\<open>if ((offset + 4) % 4096 == 0)\<close> statements taken out; the walks are
  compared with them below.
\<close>

function analysis_loop_nomark :: "layout \<Rightarrow> u32 \<Rightarrow> int \<Rightarrow> machine prog" where
  "analysis_loop_nomark L p i st =
     (if i < 100 then
        read_byte (p + word_of_int i) (\<lambda>c.
          if c \<noteq> 0 then
            andthen
              (if i smod 16 = 0 then
                 chain [uart_puts_safe (L ''\<newline>Offset ''), exec (put_offset_4kb i),
                        uart_puts_safe (L '': '')]
               else exec id)
              (andthen (read_byte (p + word_of_int i) (\<lambda>c1. exec (uart_putc c1)))
                (\<lambda>st1. analysis_loop_nomark L p (i + 1) st1))
          else exec id)
      else exec id) st"
  by pat_completeness auto
termination
  by (relation "measure (\<lambda>(L, p, i, st). nat (100 - i))") auto

declare analysis_loop_nomark.simps [simp del]

function frame_probe_loop_nomark :: "layout \<Rightarrow> u32 \<Rightarrow> int \<Rightarrow> machine prog" where
  "frame_probe_loop_nomark L base offset st =
     (if offset < 32 then
        andthen (uart_puts_safe (L ''Offset ''))
       (andthen (exec (put_offset_capdl offset))
       (andthen (uart_puts_safe (L '': ''))
       (andthen (read_byte (base + word_of_int offset)
                  (\<lambda>test_byte. exec (uart_putc (sample_char test_byte))))
       (andthen (uart_puts_safe (L '' ''))
       (andthen (uart_puts_safe (L ''\<newline>''))
         (\<lambda>st1. frame_probe_loop_nomark L base (offset + 4) st1))))))
      else exec id) st"
  by pat_completeness auto
termination
  by (relation "measure (\<lambda>(L, base, offset, st). nat (32 - offset))") auto

declare frame_probe_loop_nomark.simps [simp del]

section \<open>A table for concrete runs\<close>

text \<open>
  The literals of the two walks, a test string, and 32 bytes of guest RAM at
  \<open>0x40000000\<close>.  In \<open>short_ram\<close> only the first twelve bytes of guest RAM
  are mapped, and a copy of the test string lies in the last sixteen bytes
  of the frame below \<open>0x40001000\<close>, which is not mapped.
\<close>

definition stride_table :: "(string \<times> u32) list" where
  "stride_table =
     [(''\<newline>Offset '', 0x8000), ('': '', 0x8010), (''|4KB|'', 0x8014),
      (''Offset '', 0x8020), ('' '', 0x8028), (''| 4KB boundary |'', 0x8030),
      (''\<newline>'', 0x8044), (''Hello World Test String'', 0x9000)]"

definition full_ram :: machine where
  "full_ram =
     boot (segments_of stride_table @
       [(0x40000000, bytes_of ''0123456789ABCDEFGHIJKLMNOPQRSTUV'')])"

definition short_ram :: machine where
  "short_ram =
     boot (segments_of stride_table @
       [(0x40000000, bytes_of ''0123456789AB''), (0x40000FF0, bytes_of ''This is a very l'')])"

lemmas stride_simps = stride_table_def full_ram_def short_ram_def analysis_lits_def
  frame_lits_def lit_at_def layout_of_def segments_of_def boot_table_def

section \<open>The analysis, round by round\<close>

lemma analysis_loop_cap: "100 \<le> i \<Longrightarrow> analysis_loop L p i st = Some (Done st)"
  by (subst analysis_loop.simps) (simp add: exec_apply)

lemma analysis_loop_nul:
  "load8 (p + word_of_int i) st = Some 0 \<Longrightarrow> analysis_loop L p i st = Some (Done st)"
  by (subst analysis_loop.simps) (simp add: read_byte_Some exec_apply)

lemma analysis_loop_trap:
  "i < 100 \<Longrightarrow> load8 (p + word_of_int i) st = None \<Longrightarrow>
   analysis_loop L p i st = Some (Trap (p + word_of_int i) st)"
  by (subst analysis_loop.simps) (simp add: read_byte_None)

lemma analysis_loop_round:
  assumes "i < 100" and "load8 (p + of_nat i) st = Some c" and "c \<noteq> 0"
    and "lits_at L (mem st) analysis_lits"
  shows "analysis_loop L p (int i) st =
    analysis_loop L p (int (Suc i)) (emit (analysis_round i c) st)"
proof -
  have "(int i + 1) smod 4096 = 0 \<longleftrightarrow> Suc i mod 4096 = 0"
    using smod_int_nat [of 4096 "Suc i"] by (simp add: add.commute)
  moreover have "int i smod 16 = 0 \<longleftrightarrow> i mod 16 = 0"
    using smod_int_nat [of 16 i] by simp
  ultimately show ?thesis
    using assms
    by (subst analysis_loop.simps)
      (simp add: read_byte_Some andthen_read_byte_Some andthen_assoc analysis_lits_def
        andthen_puts_lit put_offset_4kb_emit analysis_round_def analysis_label_def
        analysis_mark_def add.commute)
qed

lemma analysis_loop_bytes:
  assumes "bytes_at (mem st) p bs" and "0 \<notin> set bs" and "length bs \<le> 100"
    and "lits_at L (mem st) analysis_lits"
  shows "analysis_loop L p 0 st =
    analysis_loop L p (int (length bs)) (emit (analysis_text bs) st)"
proof -
  have "analysis_loop L p (int 0) st =
      analysis_loop L p (int (0 + length bs)) (emit (walk_text analysis_round 0 bs) st)"
  proof (rule bounded_walk [where F = "analysis_loop L p" and cap = 100 and m = "mem st"
        and p = p])
    show "analysis_loop L p (int j) t = analysis_loop L p (int (Suc j)) (emit (analysis_round j c) t)"
      if "j < 100" "mem t = mem st" "mem st (p + of_nat j) = Some c" "c \<noteq> 0" for j c t
      using that assms(4) by (intro analysis_loop_round) (simp_all add: load8_def)
  qed (use assms in simp_all)
  then show ?thesis by (simp add: analysis_text_def)
qed

lemma analysis_loop_cstring:
  assumes "cstring_at (mem st) p bs" and "lits_at L (mem st) analysis_lits"
  shows "analysis_loop L p 0 st = Some (Done (emit (analysis_text (take 100 bs)) st))"
proof -
  from assms(1) have "bytes_at (mem st) p (take 100 bs)" "0 \<notin> set (take 100 bs)"
    by (auto simp: bytes_at_take dest: cstring_at_bytes in_set_takeD)
  with assms(2) have run: "analysis_loop L p 0 st =
      analysis_loop L p (int (length (take 100 bs))) (emit (analysis_text (take 100 bs)) st)"
    by (intro analysis_loop_bytes) simp_all
  show ?thesis
  proof (cases "length bs < 100")
    case True
    with assms(1)
    have "load8 (p + word_of_int (int (length bs))) (emit (analysis_text bs) st) = Some 0"
      by (simp add: cstring_at_end load8_def)
    with True run show ?thesis by (simp add: analysis_loop_nul)
  next
    case False
    with run show ?thesis by (simp add: analysis_loop_cap)
  qed
qed

lemma analysis_loop_cut:
  assumes "cut_at (mem st) p bs" and "length bs < 100" and "lits_at L (mem st) analysis_lits"
  shows "analysis_loop L p 0 st =
    Some (Trap (p + of_nat (length bs)) (emit (analysis_text bs) st))"
proof -
  from assms have "analysis_loop L p 0 st =
      analysis_loop L p (int (length bs)) (emit (analysis_text bs) st)"
    by (intro analysis_loop_bytes) (simp_all add: cut_at_def)
  moreover from assms(1)
  have "load8 (p + word_of_int (int (length bs))) (emit (analysis_text bs) st) = None"
    by (simp add: cut_at_def load8_def)
  ultimately show ?thesis using assms(2) by (simp add: analysis_loop_trap)
qed

lemma analysis_loop_unfold:
  "analysis_loop L p i =
      (if i < 100 then
        read_byte (p + word_of_int i) (\<lambda>c.
          if c \<noteq> 0 then
            andthen
              (if i smod 16 = 0 then
                 chain [uart_puts_safe (L ''\<newline>Offset ''), exec (put_offset_4kb i),
                        uart_puts_safe (L '': '')]
               else exec id)
              (andthen (read_byte (p + word_of_int i) (\<lambda>c1. exec (uart_putc c1)))
                (andthen
                   (if (i + 1) smod 4096 = 0 then uart_puts_safe (L ''|4KB|'') else exec id)
                   (analysis_loop L p (i + 1))))
          else exec id)
      else exec id)"
  by (rule ext) (subst analysis_loop.simps, simp)

lemmas probing_intros = probing_if probing_read_byte probing_andthen probing_chain
  probing_exec_id probing_uart_puts_safe probing_exec
lemmas returns_on_intros = returns_on_if returns_on_read_byte returns_on_andthen
  returns_on_chain returns_on_exec returns_on_puts_lit

lemma probing_analysis_loop: "probing (analysis_loop L p i)"
proof (induction "nat (100 - i)" arbitrary: i)
  case 0
  then show ?case by (subst analysis_loop_unfold) simp
next
  case (Suc n)
  then have IH: "probing (analysis_loop L p (i + 1))" by simp
  show ?case
    by (subst analysis_loop_unfold)
      (intro probing_intros IH, simp_all add: probing_exec put_offset_4kb_emit)
qed

lemma returns_on_analysis_loop:
  assumes "lit_at L M ''|4KB|''"
  shows "returns_on M (analysis_loop L p i)"
proof (induction "nat (100 - i)" arbitrary: i)
  case 0
  then show ?case by (subst analysis_loop_unfold) simp
next
  case (Suc n)
  then have IH: "returns_on M (analysis_loop L p (i + 1))" by simp
  note puts = returns_on_puts_lit [OF assms]
  show ?case
    by (subst analysis_loop_unfold)
      (intro returns_on_if returns_on_read_byte returns_on_andthen returns_on_chain
        probing_intros IH puts returns_on_exec,
        simp_all add: probing_exec put_offset_4kb_emit puts)
qed

lemma analysis_loop_nomark_eq:
  "0 \<le> i \<Longrightarrow> analysis_loop L p i = analysis_loop_nomark L p i"
proof (induction "nat (100 - i)" arbitrary: i)
  case 0
  then show ?case
    by (intro ext) (subst analysis_loop.simps, subst analysis_loop_nomark.simps, simp)
next
  case (Suc n)
  then have IH: "analysis_loop L p (i + 1) = analysis_loop_nomark L p (i + 1)" by simp
  from Suc have "(i + 1) smod 4096 \<noteq> 0" by (simp add: smod_nonneg)
  then show ?case
    by (intro ext)
      (subst analysis_loop.simps, subst analysis_loop_nomark.simps, simp add: IH cong: if_cong)
qed

section \<open>The frame probe, sample by sample\<close>

lemma frame_probe_loop_cap: "32 \<le> offset \<Longrightarrow> frame_probe_loop L base offset st = Some (Done st)"
  by (subst frame_probe_loop.simps) (simp add: exec_apply)

lemma frame_smod: "(int off + 4) smod 4096 = 0 \<longleftrightarrow> (off + 4) mod 4096 = 0"
  using smod_int_nat [of 4096 "off + 4"] by simp

lemma frame_probe_loop_round:
  assumes "off < 32" and "load8 (base + of_nat off) st = Some b"
    and "lits_at L (mem st) frame_lits"
  shows "frame_probe_loop L base (int off) st =
    frame_probe_loop L base (int (off + 4)) (emit (frame_line off b) st)"
  using assms
  by (subst frame_probe_loop.simps)
    (simp add: frame_lits_def andthen_puts_lit put_offset_capdl_emit andthen_read_byte_Some
      load8_def frame_line_def frame_label_def frame_smod)

lemma frame_probe_loop_trap:
  assumes "off < 32" and "load8 (base + of_nat off) st = None"
    and "lits_at L (mem st) frame_lits"
  shows "frame_probe_loop L base (int off) st =
    Some (Trap (base + of_nat off) (emit (frame_label off) st))"
  using assms
  by (subst frame_probe_loop.simps)
    (simp add: frame_lits_def andthen_puts_lit put_offset_capdl_emit andthen_read_byte_None
      load8_def frame_label_def)

lemma frame_probe_loop_samples:
  assumes "samples_at (mem st) (base + of_nat off) bs" and "off + 4 * length bs \<le> 32"
    and "lits_at L (mem st) frame_lits"
  shows "frame_probe_loop L base (int off) st =
    frame_probe_loop L base (int (off + 4 * length bs)) (emit (frame_text off bs) st)"
  using assms
proof (induction bs arbitrary: off st)
  case Nil
  then show ?case by simp
next
  case (Cons b bs)
  from Cons.prems have "frame_probe_loop L base (int off) st =
      frame_probe_loop L base (int (off + 4)) (emit (frame_line off b) st)"
    by (intro frame_probe_loop_round) (simp_all add: load8_def)
  also from Cons.prems have "\<dots> = frame_probe_loop L base (int (off + 4 + 4 * length bs))
      (emit (frame_text (off + 4) bs) (emit (frame_line off b) st))"
    by (intro Cons.IH) (simp_all add: ac_simps)
  finally show ?case by (simp add: emit_append ac_simps)
qed

lemma frame_probe_loop_prefix:
  assumes "samples_at (mem st) base bs" and "length bs \<le> 8"
    and "lits_at L (mem st) frame_lits"
  shows "frame_probe_loop L base 0 st =
    frame_probe_loop L base (int (4 * length bs)) (emit (frame_text 0 bs) st)"
  using frame_probe_loop_samples [of st base 0 bs L] assms by simp

lemma frame_probe_loop_full:
  assumes "lits_at L (mem st) frame_lits" and "samples_at (mem st) base bs"
    and "length bs = 8"
  shows "frame_probe_loop L base 0 st = Some (Done (emit (frame_text 0 bs) st))"
  using frame_probe_loop_prefix [OF assms(2) _ assms(1)] assms(3)
  by (simp add: frame_probe_loop_cap)

lemma frame_probe_loop_cut:
  assumes "lits_at L (mem st) frame_lits" and "samples_at (mem st) base bs"
    and "length bs < 8" and "mem st (base + of_nat (4 * length bs)) = None"
  shows "frame_probe_loop L base 0 st =
    Some (Trap (base + of_nat (4 * length bs))
      (emit (frame_text 0 bs @ frame_label (4 * length bs)) st))"
proof -
  from assms have "frame_probe_loop L base 0 st =
      frame_probe_loop L base (int (4 * length bs)) (emit (frame_text 0 bs) st)"
    by (intro frame_probe_loop_prefix) simp_all
  also from assms have "\<dots> = Some (Trap (base + of_nat (4 * length bs))
      (emit (frame_label (4 * length bs)) (emit (frame_text 0 bs) st)))"
    by (intro frame_probe_loop_trap) (simp_all add: load8_def)
  finally show ?thesis by (simp only: emit_append)
qed

lemma frame_probe_loop_unfold:
  "frame_probe_loop L base offset =
     (if offset < 32 then
        andthen (uart_puts_safe (L ''Offset ''))
       (andthen (exec (put_offset_capdl offset))
       (andthen (uart_puts_safe (L '': ''))
       (andthen (read_byte (base + word_of_int offset)
                  (\<lambda>test_byte. exec (uart_putc (sample_char test_byte))))
       (andthen (uart_puts_safe (L '' ''))
       (andthen (if (offset + 4) smod 4096 = 0 then uart_puts_safe (L ''| 4KB boundary |'')
                 else exec id)
       (andthen (uart_puts_safe (L ''\<newline>''))
         (frame_probe_loop L base (offset + 4))))))))
      else exec id)"
  by (rule ext) (subst frame_probe_loop.simps, simp)

lemma probing_frame_probe_loop: "probing (frame_probe_loop L base offset)"
proof (induction "nat (32 - offset)" arbitrary: offset rule: less_induct)
  case less
  have IH: "probing (frame_probe_loop L base (offset + 4))" if "offset < 32"
    using that by (intro less) simp
  show ?case
    by (subst frame_probe_loop_unfold)
      (auto intro!: probing_intros IH simp: probing_exec put_offset_capdl_emit)
qed

lemma returns_on_frame_probe_loop:
  assumes "lit_at L M ''\<newline>''"
  shows "returns_on M (frame_probe_loop L base offset)"
proof (induction "nat (32 - offset)" arbitrary: offset rule: less_induct)
  case less
  have IH: "returns_on M (frame_probe_loop L base (offset + 4))" if "offset < 32"
    using that by (intro less) simp
  note puts = returns_on_puts_lit [OF assms]
  show ?case
    by (subst frame_probe_loop_unfold)
      (auto intro!: returns_on_if returns_on_read_byte returns_on_andthen probing_intros IH puts
        simp: probing_exec put_offset_capdl_emit)
qed

lemma frame_probe_loop_nomark_eq:
  "0 \<le> offset \<Longrightarrow> frame_probe_loop L base offset = frame_probe_loop_nomark L base offset"
proof (induction "nat (32 - offset)" arbitrary: offset rule: less_induct)
  case less
  have IH: "frame_probe_loop L base (offset + 4) = frame_probe_loop_nomark L base (offset + 4)"
    if "offset < 32"
    using that less.prems by (intro less) simp_all
  have "(offset + 4) smod 4096 \<noteq> 0" if "offset < 32"
    using that less.prems by (simp add: smod_nonneg)
  with IH show ?case
    by (intro ext)
      (subst frame_probe_loop.simps, subst frame_probe_loop_nomark.simps, simp cong: if_cong)
qed

section \<open>The walks against the specification's scans\<close>

lemma analysis_loop_scan:
  assumes "lits_at L (mem st) analysis_lits"
  shows "analysis_loop L p 0 st =
    (case scan (mem st) p 100 of (bs, e) \<Rightarrow> Some (finish e (emit (analysis_text bs) st)))"
proof (cases "scan (mem st) p 100")
  case (Pair bs e)
  with assms have "analysis_loop L p 0 st = Some (finish e (emit (analysis_text bs) st))"
    by (cases e)
      (auto simp: scan_iff analysis_loop_cstring analysis_loop_cut analysis_loop_bytes
        analysis_loop_cap)
  with Pair show ?thesis by simp
qed

lemma sample_Suc_Nil: "sample m p (Suc n) = ([], e) \<longleftrightarrow> m p = None \<and> e = Fault p"
  by (auto split: option.splits prod.splits)

lemma sample_Suc_Cons:
  "sample m p (Suc n) = (c # bs, e) \<longleftrightarrow> m p = Some c \<and> sample m (p + 4) n = (bs, e)"
  by (auto split: option.splits prod.splits)

lemmas sample_Suc = sample_Suc_Nil sample_Suc_Cons

declare sample.simps(2) [simp del]

lemma sample_Terminator [simp]: "sample m p n \<noteq> (bs, Terminator)"
proof (induction n arbitrary: p bs)
  case 0
  show ?case by simp
next
  case (Suc n)
  show ?case by (cases bs) (auto simp: sample_Suc Suc.IH)
qed

lemma sample_Capped: "sample m p n = (bs, Capped) \<longleftrightarrow> samples_at m p bs \<and> length bs = n"
proof (induction n arbitrary: p bs)
  case 0
  show ?case by auto
next
  case (Suc n)
  show ?case by (cases bs) (auto simp: sample_Suc Suc.IH)
qed

lemma sample_Fault:
  "sample m p n = (bs, Fault a) \<longleftrightarrow>
     samples_at m p bs \<and> length bs < n \<and> a = p + of_nat (4 * length bs) \<and> m a = None"
proof (induction n arbitrary: p bs)
  case 0
  show ?case by simp
next
  case (Suc n)
  show ?case by (cases bs) (auto simp: sample_Suc Suc.IH add.assoc)
qed

lemma frame_probe_loop_sample:
  assumes "lits_at L (mem st) frame_lits"
  shows "frame_probe_loop L base 0 st =
    (case sample (mem st) base 8 of
       (bs, Fault a) \<Rightarrow> Some (Trap a (emit (frame_text 0 bs @ frame_label (4 * length bs)) st))
     | (bs, e) \<Rightarrow> Some (Done (emit (frame_text 0 bs) st)))"
proof (cases "sample (mem st) base 8")
  case (Pair bs e)
  with assms have "frame_probe_loop L base 0 st =
      (case e of
         Fault a \<Rightarrow> Some (Trap a (emit (frame_text 0 bs @ frame_label (4 * length bs)) st))
       | _ \<Rightarrow> Some (Done (emit (frame_text 0 bs) st)))"
    by (cases e)
      (auto simp: sample_Capped sample_Fault frame_probe_loop_full frame_probe_loop_cut
        simp del: of_nat_mult)
  with Pair show ?thesis by (simp only: prod.case)
qed

section \<open>Counting boundary markers\<close>

lemma boundary_steps_Suc:
  "boundary_steps B k (Suc S) =
     boundary_steps B k S @ (if (S * k + k) mod B = 0 then [S * k] else [])"
  by (simp add: boundary_steps_def)

lemma boundary_steps_length:
  assumes "k dvd B" and "0 < k"
  shows "length (boundary_steps B k S) = S * k div B"
proof -
  from assms(1) obtain q where B: "B = k * q" ..
  have step: "(S * k + k) mod B = 0 \<longleftrightarrow> Suc S mod q = 0" for S
    using assms(2) mod_mult_mult1 [of k "Suc S" q] by (simp add: B ac_simps)
  have count: "S * k div B = S div q" for S
    using assms(2) div_mult_mult1 [of k S q] by (simp add: B ac_simps)
  show ?thesis
  proof (induction S)
    case 0
    show ?case by (simp add: boundary_steps_def)
  next
    case (Suc S)
    have "Suc S * k div B = Suc S div q" by (rule count)
    with Suc show ?case
      by (simp add: boundary_steps_Suc step count [of S] div_Suc)
  qed
qed

lemma unat_sample_char: "unat (sample_char b) = 48 + unat b mod 16"
proof -
  have "unat (b AND 0xF) = unat (take_bit 4 b)"
    by (simp add: take_bit_eq_mask mask_eq_exp_minus_1)
  also have "\<dots> = take_bit 4 (unat b)"
    by (rule unsigned_take_bit_eq)
  also have "\<dots> = unat b mod 16"
    by (simp add: take_bit_eq_mod)
  finally have low: "unat (b AND 0xF) = unat b mod 16" .
  have "unat (sample_char b) = (48 + unat b mod 16) mod 256"
    by (simp add: sample_char_def unat_word_ariths low)
  then show ?thesis by simp
qed

lemma full_lits:
  "lits_at (layout_of stride_table) (mem full_ram) analysis_lits"
  "lits_at (layout_of stride_table) (mem full_ram) frame_lits"
  by (simp_all add: stride_simps)

lemma short_lits:
  "lits_at (layout_of stride_table) (mem short_ram) analysis_lits"
  "lits_at (layout_of stride_table) (mem short_ram) frame_lits"
  by (simp_all add: stride_simps)

lemmas walk_simps = analysis_text_def analysis_round_def analysis_label_def analysis_mark_def
  offset_4kb_def frame_line_def frame_label_def offset_capdl_def sample_char_def
  sdiv_nonneg smod_nonneg

section \<open>Properties of the byte-by-byte analysis\<close>

text \<open>
  C5 (functional, \<open>analysis_loop\<close>): for a NUL-terminated string \<open>bs\<close> at
  \<open>p\<close> the analysis returns having printed the first 100 bytes of the string
  (all of it when it is shorter), each group of sixteen preceded by a line
  break and the label \<open>Offset nn: \<close> (\<open>Offset 000: \<close> for the first group:
  the label has three digits below ten and two from ten on).
\<close>

theorem analysis_loop_output:
  assumes "lits_at L (mem st) analysis_lits" and "cstring_at (mem st) p bs"
  shows "analysis_loop L p 0 st = Some (Done (emit (analysis_text (take 100 bs)) st))"
  using assms(2,1) by (rule analysis_loop_cstring)

theorem analysis_loop_output_witness:
  "lits_at (layout_of stride_table) (mem full_ram) analysis_lits \<and>
   cstring_at (mem full_ram) 0x9000 (bytes_of ''Hello World Test String'') \<and>
   map_option (console \<circ> state_of) (analysis_loop (layout_of stride_table) 0x9000 0 full_ram) =
     Some (bytes_of ''\<newline>Offset 000: Hello World Test\<newline>Offset 16:  String'')"
proof -
  have h: "cstring_at (mem full_ram) 0x9000 (bytes_of ''Hello World Test String'')"
    by (simp add: stride_simps)
  from analysis_loop_output [OF full_lits(1) h] full_lits(1) h show ?thesis
    by (simp add: walk_simps full_ram_def)
qed

text \<open>
  C14 (error, \<open>analysis_loop\<close>): when the string is cut by an unmapped address
  after fewer than 100 readable bytes \<open>bs\<close>, the analysis traps at that
  address, in the loop condition: the console holds the labelled bytes read
  so far and nothing of the round that faulted, not even its label.
\<close>

theorem analysis_loop_traps:
  assumes "lits_at L (mem st) analysis_lits" and "cut_at (mem st) p bs" and "length bs < 100"
  shows "analysis_loop L p 0 st =
    Some (Trap (p + of_nat (length bs)) (emit (analysis_text bs) st))"
  using assms(2,3,1) by (rule analysis_loop_cut)

theorem analysis_loop_traps_witness:
  "lits_at (layout_of stride_table) (mem short_ram) analysis_lits \<and>
   cut_at (mem short_ram) 0x40000FF0 (bytes_of ''This is a very l'') \<and>
   analysis_loop (layout_of stride_table) 0x40000FF0 0 short_ram =
     Some (Trap 0x40001000
       (emit (bytes_of ''\<newline>Offset 000: This is a very l'') short_ram))"
proof -
  have h: "cut_at (mem short_ram) 0x40000FF0 (bytes_of ''This is a very l'')"
    by (simp add: stride_simps)
  from analysis_loop_traps [OF short_lits(1) h] short_lits(1) h show ?thesis
    by (simp add: walk_simps)
qed

text \<open>
  C34 (equivalence, boundary marker of \<open>analysis_loop\<close>): from a counter that
  is not negative the analysis behaves, on every memory, like the loop
  without the 4096-byte test: the cap of 100 bytes stops the walk long
  before \<open>i + 1\<close> can be a multiple of 4096, so \<open>|4KB|\<close> is never printed.
\<close>

theorem analysis_loop_never_marks:
  "0 \<le> i \<Longrightarrow> analysis_loop L p i st = analysis_loop_nomark L p i st"
  by (simp add: analysis_loop_nomark_eq)

theorem analysis_loop_never_marks_witness:
  "(0::int) \<le> 0 \<and>
   analysis_loop (layout_of stride_table) 0x9000 0 full_ram =
   analysis_loop_nomark (layout_of stride_table) 0x9000 0 full_ram"
  using analysis_loop_never_marks [of 0 "layout_of stride_table" "0x9000" full_ram] by simp

section \<open>Properties of the frame probe\<close>

text \<open>
  C15 (functional, \<open>frame_probe_loop\<close>): when the eight sampled bytes
  \<open>base[0], base[4], \<dots>, base[28]\<close> can be read, the probe returns having
  printed eight lines \<open>Offset nn: c\<close> (\<open>Offset 00n: c\<close> below ten), where
  \<open>c\<close> is the character for the low four bits of the sample.
\<close>

theorem frame_probe_loop_output:
  assumes "lits_at L (mem st) frame_lits" and "samples_at (mem st) base bs"
    and "length bs = 8"
  shows "frame_probe_loop L base 0 st = Some (Done (emit (frame_text 0 bs) st))"
  using assms by (rule frame_probe_loop_full)

theorem frame_probe_loop_output_witness:
  "lits_at (layout_of stride_table) (mem full_ram) frame_lits \<and>
   samples_at (mem full_ram) 0x40000000 (bytes_of ''048CGKOS'') \<and>
   length (bytes_of ''048CGKOS'') = 8 \<and>
   map_option (console \<circ> state_of)
     (frame_probe_loop (layout_of stride_table) 0x40000000 0 full_ram) =
     Some (bytes_of (''Offset 000: 0 \<newline>Offset 004: 4 \<newline>Offset 008: 8 \<newline>Offset 12: 3 \<newline>'' @
       ''Offset 16: 7 \<newline>Offset 20: ; \<newline>Offset 24: ? \<newline>Offset 28: 3 \<newline>''))"
proof -
  have h: "samples_at (mem full_ram) 0x40000000 (bytes_of ''048CGKOS'')"
    by (simp add: stride_simps)
  from frame_probe_loop_output [OF full_lits(2) h] full_lits(2) h show ?thesis
    by (simp add: walk_simps full_ram_def)
qed

text \<open>
  C6 (error, \<open>frame_probe_loop\<close>): when the first \<open>n < 8\<close> samples can be
  read and the next one is unmapped, the probe traps at \<open>base + 4 * n\<close>; the
  console holds the \<open>n\<close> complete lines and the label of the faulting
  offset, which is printed before the read.
\<close>

theorem frame_probe_loop_traps:
  assumes "lits_at L (mem st) frame_lits" and "samples_at (mem st) base bs"
    and "length bs < 8" and "mem st (base + of_nat (4 * length bs)) = None"
  shows "frame_probe_loop L base 0 st =
    Some (Trap (base + of_nat (4 * length bs))
      (emit (frame_text 0 bs @ frame_label (4 * length bs)) st))"
  using assms by (rule frame_probe_loop_cut)

theorem frame_probe_loop_traps_witness:
  "lits_at (layout_of stride_table) (mem short_ram) frame_lits \<and>
   samples_at (mem short_ram) 0x40000000 (bytes_of ''048'') \<and>
   length (bytes_of ''048'') < 8 \<and>
   mem short_ram (0x40000000 + of_nat (4 * length (bytes_of ''048''))) = None \<and>
   frame_probe_loop (layout_of stride_table) 0x40000000 0 short_ram =
     Some (Trap 0x4000000C
       (emit (bytes_of ''Offset 000: 0 \<newline>Offset 004: 4 \<newline>Offset 008: 8 \<newline>Offset 12: '')
         short_ram))"
proof -
  have h: "samples_at (mem short_ram) 0x40000000 (bytes_of ''048'')"
    "mem short_ram (0x40000000 + of_nat (4 * length (bytes_of ''048''))) = None"
    by (simp_all add: stride_simps)
  from frame_probe_loop_traps [OF short_lits(2) h(1) _ h(2)] short_lits(2) h show ?thesis
    by (simp add: walk_simps)
qed

text \<open>
  C35 (equivalence, boundary marker of \<open>frame_probe_loop\<close>): from an offset
  that is not negative the probe behaves, on every memory, like the loop
  without the 4096-byte test: the walk ends at offset 28, so
  \<open>| 4KB boundary |\<close> is never printed.
\<close>

theorem frame_probe_loop_never_marks:
  "0 \<le> offset \<Longrightarrow>
   frame_probe_loop L base offset st = frame_probe_loop_nomark L base offset st"
  by (simp add: frame_probe_loop_nomark_eq)

theorem frame_probe_loop_never_marks_witness:
  "(0::int) \<le> 0 \<and>
   frame_probe_loop (layout_of stride_table) 0x40000000 0 short_ram =
   frame_probe_loop_nomark (layout_of stride_table) 0x40000000 0 short_ram"
  using frame_probe_loop_never_marks [of 0 "layout_of stride_table" "0x40000000" short_ram]
  by simp

text \<open>
  C36 (bounds, \<open>sample_char\<close>): the character printed for a sample lies
  between \<open>0\<close> and \<open>?\<close>; it is a decimal digit exactly when the low four
  bits of the sample are below ten, and one of \<open>: ; < = > ?\<close> otherwise.
\<close>

theorem sample_char_range:
  "48 \<le> unat (sample_char b) \<and> unat (sample_char b) \<le> 63 \<and>
   (unat (sample_char b) \<le> 57 \<longleftrightarrow> unat b mod 16 < 10) \<and>
   sample_char 0x4B = 59"
proof -
  have "unat b mod 16 < 16" by simp
  then have "48 \<le> unat (sample_char b) \<and> unat (sample_char b) \<le> 63 \<and>
      (unat (sample_char b) \<le> 57 \<longleftrightarrow> unat b mod 16 < 10)"
    unfolding unat_sample_char by arith
  moreover have "sample_char 0x4B = 59" by (simp add: sample_char_def)
  ultimately show ?thesis by blast
qed

section \<open>Termination and safety of the walks\<close>

text \<open>
  C31 (termination, both walks): with their literals in memory, the analysis
  and the frame probe come back from every state, whatever the memory holds
  at the probed addresses: with \<open>Done\<close>, or with \<open>Trap\<close> at the first
  unmapped address.
\<close>

theorem walks_return:
  assumes "lits_at L (mem st) analysis_lits" and "lits_at L (mem st) frame_lits"
  shows "(\<exists>r. analysis_loop L p i st = Some r) \<and>
    (\<exists>r. frame_probe_loop L base offset st = Some r)"
proof -
  from assms have "lit_at L (mem st) ''|4KB|''" and "lit_at L (mem st) ''\<newline>''"
    by (simp_all add: analysis_lits_def frame_lits_def)
  then show ?thesis
    by (blast dest: returns_on_analysis_loop returns_on_frame_probe_loop returns_onD)
qed

theorem walks_return_witness:
  "lits_at (layout_of stride_table) (mem short_ram) analysis_lits \<and>
   lits_at (layout_of stride_table) (mem short_ram) frame_lits \<and>
   (\<exists>r. analysis_loop (layout_of stride_table) 0x40000FF0 0 short_ram = Some r) \<and>
   (\<exists>r. frame_probe_loop (layout_of stride_table) 0x40000000 0 short_ram = Some r)"
  using walks_return [OF short_lits, of "0x40000FF0" 0 "0x40000000" 0] short_lits by simp

text \<open>
  C32 (safety, both walks): however a walk ends, it has only read memory, and
  what was on the serial line before is still there, in order, in front of
  what the walk added.
\<close>

theorem walks_read_only:
  "(analysis_loop L p i st = Some r \<longrightarrow>
      mem (state_of r) = mem st \<and> prefix (console st) (console (state_of r))) \<and>
   (frame_probe_loop L base offset st = Some r' \<longrightarrow>
      mem (state_of r') = mem st \<and> prefix (console st) (console (state_of r')))"
  by (blast dest: probingD [OF probing_analysis_loop] probingD [OF probing_frame_probe_loop]
      probe_step_mem probe_step_console)

theorem walks_read_only_witness:
  "\<exists>r r'. analysis_loop (layout_of stride_table) 0x40000FF0 0 short_ram = Some r \<and>
     frame_probe_loop (layout_of stride_table) 0x40000000 0 short_ram = Some r' \<and>
     mem (state_of r) = mem short_ram \<and> prefix (console short_ram) (console (state_of r)) \<and>
     mem (state_of r') = mem short_ram \<and> prefix (console short_ram) (console (state_of r'))"
proof -
  let ?L = "layout_of stride_table"
  from short_lits have "lit_at ?L (mem short_ram) ''|4KB|''" "lit_at ?L (mem short_ram) ''\<newline>''"
    by (simp_all add: analysis_lits_def frame_lits_def)
  then have "returns_on (mem short_ram) (analysis_loop ?L 0x40000FF0 0)"
    "returns_on (mem short_ram) (frame_probe_loop ?L 0x40000000 0)"
    by (simp_all add: returns_on_analysis_loop returns_on_frame_probe_loop)
  then obtain r r' where
    "analysis_loop ?L 0x40000FF0 0 short_ram = Some r"
    "frame_probe_loop ?L 0x40000000 0 short_ram = Some r'"
    by (blast dest: returns_onD)
  with walks_read_only [of "layout_of stride_table" "0x40000FF0" 0 short_ram r "0x40000000" 0 r']
  show ?thesis by blast
qed

section \<open>The specification's marker count\<close>

text \<open>
  C39 (functional, marker count): in a walk of \<open>S\<close> steps of size \<open>k\<close> with a
  stride \<open>B\<close> that \<open>k\<close> divides, the steps with
  \<open>(offset + k) mod B = 0\<close> number \<open>S * k div B\<close>.  The rounds of the
  analysis that print the marker are these steps for one-byte steps and
  the stride 4096; for the two walks of the program (100 steps of one byte,
  8 steps of four bytes) there is none.
\<close>

theorem boundary_steps_count:
  assumes "k dvd B" and "0 < k"
  shows "length (boundary_steps B k S) = S * k div B \<and>
    filter (\<lambda>i. analysis_mark i \<noteq> []) [0..<n] = boundary_steps 4096 1 n \<and>
    boundary_steps 4096 1 100 = [] \<and> boundary_steps 4096 4 8 = []"
proof -
  have "boundary_steps 4096 1 100 = []" "boundary_steps 4096 4 8 = []"
    using boundary_steps_length [of 1 4096 100] boundary_steps_length [of 4 4096 8]
    by simp_all
  moreover from assms have "length (boundary_steps B k S) = S * k div B"
    by (rule boundary_steps_length)
  moreover have "filter (\<lambda>i. analysis_mark i \<noteq> []) [0..<n] = boundary_steps 4096 1 n"
    by (simp add: boundary_steps_def analysis_mark_def bytes_of_def cong: filter_cong)
  ultimately show ?thesis by blast
qed

theorem boundary_steps_count_witness:
  "(4::nat) dvd 4096 \<and> (0::nat) < 4 \<and>
   length (boundary_steps 4096 4 2048) = 2 \<and> boundary_steps 4096 4 8 = [] \<and>
   filter (\<lambda>i. analysis_mark i \<noteq> []) [0..<100] = []"
  using boundary_steps_count [of 4 4096 2048 100] by simp

text \<open>
  When the step does not divide the stride the count of the specification
  is wrong: four steps of three bytes against a stride of four meet one
  boundary, not three.
\<close>

lemma boundary_steps_indivisible:
  "boundary_steps 4 3 4 = [9] \<and> (4 * 3) div 4 = (3::nat)"
  by (simp add: boundary_steps_def upt_rec)

end
