(* ===== verification/Virt.thy ===== *)
theory Virt
  imports Uart
begin

text \<open>
  The greeting program \<^verbatim>\<open>minimal_main_virt.c\<close>: a banner, then the same line
  every five thousand delay units, for ever.  The program reads no memory:
  every character is an immediate operand of \<open>uart_putc\<close>, so no run of it
  can trap.  Its string transmitter \<open>uart_puts\<close> is never called; it
  is the loop of \<open>uart_puts_safe\<close> under another name, which is proved here.
\<close>

section \<open>The program\<close>

text \<open>\<^verbatim>\<open>while (*s) { uart_putc(*s); s++; }\<close>, as in \<open>uart_puts_safe\<close>.\<close>

partial_function (option) uart_puts :: "u32 \<Rightarrow> machine \<Rightarrow> machine result option" where
  "uart_puts p s =
     (case load8 p s of
        None \<Rightarrow> Some (Trap p s)
      | Some c \<Rightarrow>
          if c \<noteq> 0 then
            (case load8 p s of
               None \<Rightarrow> Some (Trap p s)
             | Some c' \<Rightarrow> uart_puts (p + 1) (uart_putc c' s))
          else Some (Done s))"

text \<open>\<open>delay\<close> of this program: the inner busy-wait counts to one million.\<close>

definition virt_delay :: "u32 \<Rightarrow> machine \<Rightarrow> machine" where
  "virt_delay count s = delay_loop 1000000 count s"

text \<open>Twenty-one calls of \<open>uart_putc\<close> each.\<close>

definition print_freertos_starting :: "machine \<Rightarrow> machine" where
  "print_freertos_starting s = emit (bytes_of ''FreeRTOS starting...\<newline>'') s"

definition print_hello_message :: "machine \<Rightarrow> machine" where
  "print_hello_message s = emit (bytes_of ''Hello from ARM-VIRT!\<newline>'') s"

text \<open>The body of \<^verbatim>\<open>while (1)\<close> in \<open>main\<close>; the loop keeps no counter.\<close>

definition virt_round :: "machine \<Rightarrow> machine" where
  "virt_round s = virt_delay 5000 (print_hello_message s)"

definition virt_main :: "machine prog" where
  "virt_main =
     andthen (exec print_freertos_starting) (forever (\<lambda>iteration. exec virt_round) 0)"

text \<open>The console after the banner and \<open>n\<close> rounds, and the busy-wait spent on them.\<close>

definition virt_console :: "nat \<Rightarrow> u8 list" where
  "virt_console n =
     bytes_of ''FreeRTOS starting...\<newline>'' @
     concat (replicate n (bytes_of ''Hello from ARM-VIRT!\<newline>''))"

definition virt_spins :: "nat \<Rightarrow> nat" where
  "virt_spins n = 210000 + n * (210000 + 5000 * 1000000)"

section \<open>The two string transmitters\<close>

lemma uart_puts_le: "uart_puts p s = Some r \<Longrightarrow> uart_puts_safe p s = Some r"
proof (rule uart_puts.raw_induct [where P = "\<lambda>p s r. uart_puts_safe p s = Some r"])
  fix f p s r
  assume "\<And>p s r. f p s = Some r \<Longrightarrow> uart_puts_safe p s = Some r"
    and "(case load8 p s of None \<Rightarrow> Some (Trap p s)
       | Some c \<Rightarrow> if c \<noteq> 0
           then case load8 p s of None \<Rightarrow> Some (Trap p s)
             | Some c' \<Rightarrow> f (p + 1) (uart_putc c' s)
           else Some (Done s)) = Some r"
  then show "uart_puts_safe p s = Some r"
    by (subst uart_puts_safe.simps) (auto split: option.splits if_splits)
qed

lemma uart_puts_safe_le: "uart_puts_safe p s = Some r \<Longrightarrow> uart_puts p s = Some r"
proof (rule uart_puts_safe.raw_induct [where P = "\<lambda>p s r. uart_puts p s = Some r"])
  fix f p s r
  assume "\<And>p s r. f p s = Some r \<Longrightarrow> uart_puts p s = Some r"
    and "(case load8 p s of None \<Rightarrow> Some (Trap p s)
       | Some c \<Rightarrow> if c \<noteq> 0
           then case load8 p s of None \<Rightarrow> Some (Trap p s)
             | Some c' \<Rightarrow> f (p + 1) (uart_putc c' s)
           else Some (Done s)) = Some r"
  then show "uart_puts p s = Some r"
    by (subst uart_puts.simps) (auto split: option.splits if_splits)
qed

section \<open>Rounds of the greeting\<close>

lemma virt_round_fields [simp]:
  "console (virt_round s) = console s @ bytes_of ''Hello from ARM-VIRT!\<newline>''"
  "spins (virt_round s) = spins s + 210000 + 5000 * 1000000"
  "mem (virt_round s) = mem s"
  by (simp_all add: virt_round_def virt_delay_def print_hello_message_def delay_loop_eq
      console_def)

lemma virt_rounds_fields:
  "console ((virt_round ^^ n) s) =
     console s @ concat (replicate n (bytes_of ''Hello from ARM-VIRT!\<newline>''))"
  "spins ((virt_round ^^ n) s) = spins s + n * (210000 + 5000 * 1000000)"
  "mem ((virt_round ^^ n) s) = mem s"
  by (induction n) (simp_all add: concat_replicate_snoc)

lemma rounds_virt_round:
  "rounds (\<lambda>iteration. exec virt_round) k s (k + int n) ((virt_round ^^ n) s)"
  using rounds_steps [of n "\<lambda>iteration. exec virt_round" k "\<lambda>j. (virt_round ^^ j) s"]
  by (simp add: exec_apply)

lemma probe_step_virt_round: "probe_step s (virt_round s)"
  unfolding virt_round_def virt_delay_def print_hello_message_def
  by (rule probe_step_trans [OF probe_step_emit probe_step_delay_loop])

lemma virt_main_None: "virt_main s = None"
proof -
  have "forever (\<lambda>iteration. exec virt_round) 0 t = None" for t
    by (rule forever_diverges [where I = "\<lambda>s. True"]) (simp_all add: exec_apply)
  then show ?thesis by (simp add: virt_main_def)
qed

section \<open>Properties of the greeting program\<close>

text \<open>
  C20 (liveness, \<open>virt_main\<close>): from every state the loop of the entry
  point, entered after the banner, comes to its head again and again: for
  every \<open>n\<close> it reaches its head after \<open>n\<close> rounds, and the state there
  is determined: the console holds the banner and \<open>n\<close> greeting lines
  behind what was there, the program has spent
  \<open>210000 + n * 5000210000\<close> busy-wait iterations, and memory is
  unchanged.
\<close>

theorem virt_main_rounds:
  "\<exists>t. rounds (\<lambda>iteration. exec virt_round) 0 (print_freertos_starting s) (int n) t \<and>
     console t = console s @ virt_console n \<and>
     spins t = spins s + virt_spins n \<and> mem t = mem s \<and>
     (\<forall>t'. rounds (\<lambda>iteration. exec virt_round) 0 (print_freertos_starting s) (int n) t'
        \<longrightarrow> t' = t)"
proof -
  let ?t = "(virt_round ^^ n) (print_freertos_starting s)"
  have "rounds (\<lambda>iteration. exec virt_round) 0 (print_freertos_starting s) (int n) ?t"
    using rounds_virt_round [of 0 "print_freertos_starting s" n] by simp
  moreover have "console ?t = console s @ virt_console n"
    "spins ?t = spins s + virt_spins n" "mem ?t = mem s"
    by (simp_all add: virt_rounds_fields virt_console_def virt_spins_def
        print_freertos_starting_def)
  ultimately show ?thesis by (blast intro: rounds_unique)
qed

theorem virt_main_rounds_witness:
  "\<exists>t. rounds (\<lambda>iteration. exec virt_round) 0 (print_freertos_starting (boot [])) 2 t \<and>
     console t = bytes_of (''FreeRTOS starting...\<newline>'' @
       ''Hello from ARM-VIRT!\<newline>'' @ ''Hello from ARM-VIRT!\<newline>'') \<and>
     spins t = 10000630000"
proof -
  from virt_main_rounds [of "boot []" 2] obtain t where
    "rounds (\<lambda>iteration. exec virt_round) 0 (print_freertos_starting (boot [])) 2 t"
    "console t = console (boot []) @ virt_console 2"
    "spins t = spins (boot []) + virt_spins 2"
    by auto
  then show ?thesis
    by (intro exI [of _ t])
      (simp add: virt_console_def virt_spins_def boot_def console_def numeral_2_eq_2)
qed

text \<open>
  C23 (termination, \<open>virt_main\<close>): the entry point never returns and never
  traps, whatever the memory holds.
\<close>

theorem virt_main_diverges: "virt_main s = None"
  by (rule virt_main_None)

text \<open>
  The string transmitter of the greeting program, which that program never
  calls, is the same function as \<open>uart_puts_safe\<close> of the two test
  programs: on every address and state both return the same state, trap at
  the same address, or run for ever.
\<close>

lemma uart_puts_eq: "uart_puts p s = uart_puts_safe p s"
proof (cases "uart_puts p s")
  case None
  then show ?thesis by (cases "uart_puts_safe p s") (auto dest: uart_puts_safe_le)
next
  case (Some r)
  then show ?thesis by (simp add: uart_puts_le)
qed

end
