(* ===== verification/Debug.thy ===== *)
theory Debug
  imports Probe Image
begin

text \<open>
  The scenario driver of \<^verbatim>\<open>minimal_main_debug.c\<close>: the four tests of
  \<open>test_memory_access_patterns\<close> (a static string through the bounded dump,
  the same string through \<open>uart_puts_safe\<close>, an array on the stack, five
  single characters), the program's \<open>delay\<close>, and \<open>main\<close> with its
  endless periodic dump of \<open>Hello from seL4!\<close>.  The stack array is the one
  place where the programs write memory; its address is a parameter \<open>sp\<close>.
  \<open>main\<close> is the list of its statements in front of the loop
  (\<open>debug_entry\<close>) followed by the loop; the progress of the loop is
  stated over the step relation \<open>rounds\<close> on its heads.
\<close>

unbundle bit_operations_syntax

section \<open>The four tests\<close>

definition test_string :: string where
  "test_string = ''Hello World Debug Test!''"

text \<open>\<^verbatim>\<open>char stack_string[] = {'H', 'e', ..., 'k', '\0'}\<close>, twelve bytes.\<close>

definition stack_string :: "u8 list" where
  "stack_string = bytes_of ''Hello Stack'' @ [0]"

definition test1 :: "layout \<Rightarrow> machine prog list" where
  "test1 L =
     [uart_puts_safe (L ''=== Test 1: Static String ===\<newline>''),
      uart_puts_debug L (L test_string)]"

definition test2 :: "layout \<Rightarrow> machine prog list" where
  "test2 L =
     [uart_puts_safe (L ''=== Test 2: Direct uart_puts ===\<newline>''),
      uart_puts_safe (L ''Before: ''),
      uart_puts_safe (L test_string),
      uart_puts_safe (L '' :After\<newline>'')]"

definition test3 :: "layout \<Rightarrow> u32 \<Rightarrow> machine prog list" where
  "test3 L sp =
     [store_bytes sp stack_string,
      uart_puts_safe (L ''=== Test 3: Stack Array ===\<newline>''),
      uart_puts_debug L sp]"

definition test4 :: "layout \<Rightarrow> machine prog list" where
  "test4 L =
     [uart_puts_safe (L ''=== Test 4: Individual Access ===\<newline>''),
      read_byte (L test_string + 0) (\<lambda>c. exec (uart_putc c)),
      read_byte (L test_string + 1) (\<lambda>c. exec (uart_putc c)),
      read_byte (L test_string + 2) (\<lambda>c. exec (uart_putc c)),
      read_byte (L test_string + 3) (\<lambda>c. exec (uart_putc c)),
      read_byte (L test_string + 4) (\<lambda>c. exec (uart_putc c)),
      uart_puts_safe (L '' <- Individual chars\<newline>'')]"

definition test_memory_access_patterns :: "layout \<Rightarrow> u32 \<Rightarrow> machine prog" where
  "test_memory_access_patterns L sp = chain (test1 L @ test2 L @ test3 L sp @ test4 L)"

text \<open>\<open>delay\<close> of this program: the inner busy-wait counts to one hundred thousand.\<close>

definition debug_delay :: "u32 \<Rightarrow> machine \<Rightarrow> machine" where
  "debug_delay count s = delay_loop 100000 count s"

section \<open>The entry point\<close>

definition hello :: string where
  "hello = ''Hello from seL4!''"

text \<open>
  The body of \<^verbatim>\<open>while (1)\<close>, run with the value of \<open>iteration\<close> after
  \<^verbatim>\<open>iteration++\<close>.  The character \<^verbatim>\<open>'0' + iteration\<close> is cut to eight bits by
  the call of \<open>uart_putc\<close>.
\<close>

definition debug_round :: "layout \<Rightarrow> int \<Rightarrow> machine prog" where
  "debug_round L iteration =
     chain [uart_puts_safe (L ''Iteration ''),
            exec (if iteration < 10 then uart_putc (48 + word_of_int iteration)
                  else uart_putc 88),
            uart_puts_safe (L '': ''),
            uart_puts_debug L (L hello),
            exec (debug_delay 1000)]"

text \<open>The statements of \<open>main\<close> in front of its loop, and \<open>main\<close>.\<close>

definition debug_entry :: "layout \<Rightarrow> u32 \<Rightarrow> machine prog list" where
  "debug_entry L sp =
     [uart_puts_safe (L ''=== seL4 Memory Access Debug Session ===\<newline>''),
      uart_puts_safe (L ''Testing capability boundary crossing...\<newline>\<newline>''),
      test_memory_access_patterns L sp,
      uart_puts_safe (L ''\<newline>=== Starting periodic tests ===\<newline>'')]"

definition debug_main :: "layout \<Rightarrow> u32 \<Rightarrow> machine prog" where
  "debug_main L sp = chain (debug_entry L sp @ [forever (debug_round L) 0])"

section \<open>Strings and texts\<close>

text \<open>The strings the tests and the entry point read, the dump's own among them.\<close>

definition patterns_lits :: "string list" where
  "patterns_lits = debug_lits @
     [''=== Test 1: Static String ===\<newline>'', ''=== Test 2: Direct uart_puts ===\<newline>'',
      ''Before: '', '' :After\<newline>'', ''=== Test 3: Stack Array ===\<newline>'',
      ''=== Test 4: Individual Access ===\<newline>'', '' <- Individual chars\<newline>'', test_string]"

definition main_lits :: "string list" where
  "main_lits = patterns_lits @
     [''=== seL4 Memory Access Debug Session ===\<newline>'',
      ''Testing capability boundary crossing...\<newline>\<newline>'',
      ''\<newline>=== Starting periodic tests ===\<newline>'', ''Iteration '', '': '', hello]"

text \<open>
  \<open>placed L sp m lits\<close>: the strings \<open>lits\<close> are in memory \<open>m\<close> where the
  layout says, the twelve bytes of the stack array are mapped, and writing
  the array overwrites none of the strings.
\<close>

definition placed :: "layout \<Rightarrow> u32 \<Rightarrow> (u32 \<Rightarrow> u8 option) \<Rightarrow> string list \<Rightarrow> bool" where
  "placed L sp m lits =
     (lits_at L m lits \<and> mapped m sp 12 \<and> lits_at L (poke m sp stack_string) lits)"

text \<open>What the four tests print, for the static string at \<open>a\<close> and the array at \<open>sp\<close>.\<close>

definition test1_text :: "u32 \<Rightarrow> u8 list" where
  "test1_text a =
     bytes_of ''=== Test 1: Static String ===\<newline>'' @ debug_line a (bytes_of test_string)"

definition test2_text :: "u8 list" where
  "test2_text =
     bytes_of ''=== Test 2: Direct uart_puts ===\<newline>'' @ bytes_of ''Before: '' @
     bytes_of test_string @ bytes_of '' :After\<newline>''"

definition test3_text :: "u32 \<Rightarrow> u8 list" where
  "test3_text sp =
     bytes_of ''=== Test 3: Stack Array ===\<newline>'' @ debug_line sp (bytes_of ''Hello Stack'')"

definition test4_text :: "u8 list" where
  "test4_text =
     bytes_of ''=== Test 4: Individual Access ===\<newline>'' @ take 5 (bytes_of test_string) @
     bytes_of '' <- Individual chars\<newline>''"

definition patterns_text :: "u32 \<Rightarrow> u32 \<Rightarrow> u8 list" where
  "patterns_text a sp = test1_text a @ test2_text @ test3_text sp @ test4_text"

text \<open>The label of a round, and the block a round prints.\<close>

definition debug_label :: "int \<Rightarrow> u8" where
  "debug_label iteration = (if iteration < 10 then 48 + word_of_int iteration else 88)"

definition debug_block :: "layout \<Rightarrow> int \<Rightarrow> u8 list" where
  "debug_block L iteration =
     bytes_of ''Iteration '' @ [debug_label iteration] @ bytes_of '': '' @
     debug_line (L hello) (bytes_of hello)"

definition debug_blocks :: "layout \<Rightarrow> nat \<Rightarrow> u8 list" where
  "debug_blocks L n = concat (map (\<lambda>j. debug_block L (int (Suc j))) [0..<n])"

definition debug_intro :: "layout \<Rightarrow> u32 \<Rightarrow> u8 list" where
  "debug_intro L sp =
     bytes_of ''=== seL4 Memory Access Debug Session ===\<newline>'' @
     bytes_of ''Testing capability boundary crossing...\<newline>\<newline>'' @
     patterns_text (L test_string) sp @
     bytes_of ''\<newline>=== Starting periodic tests ===\<newline>''"

text \<open>The state after the first \<open>n\<close> rounds.\<close>

fun debug_rounds :: "layout \<Rightarrow> nat \<Rightarrow> machine \<Rightarrow> machine" where
  "debug_rounds L 0 s = s"
| "debug_rounds L (Suc n) s =
     debug_delay 1000 (emit (debug_block L (int (Suc n))) (debug_rounds L n s))"

section \<open>A table for concrete runs\<close>

text \<open>
  The strings of the program at addresses of their own, and twelve mapped
  bytes for the stack array at \<open>0x7FF00\<close>.
\<close>

definition debug_table :: "(string \<times> u32) list" where
  "debug_table =
     [(''DEBUG: String addr=0x'', 0x8000), ('' content=['', 0x8020), (''|'', 0x8030),
      ('']\<newline>'', 0x8034),
      (''=== Test 1: Static String ===\<newline>'', 0x8040),
      (''=== Test 2: Direct uart_puts ===\<newline>'', 0x8060),
      (''Before: '', 0x8090), ('' :After\<newline>'', 0x80A0),
      (''=== Test 3: Stack Array ===\<newline>'', 0x80B0),
      (''=== Test 4: Individual Access ===\<newline>'', 0x80D0),
      ('' <- Individual chars\<newline>'', 0x8100),
      (''Hello World Debug Test!'', 0x8120),
      (''=== seL4 Memory Access Debug Session ===\<newline>'', 0x8140),
      (''Testing capability boundary crossing...\<newline>\<newline>'', 0x8170),
      (''\<newline>=== Starting periodic tests ===\<newline>'', 0x81A0),
      (''Iteration '', 0x81D0), ('': '', 0x81E0), (''Hello from seL4!'', 0x81E4)]"

definition debug_machine :: machine where
  "debug_machine = boot (segments_of debug_table @ [(0x7FF00, replicate 12 0)])"

section \<open>The dump of a string of the program\<close>

lemma uart_puts_debug_lit:
  assumes "lits_at L (mem st) debug_lits" and "lit_at L (mem st) str" and "length str \<le> 32"
  shows "uart_puts_debug L (L str) st = Some (Done (emit (debug_line (L str) (bytes_of str)) st))"
  using uart_puts_debug_cstring [OF assms(1), of "L str" "bytes_of str"] assms(2,3)
  by (simp add: lit_at_def)

lemma andthen_puts_debug_lit:
  assumes "lits_at L (mem st) debug_lits" and "lit_at L (mem st) str" and "length str \<le> 32"
  shows "andthen (uart_puts_debug L (L str)) q st = q (emit (debug_line (L str) (bytes_of str)) st)"
  by (simp add: andthen_def uart_puts_debug_lit [OF assms])

lemma length_test_string [simp]: "length test_string = 23"
  by (simp add: test_string_def)

lemma length_hello [simp]: "length hello = 16"
  by (simp add: hello_def)

lemma length_stack_string [simp]: "length stack_string = 12"
  by (simp add: stack_string_def)

lemma take_test_string: "take 5 (bytes_of test_string) = [72, 101, 108, 108, 111]"
  by (simp add: test_string_def)

lemma nth_test_string:
  "test_string ! 0 = CHR ''H''" "test_string ! Suc 0 = CHR ''e''" "test_string ! 2 = CHR ''l''"
  "test_string ! 3 = CHR ''l''" "test_string ! 4 = CHR ''o''"
  by (simp_all add: test_string_def)

lemma test_string_head:
  assumes "lit_at L m test_string"
  shows "m (L test_string) = Some 72" "m (L test_string + 1) = Some 101"
    "m (L test_string + 2) = Some 108" "m (L test_string + 3) = Some 108"
    "m (L test_string + 4) = Some 111"
proof -
  from assms have "bytes_at m (L test_string) (bytes_of test_string)"
    by (simp add: lit_at_def cstring_at_bytes)
  then have "m (L test_string + of_nat i) = Some (bytes_of test_string ! i)" if "i < 23" for i
    using that by (intro bytes_at_nth) simp_all
  from this [of 0] this [of 1] this [of 2] this [of 3] this [of 4]
  show "m (L test_string) = Some 72" "m (L test_string + 1) = Some 101"
    "m (L test_string + 2) = Some 108" "m (L test_string + 3) = Some 108"
    "m (L test_string + 4) = Some 111"
    by (simp_all add: bytes_of_def nth_test_string)
qed

section \<open>The four tests, one by one\<close>

lemma chain_test1:
  assumes "lits_at L (mem st) patterns_lits"
  shows "chain (test1 L) st = Some (Done (emit (test1_text (L test_string)) st))"
  using assms
  by (simp add: test1_def patterns_lits_def andthen_puts_lit uart_puts_debug_lit test1_text_def)

lemma chain_test2:
  assumes "lits_at L (mem st) patterns_lits"
  shows "chain (test2 L) st = Some (Done (emit test2_text st))"
  using assms
  by (simp add: test2_def patterns_lits_def andthen_puts_lit uart_puts_safe_lit test2_text_def)

lemma chain_test3:
  assumes "placed L sp (mem st) patterns_lits"
  shows "chain (test3 L sp) st =
    Some (Done (emit (test3_text sp) (st\<lparr>mem := poke (mem st) sp stack_string\<rparr>)))"
proof -
  let ?st = "st\<lparr>mem := poke (mem st) sp stack_string\<rparr>"
  from assms have stored: "store_bytes sp stack_string st = Some (Done ?st)"
    by (intro store_bytes_Done) (simp add: placed_def)
  from assms have lits: "lits_at L (mem ?st) patterns_lits"
    by (simp add: placed_def)
  have "bytes_at (mem ?st) sp stack_string"
    using bytes_at_poke [of stack_string "mem st" sp] by (simp add: stack_string_def)
  then have "cstring_at (mem ?st) sp (bytes_of ''Hello Stack'')"
    by (simp add: cstring_at_def stack_string_def)
  with lits have "uart_puts_debug L sp
      (emit (bytes_of ''=== Test 3: Stack Array ===\<newline>'') ?st) =
    Some (Done (emit (debug_line sp (bytes_of ''Hello Stack''))
      (emit (bytes_of ''=== Test 3: Stack Array ===\<newline>'') ?st)))"
    using uart_puts_debug_cstring [of L _ sp "bytes_of ''Hello Stack''"]
    by (simp add: patterns_lits_def)
  with lits show ?thesis
    by (simp add: test3_def andthen_Done [where p = "store_bytes sp stack_string", OF stored]
        patterns_lits_def andthen_puts_lit test3_text_def emit_append del: bytes_of_Cons)
qed

lemma chain_test4:
  assumes "lits_at L (mem st) patterns_lits"
  shows "chain (test4 L) st = Some (Done (emit test4_text st))"
  using assms
  by (simp add: test4_def patterns_lits_def andthen_puts_lit uart_puts_safe_lit
      andthen_read_byte_Some read_byte_Some load8_def test_string_head test4_text_def
      take_test_string exec_apply)

lemma test_memory_access_patterns_run:
  assumes "placed L sp (mem st) patterns_lits"
  shows "test_memory_access_patterns L sp st =
    Some (Done ((emit (patterns_text (L test_string) sp) st)
      \<lparr>mem := poke (mem st) sp stack_string\<rparr>))"
proof -
  from assms have lits: "lits_at L (mem st) patterns_lits"
    and lits': "lits_at L (poke (mem st) sp stack_string) patterns_lits"
    by (simp_all add: placed_def)
  have "test_memory_access_patterns L sp st =
      andthen (chain (test1 L)) (andthen (chain (test2 L))
        (andthen (chain (test3 L sp)) (chain (test4 L)))) st"
    by (simp add: test_memory_access_patterns_def chain_append)
  also have "\<dots> = andthen (chain (test3 L sp)) (chain (test4 L))
      (emit test2_text (emit (test1_text (L test_string)) st))"
    using lits by (simp add: andthen_def chain_test1 chain_test2)
  also have "\<dots> = Some (Done (emit test4_text (emit (test3_text sp)
      ((emit test2_text (emit (test1_text (L test_string)) st))
        \<lparr>mem := poke (mem st) sp stack_string\<rparr>))))"
    using assms lits' by (simp add: andthen_def chain_test3 chain_test4 placed_def)
  finally show ?thesis
    by (simp add: patterns_text_def emit_eq)
qed

section \<open>The periodic dump\<close>

lemma debug_delay_fields [simp]:
  "uart_dr (debug_delay count s) = uart_dr s"
  "mem (debug_delay count s) = mem s"
  "spins (debug_delay count s) = spins s + unat count * 100000"
  "console (debug_delay count s) = console s"
  by (simp_all add: debug_delay_def delay_loop_eq console_def)

lemma debug_round_run:
  assumes "lits_at L (mem st) main_lits"
  shows "debug_round L k st = Some (Done (debug_delay 1000 (emit (debug_block L k) st)))"
proof -
  have "(if k < 10 then uart_putc (48 + word_of_int k) else uart_putc 88) s =
      emit [debug_label k] s" for s
    by (simp add: debug_label_def)
  with assms show ?thesis
    by (simp add: debug_round_def main_lits_def patterns_lits_def andthen_puts_lit
        andthen_puts_debug_lit debug_block_def exec_apply emit_append
        del: emit_Cons bytes_of_Cons)
qed

lemma length_debug_block [simp]: "length (debug_block L k) = 74"
  by (simp add: debug_block_def debug_line_def debug_head_def length_mark4 hello_def)

lemma debug_rounds_fields [simp]:
  "mem (debug_rounds L n s) = mem s"
  "console (debug_rounds L n s) = console s @ debug_blocks L n"
  by (induction n) (simp_all add: debug_blocks_def)

lemma spins_debug_rounds [simp]: "spins (debug_rounds L n s) = spins s + n * 100740000"
  by (induction n) (simp_all add: emit_eq)

lemma rounds_debug_round:
  assumes "lits_at L (mem st) main_lits"
  shows "rounds (debug_round L) 0 st (int n) (debug_rounds L n st)"
  using rounds_steps [of n "debug_round L" 0 "\<lambda>j. debug_rounds L j st"] assms
  by (simp add: debug_round_run add.commute)

lemma placed_patterns: "placed L sp m main_lits \<Longrightarrow> placed L sp m patterns_lits"
  by (simp add: placed_def main_lits_def)

lemma debug_main_split:
  "debug_main L sp = andthen (chain (debug_entry L sp)) (forever (debug_round L) 0)"
  by (simp add: debug_main_def chain_append)

lemma debug_entry_run:
  assumes "placed L sp (mem st) main_lits"
  shows "chain (debug_entry L sp) st =
    Some (Done ((emit (debug_intro L sp) st)\<lparr>mem := poke (mem st) sp stack_string\<rparr>))"
proof -
  from assms have lits: "lits_at L (mem st) main_lits"
    and lits': "lits_at L (poke (mem st) sp stack_string) main_lits"
    by (simp_all add: placed_def)
  let ?b1 = "bytes_of ''=== seL4 Memory Access Debug Session ===\<newline>''"
  let ?b2 = "bytes_of ''Testing capability boundary crossing...\<newline>\<newline>''"
  let ?b3 = "bytes_of ''\<newline>=== Starting periodic tests ===\<newline>''"
  let ?s2 = "emit ?b2 (emit ?b1 st)"
  let ?s3 = "(emit (patterns_text (L test_string) sp) ?s2)
    \<lparr>mem := poke (mem st) sp stack_string\<rparr>"
  have pat: "test_memory_access_patterns L sp ?s2 = Some (Done ?s3)"
    using test_memory_access_patterns_run [of L sp ?s2] placed_patterns [OF assms]
    by simp
  have "chain (debug_entry L sp) st = andthen (test_memory_access_patterns L sp)
      (uart_puts_safe (L ''\<newline>=== Starting periodic tests ===\<newline>'')) ?s2"
    using lits
    by (simp add: debug_entry_def main_lits_def andthen_puts_lit del: bytes_of_Cons)
  also have "\<dots> = Some (Done (emit ?b3 ?s3))"
    using lits'
    by (simp add: andthen_Done [where p = "test_memory_access_patterns L sp", OF pat]
        main_lits_def uart_puts_safe_lit del: bytes_of_Cons)
  also have "emit ?b3 ?s3 =
      (emit (debug_intro L sp) st)\<lparr>mem := poke (mem st) sp stack_string\<rparr>"
    by (simp add: emit_eq debug_intro_def del: bytes_of_Cons)
  finally show ?thesis .
qed

lemma debug_main_intro:
  assumes "placed L sp (mem st) main_lits"
  shows "debug_main L sp st =
    forever (debug_round L) 0
      ((emit (debug_intro L sp) st)\<lparr>mem := poke (mem st) sp stack_string\<rparr>)"
  by (simp add: debug_main_split
      andthen_Done [where p = "chain (debug_entry L sp)", OF debug_entry_run [OF assms]])

text \<open>A well-formed table with twelve free bytes for the array places the program.\<close>

lemma table_placed:
  assumes "table_ok tbl" and "table_free tbl sp 12"
  shows "placed (layout_of tbl) sp (image_of (segments_of tbl @ [(sp, replicate 12 0)]))
    (map fst tbl)"
proof -
  let ?m = "image_of (segments_of tbl @ [(sp, replicate 12 0)])"
  from assms(1) have lits: "lits_at (layout_of tbl) ?m (map fst tbl)"
    by (rule table_lits)
  moreover have "mapped ?m sp 12"
    using table_mapped [OF assms(2), of "[(sp, replicate 12 0)]"]
      mapped_image_here [of 12 "replicate 12 0" sp "[]"]
    by (simp del: image_of.simps)
  moreover from lits assms(2) have "lits_at (layout_of tbl) (poke ?m sp stack_string) (map fst tbl)"
    by (intro table_poke) simp_all
  ultimately show ?thesis by (simp add: placed_def)
qed

lemma debug_placed:
  "placed (layout_of debug_table) 0x7FF00 (mem debug_machine) main_lits"
proof -
  have "table_ok debug_table" "table_free debug_table 0x7FF00 12"
    by (simp_all add: debug_table_def table_ok_def table_free_def seg_free_def)
  moreover have "map fst debug_table = main_lits"
    by (simp add: debug_table_def main_lits_def patterns_lits_def debug_lits_def
        test_string_def hello_def)
  ultimately show ?thesis
    using table_placed [of debug_table "0x7FF00"] by (simp add: debug_machine_def)
qed

lemmas debug_texts = patterns_text_def test1_text_def test2_text_def test3_text_def
  test4_text_def debug_intro_def debug_blocks_def debug_block_def debug_label_def
  test_string_def hello_def

section \<open>The driver extends the trace\<close>

lemmas tracing_intros = probing_tracing probing_read_byte probing_exec probing_uart_puts_safe
  probing_uart_puts_debug tracing_store_bytes

lemma tracing_test_memory_access_patterns: "tracing (test_memory_access_patterns L sp)"
  unfolding test_memory_access_patterns_def test1_def test2_def test3_def test4_def
  by (intro tracing_chain) (simp add: tracing_intros)

lemma tracing_debug_round: "tracing (debug_round L k)"
  unfolding debug_round_def
  by (intro tracing_chain) (simp add: tracing_intros debug_delay_def)

lemma tracing_debug_main: "tracing (debug_main L sp)"
  unfolding debug_main_def debug_entry_def
  by (intro tracing_chain)
    (simp add: tracing_intros tracing_test_memory_access_patterns tracing_forever
      tracing_debug_round)

section \<open>Properties of the scenario driver\<close>

text \<open>
  C9 (functional, \<open>test_memory_access_patterns\<close>): with the strings of the
  program in place and the stack array mapped apart from them, the four
  tests return; the console has received the four banners, the static string
  dumped with its markers, the same string between \<open>Before: \<close> and
  \<open> :After\<close>, the dump of \<open>Hello Stack\<close> at the array's address, and the
  five characters \<open>Hello\<close>; the only change to memory is the array.
\<close>

theorem test_memory_access_patterns_output:
  assumes "placed L sp (mem st) patterns_lits"
  shows "test_memory_access_patterns L sp st =
    Some (Done ((emit (patterns_text (L test_string) sp) st)
      \<lparr>mem := poke (mem st) sp stack_string\<rparr>))"
  using assms by (rule test_memory_access_patterns_run)

theorem test_memory_access_patterns_output_witness:
  "placed (layout_of debug_table) 0x7FF00 (mem debug_machine) patterns_lits \<and>
   map_option (console \<circ> state_of)
     (test_memory_access_patterns (layout_of debug_table) 0x7FF00 debug_machine) =
   Some (bytes_of
     (''=== Test 1: Static String ===\<newline>'' @
      ''DEBUG: String addr=0x00008120 content=[Hell|o Wo|rld |Debu|g Te|st!]\<newline>'' @
      ''=== Test 2: Direct uart_puts ===\<newline>'' @
      ''Before: Hello World Debug Test! :After\<newline>'' @
      ''=== Test 3: Stack Array ===\<newline>'' @
      ''DEBUG: String addr=0x0007FF00 content=[Hell|o St|ack]\<newline>'' @
      ''=== Test 4: Individual Access ===\<newline>'' @
      ''Hello <- Individual chars\<newline>''))"
proof -
  note p = placed_patterns [OF debug_placed]
  have "layout_of debug_table ''Hello World Debug Test!'' = 0x8120"
    by (simp add: layout_of_def debug_table_def)
  with test_memory_access_patterns_output [OF p] p show ?thesis
    by (simp add: debug_texts render_simps debug_machine_def)
qed

text \<open>
  C18 (liveness, \<open>debug_main\<close>): with the program in place, the statements
  of the entry point in front of its loop return, having printed the
  introduction, and the loop entered there comes to its head again and
  again: for every \<open>n\<close> it reaches its head after \<open>n\<close> rounds, and the
  state there is determined: the console holds the introduction and \<open>n\<close>
  blocks \<open>Iteration c: DEBUG: \<dots>\<close> whose labels \<open>c\<close> are \<open>1\<close> to
  \<open>9\<close> and then \<open>X\<close>, each round has taken 100740000 busy-wait
  iterations, and memory differs from the initial one in the stack array
  only.
\<close>

theorem debug_main_rounds:
  assumes "placed L sp (mem st) main_lits"
  shows "\<exists>s t. chain (debug_entry L sp) st = Some (Done s) \<and>
    rounds (debug_round L) 0 s (int n) t \<and>
    console s = console st @ debug_intro L sp \<and>
    console t = console st @ debug_intro L sp @ debug_blocks L n \<and>
    spins t = spins s + n * 100740000 \<and>
    mem t = poke (mem st) sp stack_string \<and>
    (\<forall>t'. rounds (debug_round L) 0 s (int n) t' \<longrightarrow> t' = t)"
proof -
  let ?s = "(emit (debug_intro L sp) st)\<lparr>mem := poke (mem st) sp stack_string\<rparr>"
  from assms have "lits_at L (mem ?s) main_lits" by (simp add: placed_def)
  then have "rounds (debug_round L) 0 ?s (int n) (debug_rounds L n ?s)"
    by (rule rounds_debug_round)
  moreover have "console ?s = console st @ debug_intro L sp"
    by simp
  ultimately show ?thesis
    using debug_entry_run [OF assms]
    by (intro exI [of _ ?s] exI [of _ "debug_rounds L n ?s"]) (auto intro: rounds_unique)
qed

theorem debug_main_rounds_witness:
  "placed (layout_of debug_table) 0x7FF00 (mem debug_machine) main_lits \<and>
   (\<exists>s t. chain (debug_entry (layout_of debug_table) 0x7FF00) debug_machine = Some (Done s) \<and>
        rounds (debug_round (layout_of debug_table)) 0 s 3 t \<and>
        console t = debug_intro (layout_of debug_table) 0x7FF00 @
          bytes_of
            (''Iteration 1: DEBUG: String addr=0x000081E4 content=[Hell|o fr|om s|eL4!|]\<newline>'' @
             ''Iteration 2: DEBUG: String addr=0x000081E4 content=[Hell|o fr|om s|eL4!|]\<newline>'' @
             ''Iteration 3: DEBUG: String addr=0x000081E4 content=[Hell|o fr|om s|eL4!|]\<newline>''))"
proof -
  have "layout_of debug_table ''Hello from seL4!'' = 0x81E4"
    by (simp add: layout_of_def debug_table_def)
  then have "debug_blocks (layout_of debug_table) 3 = bytes_of
      (''Iteration 1: DEBUG: String addr=0x000081E4 content=[Hell|o fr|om s|eL4!|]\<newline>'' @
       ''Iteration 2: DEBUG: String addr=0x000081E4 content=[Hell|o fr|om s|eL4!|]\<newline>'' @
       ''Iteration 3: DEBUG: String addr=0x000081E4 content=[Hell|o fr|om s|eL4!|]\<newline>'')"
    by (simp add: debug_blocks_def debug_block_def debug_label_def hello_def render_simps)
  moreover from debug_main_rounds [OF debug_placed, of 3] obtain s t where
    "chain (debug_entry (layout_of debug_table) 0x7FF00) debug_machine = Some (Done s)"
    "rounds (debug_round (layout_of debug_table)) 0 s 3 t"
    "console t = debug_intro (layout_of debug_table) 0x7FF00 @
       debug_blocks (layout_of debug_table) 3"
    by (auto simp: debug_machine_def)
  ultimately show ?thesis
    using debug_placed by (intro conjI exI [of _ s] exI [of _ t]) simp_all
qed

text \<open>
  C21 (termination, \<open>debug_main\<close>): with the program in place the entry point
  never returns and never traps: the run is infinite.
\<close>

theorem debug_main_diverges:
  assumes "placed L sp (mem st) main_lits"
  shows "debug_main L sp st = None"
proof -
  let ?s = "(emit (debug_intro L sp) st)\<lparr>mem := poke (mem st) sp stack_string\<rparr>"
  have "forever (debug_round L) 0 ?s = None"
  proof (rule forever_diverges [where I = "\<lambda>s. lits_at L (mem s) main_lits"])
    show "\<exists>t. debug_round L k s = Some (Done t) \<and> lits_at L (mem t) main_lits"
      if "lits_at L (mem s) main_lits" for k s
      using that by (simp add: debug_round_run)
    from assms show "lits_at L (mem ?s) main_lits" by (simp add: placed_def)
  qed
  with debug_main_intro [OF assms] show ?thesis by simp
qed

theorem debug_main_diverges_witness:
  "placed (layout_of debug_table) 0x7FF00 (mem debug_machine) main_lits \<and>
   debug_main (layout_of debug_table) 0x7FF00 debug_machine = None"
  using debug_main_diverges [OF debug_placed] debug_placed by simp

text \<open>Whatever the memory holds, a run of the entry point that ends, ends in a trap.\<close>

lemma debug_main_not_Done: "debug_main L sp st \<noteq> Some (Done t)"
proof
  assume "debug_main L sp st = Some (Done t)"
  then have "\<not> is_Done (Done t)"
    unfolding debug_main_split
    by (rule andthen_never_done [rotated]) (rule forever_never_done)
  then show False by simp
qed

end
