(* ===== verification/Boundaries.thy ===== *)
theory Boundaries
  imports Stride Image
begin

text \<open>
  The scenario driver of \<^verbatim>\<open>minimal_main_test_boundaries.c\<close>:
  \<open>test_4kb_boundary_crossing\<close> prints three static strings with their
  addresses and then walks the long one byte by byte;
  \<open>test_capdl_frame_pattern\<close> prints a legend and samples guest RAM at
  \<open>0x40000000\<close>; \<open>main\<close> runs both and then prints \<open>Iteration n: OK\<close> for
  ever.  The program only reads memory.  \<open>main\<close> is the list of its
  statements in front of the loop (\<open>boundaries_entry\<close>) followed by the
  loop; the progress of the loop is stated over the step relation
  \<open>rounds\<close> on its heads.
\<close>

unbundle bit_operations_syntax

section \<open>The strings under test\<close>

definition test_string_short :: string where
  "test_string_short = ''Hi''"

definition test_string_medium :: string where
  "test_string_medium = ''Hello World Test String''"

definition test_string_long :: string where
  "test_string_long =
     ''This is a very long string that definitely should cross 4KB frame '' @
     ''boundaries in the seL4 capability system and cause memory access '' @
     ''failures when FreeRTOS tries to read consecutive bytes across '' @
     ''capability boundaries''"

text \<open>The literals \<^verbatim>\<open>" = \""\<close> and \<^verbatim>\<open>"\"\n"\<close>.\<close>

definition quote_open :: string where
  "quote_open = '' = '' @ [CHR 0x22]"

definition quote_close :: string where
  "quote_close = [CHR 0x22, CHR 0x0A]"

section \<open>The boundary-crossing test\<close>

text \<open>
  The five calls that show one string (label, address, opening quote, the
  string, closing quote); the source writes them out for each of the three
  strings.
\<close>

definition show_string :: "layout \<Rightarrow> string \<Rightarrow> string \<Rightarrow> machine prog list" where
  "show_string L label str =
     [uart_puts_safe (L label),
      print_hex_addr L (L str),
      uart_puts_safe (L quote_open),
      uart_puts_safe (L str),
      uart_puts_safe (L quote_close)]"

definition crossing_head :: "layout \<Rightarrow> machine prog list" where
  "crossing_head L =
     [uart_puts_safe (L ''=== Testing 4KB Boundary Crossing ===\<newline>'')] @
     show_string L ''Short string addr: '' test_string_short @
     show_string L ''Medium string addr: '' test_string_medium @
     show_string L ''Long string addr: '' test_string_long"

definition crossing_analysis :: "layout \<Rightarrow> machine prog list" where
  "crossing_analysis L =
     [uart_puts_safe (L ''\<newline>=== Byte-by-byte Analysis ===\<newline>''),
      uart_puts_safe (L ''Long string bytes: [''),
      analysis_loop L (L test_string_long) 0,
      uart_puts_safe (L '']\<newline>'')]"

definition test_4kb_boundary_crossing :: "layout \<Rightarrow> machine prog" where
  "test_4kb_boundary_crossing L = chain (crossing_head L @ crossing_analysis L)"

section \<open>The frame-pattern test\<close>

definition test_capdl_frame_pattern :: "layout \<Rightarrow> machine prog" where
  "test_capdl_frame_pattern L =
     chain [uart_puts_safe (L ''\<newline>=== Testing CapDL Frame Pattern ===\<newline>''),
            uart_puts_safe (L ''Based on vm_minimal.cdl analysis:\<newline>''),
            uart_puts_safe (L ''- First 8 frames: 4KB each (32768->40960 offset)\<newline>''),
            uart_puts_safe (L ''- Later frames: 64KB each\<newline>''),
            uart_puts_safe (L ''- String likely in early 4KB frames\<newline>\<newline>''),
            uart_puts_safe (L ''Memory probe test:\<newline>''),
            frame_probe_loop L 0x40000000 0]"

section \<open>The entry point\<close>

text \<open>
  The body of \<^verbatim>\<open>while (1)\<close>, run with the value of \<open>iteration\<close> after
  \<^verbatim>\<open>iteration++\<close>; the delay is the busy-wait written out in \<open>main\<close>.
\<close>

definition boundaries_round :: "layout \<Rightarrow> int \<Rightarrow> machine prog" where
  "boundaries_round L iteration =
     chain [uart_puts_safe (L ''\<newline>Iteration ''),
            exec (uart_putc (48 + word_of_int (iteration smod 10))),
            uart_puts_safe (L '': ''),
            uart_puts_safe (L ''OK''),
            exec (spin_loop 0 5000000)]"

text \<open>The statements of \<open>main\<close> in front of its loop, and \<open>main\<close>.\<close>

definition boundaries_entry :: "layout \<Rightarrow> machine prog list" where
  "boundaries_entry L =
     [uart_puts_safe (L ''=== seL4 Capability Boundary Test ===\<newline>''),
      uart_puts_safe (L ''Testing memory fragmentation hypothesis\<newline>''),
      uart_puts_safe (L ''Based on CapDL spec: vm_minimal.cdl\<newline>\<newline>''),
      test_4kb_boundary_crossing L,
      test_capdl_frame_pattern L,
      uart_puts_safe (L ''\<newline>=== Test Complete ===\<newline>''),
      uart_puts_safe (L ''If string access fails mid-way, confirms\<newline>''),
      uart_puts_safe (L ''capability boundary crossing issue.\<newline>'')]"

definition boundaries_main :: "layout \<Rightarrow> machine prog" where
  "boundaries_main L = chain (boundaries_entry L @ [forever (boundaries_round L) 0])"

section \<open>Strings and texts\<close>

definition crossing_lits :: "string list" where
  "crossing_lits =
     [''=== Testing 4KB Boundary Crossing ===\<newline>'', ''0x'', quote_open, quote_close,
      ''Short string addr: '', ''Medium string addr: '', ''Long string addr: '',
      ''\<newline>=== Byte-by-byte Analysis ===\<newline>'', ''Long string bytes: ['', '']\<newline>'',
      ''\<newline>Offset '', '': '', ''|4KB|'']"

definition test_strings :: "string list" where
  "test_strings = [test_string_short, test_string_medium, test_string_long]"

definition capdl_lits :: "string list" where
  "capdl_lits =
     [''\<newline>=== Testing CapDL Frame Pattern ===\<newline>'',
      ''Based on vm_minimal.cdl analysis:\<newline>'',
      ''- First 8 frames: 4KB each (32768->40960 offset)\<newline>'',
      ''- Later frames: 64KB each\<newline>'',
      ''- String likely in early 4KB frames\<newline>\<newline>'',
      ''Memory probe test:\<newline>'',
      ''Offset '', '' '', ''| 4KB boundary |'', ''\<newline>'']"

definition entry_lits :: "string list" where
  "entry_lits =
     [''=== seL4 Capability Boundary Test ===\<newline>'',
      ''Testing memory fragmentation hypothesis\<newline>'',
      ''Based on CapDL spec: vm_minimal.cdl\<newline>\<newline>'',
      ''\<newline>=== Test Complete ===\<newline>'',
      ''If string access fails mid-way, confirms\<newline>'',
      ''capability boundary crossing issue.\<newline>'',
      ''\<newline>Iteration '', ''OK'']"

text \<open>Every string of the program, once.\<close>

definition program_lits :: "string list" where
  "program_lits = crossing_lits @ test_strings @ capdl_lits @ entry_lits"

text \<open>What showing a string prints, and the texts of the two halves of the crossing test.\<close>

definition shown :: "layout \<Rightarrow> string \<Rightarrow> string \<Rightarrow> u8 list" where
  "shown L label str =
     bytes_of label @ (bytes_of ''0x'' @ hex8 (L str)) @ bytes_of quote_open @
     bytes_of str @ bytes_of quote_close"

definition crossing_head_text :: "layout \<Rightarrow> u8 list" where
  "crossing_head_text L =
     bytes_of ''=== Testing 4KB Boundary Crossing ===\<newline>'' @
     shown L ''Short string addr: '' test_string_short @
     shown L ''Medium string addr: '' test_string_medium @
     shown L ''Long string addr: '' test_string_long"

definition analysis_part_text :: "u8 list \<Rightarrow> u8 list" where
  "analysis_part_text bs =
     bytes_of ''\<newline>=== Byte-by-byte Analysis ===\<newline>'' @
     bytes_of ''Long string bytes: ['' @
     analysis_text (take 100 bs) @
     bytes_of '']\<newline>''"

definition crossing_analysis_text :: "u8 list" where
  "crossing_analysis_text = analysis_part_text (bytes_of test_string_long)"

definition capdl_legend :: "u8 list" where
  "capdl_legend =
     bytes_of ''\<newline>=== Testing CapDL Frame Pattern ===\<newline>'' @
     bytes_of ''Based on vm_minimal.cdl analysis:\<newline>'' @
     bytes_of ''- First 8 frames: 4KB each (32768->40960 offset)\<newline>'' @
     bytes_of ''- Later frames: 64KB each\<newline>'' @
     bytes_of ''- String likely in early 4KB frames\<newline>\<newline>'' @
     bytes_of ''Memory probe test:\<newline>''"

text \<open>The label of a round, and the block a round prints.\<close>

definition boundaries_label :: "int \<Rightarrow> u8" where
  "boundaries_label iteration = 48 + word_of_int (iteration smod 10)"

definition boundaries_block :: "int \<Rightarrow> u8 list" where
  "boundaries_block iteration =
     bytes_of ''\<newline>Iteration '' @ [boundaries_label iteration] @ bytes_of '': '' @ bytes_of ''OK''"

definition boundaries_blocks :: "nat \<Rightarrow> u8 list" where
  "boundaries_blocks n = concat (map (\<lambda>j. boundaries_block (int (Suc j))) [0..<n])"

definition entry_text :: "layout \<Rightarrow> u8 list \<Rightarrow> u8 list" where
  "entry_text L bs =
     bytes_of ''=== seL4 Capability Boundary Test ===\<newline>'' @
     bytes_of ''Testing memory fragmentation hypothesis\<newline>'' @
     bytes_of ''Based on CapDL spec: vm_minimal.cdl\<newline>\<newline>'' @
     (crossing_head_text L @ crossing_analysis_text) @
     (capdl_legend @ frame_text 0 bs) @
     bytes_of ''\<newline>=== Test Complete ===\<newline>'' @
     bytes_of ''If string access fails mid-way, confirms\<newline>'' @
     bytes_of ''capability boundary crossing issue.\<newline>''"

text \<open>The state after the first \<open>n\<close> rounds.\<close>

fun boundaries_rounds :: "nat \<Rightarrow> machine \<Rightarrow> machine" where
  "boundaries_rounds 0 s = s"
| "boundaries_rounds (Suc n) s =
     spin_loop 0 5000000 (emit (boundaries_block (int (Suc n))) (boundaries_rounds n s))"

section \<open>A table for concrete runs\<close>

text \<open>
  The strings of the program at addresses of their own; the long string
  ends well inside its frame.  \<open>ram_machine\<close> has 32 bytes of guest RAM at
  \<open>0x40000000\<close>, \<open>bare_machine\<close> has none.
\<close>

definition boundaries_table :: "(string \<times> u32) list" where
  "boundaries_table =
     [(''=== Testing 4KB Boundary Crossing ===\<newline>'', 0x8000), (''0x'', 0x8030),
      (quote_open, 0x8034), (quote_close, 0x803C),
      (''Short string addr: '', 0x8040), (''Medium string addr: '', 0x8060),
      (''Long string addr: '', 0x8080),
      (''\<newline>=== Byte-by-byte Analysis ===\<newline>'', 0x80A0),
      (''Long string bytes: ['', 0x80C0), ('']\<newline>'', 0x80E0),
      (''\<newline>Offset '', 0x80E4), ('': '', 0x80F0), (''|4KB|'', 0x80F4),
      (test_string_short, 0x9000), (test_string_medium, 0x9010), (test_string_long, 0x9100),
      (''\<newline>=== Testing CapDL Frame Pattern ===\<newline>'', 0x8100),
      (''Based on vm_minimal.cdl analysis:\<newline>'', 0x8130),
      (''- First 8 frames: 4KB each (32768->40960 offset)\<newline>'', 0x8160),
      (''- Later frames: 64KB each\<newline>'', 0x81A0),
      (''- String likely in early 4KB frames\<newline>\<newline>'', 0x81C0),
      (''Memory probe test:\<newline>'', 0x81F0),
      (''Offset '', 0x8210), ('' '', 0x8218), (''| 4KB boundary |'', 0x8220),
      (''\<newline>'', 0x8234),
      (''=== seL4 Capability Boundary Test ===\<newline>'', 0x8240),
      (''Testing memory fragmentation hypothesis\<newline>'', 0x8270),
      (''Based on CapDL spec: vm_minimal.cdl\<newline>\<newline>'', 0x82A0),
      (''\<newline>=== Test Complete ===\<newline>'', 0x82D0),
      (''If string access fails mid-way, confirms\<newline>'', 0x82F0),
      (''capability boundary crossing issue.\<newline>'', 0x8320),
      (''\<newline>Iteration '', 0x8350), (''OK'', 0x8360)]"

definition ram_machine :: machine where
  "ram_machine =
     boot (segments_of boundaries_table @
       [(0x40000000, bytes_of ''0123456789ABCDEFGHIJKLMNOPQRSTUV'')])"

definition bare_machine :: machine where
  "bare_machine = boot_table boundaries_table"

section \<open>What the parts print\<close>

lemma prints_print_hex_addr:
  "lit_at L M ''0x'' \<Longrightarrow> prints M (print_hex_addr L addr) (bytes_of ''0x'' @ hex8 addr)"
  by (simp add: prints_def print_hex_addr_lit)

lemma prints_analysis_loop:
  "lits_at L M analysis_lits \<Longrightarrow> cstring_at M p bs \<Longrightarrow>
   prints M (analysis_loop L p 0) (analysis_text (take 100 bs))"
  by (simp add: prints_def analysis_loop_cstring)

lemma prints_frame_probe_loop:
  "lits_at L M frame_lits \<Longrightarrow> samples_at M base bs \<Longrightarrow> length bs = 8 \<Longrightarrow>
   prints M (frame_probe_loop L base 0) (frame_text 0 bs)"
  by (simp add: prints_def frame_probe_loop_full)

lemmas prints_intros = prints_chain_single prints_chain_Cons prints_puts_lit
  prints_print_hex_addr

lemma lits_at_subset: "lits_at L M xs \<Longrightarrow> set ys \<subseteq> set xs \<Longrightarrow> lits_at L M ys"
  by (auto simp: lits_at_def list_all_iff)

lemma program_lits_parts:
  assumes "lits_at L M program_lits"
  shows "lits_at L M crossing_lits" "lits_at L M test_strings" "lits_at L M capdl_lits"
    "lits_at L M entry_lits" "lits_at L M analysis_lits" "lits_at L M frame_lits"
proof -
  from assms show c: "lits_at L M crossing_lits" and "lits_at L M test_strings"
    and d: "lits_at L M capdl_lits" and "lits_at L M entry_lits"
    by (simp_all add: program_lits_def)
  from c show "lits_at L M analysis_lits"
    by (simp add: crossing_lits_def analysis_lits_def)
  from c d show "lits_at L M frame_lits"
    by (simp add: crossing_lits_def capdl_lits_def frame_lits_def)
qed

lemma prints_show_string:
  assumes "lits_at L M crossing_lits" and "lit_at L M label" and "lit_at L M str"
  shows "prints M (chain (show_string L label str)) (shown L label str)"
  using assms unfolding show_string_def shown_def
  by (intro prints_intros) (simp_all add: crossing_lits_def)

lemma prints_crossing_head:
  assumes "lits_at L M crossing_lits" and "lits_at L M test_strings"
  shows "prints M (chain (crossing_head L)) (crossing_head_text L)"
  using assms unfolding crossing_head_def crossing_head_text_def
  by (intro prints_chain_append prints_show_string prints_intros)
    (simp_all add: crossing_lits_def test_strings_def)

lemma prints_analysis_part:
  assumes "lits_at L M crossing_lits" and "cstring_at M (L test_string_long) bs"
  shows "prints M (chain (crossing_analysis L)) (analysis_part_text bs)"
  using assms unfolding crossing_analysis_def analysis_part_text_def
  by (intro prints_intros prints_analysis_loop)
    (simp_all add: crossing_lits_def analysis_lits_def)

lemma prints_crossing_analysis:
  assumes "lits_at L M crossing_lits" and "lit_at L M test_string_long"
  shows "prints M (chain (crossing_analysis L)) crossing_analysis_text"
  using assms by (simp add: crossing_analysis_text_def prints_analysis_part lit_at_def)

lemma prints_test_4kb_boundary_crossing:
  assumes "lits_at L M crossing_lits" and "lits_at L M test_strings"
  shows "prints M (test_4kb_boundary_crossing L) (crossing_head_text L @ crossing_analysis_text)"
  using assms unfolding test_4kb_boundary_crossing_def
  by (intro prints_chain_append prints_crossing_head prints_crossing_analysis)
    (simp_all add: test_strings_def)

lemma prints_test_capdl_frame_pattern:
  assumes "lits_at L M capdl_lits" and "lit_at L M '': ''"
    and "samples_at M 0x40000000 bs" and "length bs = 8"
  shows "prints M (test_capdl_frame_pattern L) (capdl_legend @ frame_text 0 bs)"
proof -
  from assms have "prints M (frame_probe_loop L 0x40000000 0) (frame_text 0 bs)"
    by (intro prints_frame_probe_loop) (simp_all add: capdl_lits_def frame_lits_def)
  with assms(1) have "prints M (test_capdl_frame_pattern L)
      (bytes_of ''\<newline>=== Testing CapDL Frame Pattern ===\<newline>'' @
       bytes_of ''Based on vm_minimal.cdl analysis:\<newline>'' @
       bytes_of ''- First 8 frames: 4KB each (32768->40960 offset)\<newline>'' @
       bytes_of ''- Later frames: 64KB each\<newline>'' @
       bytes_of ''- String likely in early 4KB frames\<newline>\<newline>'' @
       bytes_of ''Memory probe test:\<newline>'' @ frame_text 0 bs)"
    unfolding test_capdl_frame_pattern_def
    by (intro prints_intros) (simp_all add: capdl_lits_def)
  then show ?thesis by (simp add: capdl_legend_def del: bytes_of_Cons)
qed

lemma prints_capdl_legend:
  assumes "lits_at L M capdl_lits"
  shows "prints M
    (chain [uart_puts_safe (L ''\<newline>=== Testing CapDL Frame Pattern ===\<newline>''),
            uart_puts_safe (L ''Based on vm_minimal.cdl analysis:\<newline>''),
            uart_puts_safe (L ''- First 8 frames: 4KB each (32768->40960 offset)\<newline>''),
            uart_puts_safe (L ''- Later frames: 64KB each\<newline>''),
            uart_puts_safe (L ''- String likely in early 4KB frames\<newline>\<newline>''),
            uart_puts_safe (L ''Memory probe test:\<newline>'')]) capdl_legend"
  using assms unfolding capdl_legend_def
  by (intro prints_intros) (simp_all add: capdl_lits_def)

lemma test_capdl_frame_pattern_cut:
  assumes "lits_at L (mem st) capdl_lits" and "lit_at L (mem st) '': ''"
    and "samples_at (mem st) 0x40000000 bs" and "length bs < 8"
    and "mem st (0x40000000 + of_nat (4 * length bs)) = None"
  shows "test_capdl_frame_pattern L st =
    Some (Trap (0x40000000 + of_nat (4 * length bs))
      (emit (capdl_legend @ frame_text 0 bs @ frame_label (4 * length bs)) st))"
proof -
  let ?st = "emit capdl_legend st"
  from assms have "frame_probe_loop L 0x40000000 0 ?st =
      Some (Trap (0x40000000 + of_nat (4 * length bs))
        (emit (frame_text 0 bs @ frame_label (4 * length bs)) ?st))"
    by (intro frame_probe_loop_cut) (simp_all add: capdl_lits_def frame_lits_def)
  then show ?thesis
    using prints_chain_then [OF prints_capdl_legend [OF assms(1)], of st
        "frame_probe_loop L 0x40000000 0"]
    by (simp add: test_capdl_frame_pattern_def emit_append)
qed

section \<open>The analysis after the plain prints\<close>

lemma probing_show_string: "probing (chain (show_string L label str))"
  unfolding show_string_def by (intro probing_chain) simp

lemma probing_crossing_head: "probing (chain (crossing_head L))"
  unfolding crossing_head_def
  by (simp add: chain_append probing_andthen probing_show_string)

lemma show_string_Done:
  assumes "lits_at L (mem u) crossing_lits" and "lit_at L (mem u) label"
    and "chain (show_string L label str) u = Some (Done t)"
  shows "\<exists>bs. cstring_at (mem u) (L str) bs"
proof -
  let ?a = "bytes_of label @ (bytes_of ''0x'' @ hex8 (L str)) @ bytes_of quote_open"
  from assms(1,2) have "prints (mem u)
      (chain [uart_puts_safe (L label), print_hex_addr L (L str), uart_puts_safe (L quote_open)]) ?a"
    by (intro prints_intros) (simp_all add: crossing_lits_def)
  then have "chain ([uart_puts_safe (L label), print_hex_addr L (L str),
      uart_puts_safe (L quote_open)] @ [andthen (uart_puts_safe (L str))
        (uart_puts_safe (L quote_close))]) u =
      andthen (uart_puts_safe (L str)) (uart_puts_safe (L quote_close)) (emit ?a u)"
    by (rule prints_chain_then) simp
  with assms(3) have "andthen (uart_puts_safe (L str)) (uart_puts_safe (L quote_close))
      (emit ?a u) = Some (Done t)"
    by (simp add: show_string_def)
  then obtain v where "uart_puts_safe (L str) (emit ?a u) = Some (Done v)"
    by (rule andthen_Done_D)
  then obtain bs where "cstring_at (mem (emit ?a u)) (L str) bs"
    by (blast dest: uart_puts_safe_Done)
  then have "cstring_at (mem u) (L str) bs" by simp
  then show ?thesis ..
qed

lemma crossing_head_Done:
  assumes "lits_at L (mem st) crossing_lits" and "chain (crossing_head L) st = Some (Done t)"
  shows "mem t = mem st" and "\<exists>bs. cstring_at (mem st) (L test_string_long) bs"
proof -
  from probingD [OF probing_crossing_head assms(2)] show "mem t = mem st"
    by (simp add: probe_step_mem)
  let ?pre = "[uart_puts_safe (L ''=== Testing 4KB Boundary Crossing ===\<newline>'')] @
     show_string L ''Short string addr: '' test_string_short @
     show_string L ''Medium string addr: '' test_string_medium"
  from assms(2) have "chain (?pre @ show_string L ''Long string addr: '' test_string_long) st =
      Some (Done t)"
    by (simp add: crossing_head_def)
  then obtain u where u: "chain ?pre st = Some (Done u)"
    and long: "chain (show_string L ''Long string addr: '' test_string_long) u = Some (Done t)"
    by (rule chain_append_Done_D)
  have "probing (chain ?pre)"
    by (simp add: chain_append probing_andthen probing_show_string del: append.simps)
  from probingD [OF this u] have "mem u = mem st" by (simp add: probe_step_mem)
  with assms(1) long show "\<exists>bs. cstring_at (mem st) (L test_string_long) bs"
    using show_string_Done [of L u "''Long string addr: ''" test_string_long t]
    by (simp add: crossing_lits_def)
qed

section \<open>Rounds of the entry point\<close>

lemma boundaries_round_run:
  assumes "lits_at L (mem st) entry_lits" and "lit_at L (mem st) '': ''"
  shows "boundaries_round L k st =
    Some (Done (spin_loop 0 5000000 (emit (boundaries_block k) st)))"
  using assms
  by (simp add: boundaries_round_def entry_lits_def andthen_puts_lit uart_puts_safe_lit
      boundaries_block_def boundaries_label_def exec_apply emit_append del: bytes_of_Cons)

lemma length_boundaries_block [simp]: "length (boundaries_block k) = 16"
  by (simp add: boundaries_block_def)

lemma boundaries_rounds_fields [simp]:
  "mem (boundaries_rounds n s) = mem s"
  "console (boundaries_rounds n s) = console s @ boundaries_blocks n"
  by (induction n) (simp_all add: boundaries_blocks_def)

lemma spins_boundaries_rounds [simp]:
  "spins (boundaries_rounds n s) = spins s + n * 5160000"
  by (induction n) (simp_all add: emit_eq spin_loop_eq)

lemma rounds_boundaries_round:
  assumes "lits_at L (mem st) entry_lits" and "lit_at L (mem st) '': ''"
  shows "rounds (boundaries_round L) 0 st (int n) (boundaries_rounds n st)"
  using rounds_steps [of n "boundaries_round L" 0 "\<lambda>j. boundaries_rounds j st"] assms
  by (simp add: boundaries_round_run add.commute)

lemma boundaries_main_split:
  "boundaries_main L = andthen (chain (boundaries_entry L)) (forever (boundaries_round L) 0)"
  by (simp add: boundaries_main_def chain_append)

lemma prints_boundaries_entry:
  assumes "lits_at L (mem st) program_lits" and "samples_at (mem st) 0x40000000 bs"
    and "length bs = 8"
  shows "prints (mem st) (chain (boundaries_entry L)) (entry_text L bs)"
proof -
  note parts = program_lits_parts [OF assms(1)]
  from parts(6) have colon: "lit_at L (mem st) '': ''" by (simp add: frame_lits_def)
  show ?thesis
    unfolding entry_text_def boundaries_entry_def using parts(4) assms(2,3) colon
    by (intro prints_intros prints_test_4kb_boundary_crossing prints_test_capdl_frame_pattern
        parts(1,2,3))
      (simp_all add: entry_lits_def)
qed

lemma boundaries_main_entry:
  assumes "lits_at L (mem st) program_lits" and "samples_at (mem st) 0x40000000 bs"
    and "length bs = 8"
  shows "boundaries_main L st = forever (boundaries_round L) 0 (emit (entry_text L bs) st)"
  using prints_boundaries_entry [OF assms] by (simp add: boundaries_main_split prints_then)

lemma boundaries_main_not_Done: "boundaries_main L st \<noteq> Some (Done t)"
proof
  assume "boundaries_main L st = Some (Done t)"
  then have "\<not> is_Done (Done t)"
    unfolding boundaries_main_split
    by (rule andthen_never_done [rotated]) (rule forever_never_done)
  then show False by simp
qed

section \<open>The concrete machines\<close>

lemmas program_strings = test_string_short_def test_string_medium_def test_string_long_def
  quote_open_def quote_close_def

lemma boundaries_table_ok: "table_ok boundaries_table"
  by (simp add: boundaries_table_def table_ok_def seg_free_def program_strings)

lemma boundaries_table_keys: "map fst boundaries_table = program_lits"
  by (simp add: boundaries_table_def program_lits_def crossing_lits_def test_strings_def
      capdl_lits_def entry_lits_def)

lemma boundaries_table_free: "table_free boundaries_table 0x40000000 32"
  by (simp add: boundaries_table_def table_free_def seg_free_def program_strings)

lemma machine_lits:
  "lits_at (layout_of boundaries_table) (mem bare_machine) program_lits"
  "lits_at (layout_of boundaries_table) (mem ram_machine) program_lits"
  using table_lits [OF boundaries_table_ok, of "[]"]
    table_lits [OF boundaries_table_ok, of "[(0x40000000, bytes_of ''0123456789ABCDEFGHIJKLMNOPQRSTUV'')]"]
  by (simp_all add: boundaries_table_keys bare_machine_def boot_table_def ram_machine_def
      del: bytes_of_Cons)

lemma ram_samples: "samples_at (mem ram_machine) 0x40000000 (bytes_of ''048CGKOS'')"
proof -
  have "mem ram_machine (0x40000000 + of_nat i) =
      image_of [(0x40000000, bytes_of ''0123456789ABCDEFGHIJKLMNOPQRSTUV'')]
        (0x40000000 + of_nat i)" if "i < 32" for i
    using table_image_skip [OF boundaries_table_free that] by (simp add: ram_machine_def)
  from this [of 0] this [of 4] this [of 8] this [of 12] this [of 16] this [of 20]
    this [of 24] this [of 28]
  show ?thesis by simp
qed

lemma bare_unmapped: "mem bare_machine 0x40000000 = None"
proof -
  have "table_free boundaries_table 0x40000000 1"
    by (simp add: boundaries_table_def table_free_def seg_free_def program_strings)
  from table_unmapped [OF this, of "[]"] show ?thesis
    by (simp add: bare_machine_def boot_table_def)
qed

lemma layout_long: "layout_of boundaries_table test_string_long = 0x9100"
  by (simp add: layout_of_def boundaries_table_def program_strings)

lemma analysis_text_long:
  "crossing_analysis_text = bytes_of
     (''\<newline>=== Byte-by-byte Analysis ===\<newline>Long string bytes: ['' @
      ''\<newline>Offset 000: This is a very l\<newline>Offset 16: ong string that '' @
      ''\<newline>Offset 32: definitely shoul\<newline>Offset 48: d cross 4KB fram'' @
      ''\<newline>Offset 64: e boundaries in \<newline>Offset 80: the seL4 capabil'' @
      ''\<newline>Offset 96: ity ]\<newline>'')"
  by (simp add: crossing_analysis_text_def analysis_part_text_def test_string_long_def
      walk_simps)

section \<open>The program only reads\<close>

lemma probing_test_4kb_boundary_crossing: "probing (test_4kb_boundary_crossing L)"
  unfolding test_4kb_boundary_crossing_def crossing_analysis_def
  by (simp add: chain_append probing_andthen probing_crossing_head probing_chain
      probing_analysis_loop)

lemma probing_test_capdl_frame_pattern: "probing (test_capdl_frame_pattern L)"
  unfolding test_capdl_frame_pattern_def
  by (intro probing_chain) (simp add: probing_frame_probe_loop)

lemma probing_boundaries_round: "probing (boundaries_round L k)"
  unfolding boundaries_round_def
  by (intro probing_chain) (simp add: probing_exec)

lemma probing_boundaries_main: "probing (boundaries_main L)"
  unfolding boundaries_main_def boundaries_entry_def
  by (intro probing_chain)
    (simp add: probing_test_4kb_boundary_crossing probing_test_capdl_frame_pattern
      probing_forever probing_boundaries_round)

section \<open>Properties of the boundary test program\<close>

text \<open>
  C10 (functional, \<open>test_4kb_boundary_crossing\<close>): with the literals and the
  three test strings in place the test returns, having printed each string
  with its address and then the first 100 bytes of the long string in
  groups of sixteen; nothing else changes.
\<close>

theorem test_4kb_boundary_crossing_output:
  assumes "lits_at L (mem st) crossing_lits" and "lits_at L (mem st) test_strings"
  shows "test_4kb_boundary_crossing L st =
    Some (Done (emit (crossing_head_text L @ crossing_analysis_text) st))"
  using prints_test_4kb_boundary_crossing [OF assms] by (simp add: prints_def)

theorem test_4kb_boundary_crossing_output_witness:
  "lits_at (layout_of boundaries_table) (mem bare_machine) crossing_lits \<and>
   lits_at (layout_of boundaries_table) (mem bare_machine) test_strings \<and>
   test_4kb_boundary_crossing (layout_of boundaries_table) bare_machine =
     Some (Done (emit (crossing_head_text (layout_of boundaries_table) @ bytes_of
       (''\<newline>=== Byte-by-byte Analysis ===\<newline>Long string bytes: ['' @
        ''\<newline>Offset 000: This is a very l\<newline>Offset 16: ong string that '' @
        ''\<newline>Offset 32: definitely shoul\<newline>Offset 48: d cross 4KB fram'' @
        ''\<newline>Offset 64: e boundaries in \<newline>Offset 80: the seL4 capabil'' @
        ''\<newline>Offset 96: ity ]\<newline>'')) bare_machine))"
proof -
  note parts = program_lits_parts [OF machine_lits(1)]
  from test_4kb_boundary_crossing_output [OF parts(1,2)] parts(1,2) show ?thesis
    by (simp only: analysis_text_long simp_thms)
qed

text \<open>
  C17 (safety, \<open>test_4kb_boundary_crossing\<close>): whatever the memory holds at
  the test strings, when the three plain prints have returned, the
  byte-by-byte analysis returns too: the long string was read up to its
  terminator just before, so none of the analysis' reads can be the first
  to trap.
\<close>

theorem analysis_follows_prints:
  assumes "lits_at L (mem st) crossing_lits" and "chain (crossing_head L) st = Some (Done t)"
  shows "\<exists>bs. cstring_at (mem st) (L test_string_long) bs \<and>
    chain (crossing_analysis L) t = Some (Done (emit (analysis_part_text bs) t))"
proof -
  from crossing_head_Done [OF assms] obtain bs
    where mem: "mem t = mem st" and bs: "cstring_at (mem st) (L test_string_long) bs"
    by blast
  from assms(1) bs have "prints (mem st) (chain (crossing_analysis L)) (analysis_part_text bs)"
    by (rule prints_analysis_part)
  with mem bs show ?thesis by (auto dest: printsD)
qed

theorem analysis_follows_prints_witness:
  "lits_at (layout_of boundaries_table) (mem bare_machine) crossing_lits \<and>
   chain (crossing_head (layout_of boundaries_table)) bare_machine =
     Some (Done (emit (crossing_head_text (layout_of boundaries_table)) bare_machine)) \<and>
   (\<exists>bs. cstring_at (mem bare_machine) 0x9100 bs \<and>
     chain (crossing_analysis (layout_of boundaries_table))
       (emit (crossing_head_text (layout_of boundaries_table)) bare_machine) =
     Some (Done (emit (analysis_part_text bs)
       (emit (crossing_head_text (layout_of boundaries_table)) bare_machine))))"
proof -
  note parts = program_lits_parts [OF machine_lits(1)]
  have head: "chain (crossing_head (layout_of boundaries_table)) bare_machine =
      Some (Done (emit (crossing_head_text (layout_of boundaries_table)) bare_machine))"
    using prints_crossing_head [OF parts(1,2)] by (simp add: prints_def)
  from analysis_follows_prints [OF parts(1) head] parts(1) head show ?thesis
    by (simp add: layout_long)
qed

text \<open>
  C16 (error, \<open>test_capdl_frame_pattern\<close>): when the first \<open>n < 8\<close> samples
  of guest RAM can be read and the next one is unmapped, the test traps at
  \<open>0x40000000 + 4 * n\<close>; the console holds the legend, \<open>n\<close> complete
  lines and the label of the faulting offset.  On a machine without guest
  RAM the trace ends with \<open>Offset 000: \<close>.
\<close>

theorem test_capdl_frame_pattern_traps:
  assumes "lits_at L (mem st) capdl_lits" and "lit_at L (mem st) '': ''"
    and "samples_at (mem st) 0x40000000 bs" and "length bs < 8"
    and "mem st (0x40000000 + of_nat (4 * length bs)) = None"
  shows "test_capdl_frame_pattern L st =
    Some (Trap (0x40000000 + of_nat (4 * length bs))
      (emit (capdl_legend @ frame_text 0 bs @ frame_label (4 * length bs)) st))"
  using assms by (rule test_capdl_frame_pattern_cut)

theorem test_capdl_frame_pattern_traps_witness:
  "lits_at (layout_of boundaries_table) (mem bare_machine) capdl_lits \<and>
   lit_at (layout_of boundaries_table) (mem bare_machine) '': '' \<and>
   samples_at (mem bare_machine) 0x40000000 [] \<and> length ([] :: u8 list) < 8 \<and>
   mem bare_machine (0x40000000 + of_nat (4 * length ([] :: u8 list))) = None \<and>
   test_capdl_frame_pattern (layout_of boundaries_table) bare_machine =
     Some (Trap 0x40000000 (emit (capdl_legend @ bytes_of ''Offset 000: '') bare_machine))"
proof -
  note parts = program_lits_parts [OF machine_lits(1)]
  from parts(6) have colon: "lit_at (layout_of boundaries_table) (mem bare_machine) '': ''"
    by (simp add: frame_lits_def)
  from test_capdl_frame_pattern_traps [OF parts(3) colon, of "[]"] parts(3) colon bare_unmapped
  show ?thesis by (simp add: walk_simps)
qed

text \<open>
  C19 (liveness, \<open>boundaries_main\<close>): with the program's strings in place and
  the eight samples of guest RAM readable, the statements of the entry
  point in front of its loop return, having printed the report, and the
  loop entered there comes to its head again and again: for every \<open>n\<close> it
  reaches its head after \<open>n\<close> rounds, and the state there is determined:
  the console holds the report and \<open>n\<close> lines \<open>Iteration d: OK\<close>, where
  \<open>d\<close> is the last decimal digit of the round number, each round has
  taken 5160000 busy-wait iterations, and memory is unchanged.
\<close>

theorem boundaries_main_rounds:
  assumes "lits_at L (mem st) program_lits" and "samples_at (mem st) 0x40000000 bs"
    and "length bs = 8"
  shows "\<exists>s t. chain (boundaries_entry L) st = Some (Done s) \<and>
    rounds (boundaries_round L) 0 s (int n) t \<and>
    console s = console st @ entry_text L bs \<and>
    console t = console st @ entry_text L bs @ boundaries_blocks n \<and>
    spins t = spins s + n * 5160000 \<and> mem t = mem st \<and>
    (\<forall>t'. rounds (boundaries_round L) 0 s (int n) t' \<longrightarrow> t' = t)"
proof -
  let ?s = "emit (entry_text L bs) st"
  note parts = program_lits_parts [OF assms(1)]
  from parts(4,6) have "rounds (boundaries_round L) 0 ?s (int n) (boundaries_rounds n ?s)"
    by (intro rounds_boundaries_round) (simp_all add: frame_lits_def)
  moreover have "chain (boundaries_entry L) st = Some (Done ?s)"
    using prints_boundaries_entry [OF assms] by (simp add: prints_def)
  ultimately show ?thesis
    by (intro exI [of _ ?s] exI [of _ "boundaries_rounds n ?s"]) (auto intro: rounds_unique)
qed

theorem boundaries_main_rounds_witness:
  "lits_at (layout_of boundaries_table) (mem ram_machine) program_lits \<and>
   samples_at (mem ram_machine) 0x40000000 (bytes_of ''048CGKOS'') \<and>
   length (bytes_of ''048CGKOS'') = 8 \<and>
   (\<exists>s t. chain (boundaries_entry (layout_of boundaries_table)) ram_machine = Some (Done s) \<and>
        rounds (boundaries_round (layout_of boundaries_table)) 0 s 11 t \<and>
        console t = entry_text (layout_of boundaries_table) (bytes_of ''048CGKOS'') @
          bytes_of
            (''\<newline>Iteration 1: OK\<newline>Iteration 2: OK\<newline>Iteration 3: OK'' @
             ''\<newline>Iteration 4: OK\<newline>Iteration 5: OK\<newline>Iteration 6: OK'' @
             ''\<newline>Iteration 7: OK\<newline>Iteration 8: OK\<newline>Iteration 9: OK'' @
             ''\<newline>Iteration 0: OK\<newline>Iteration 1: OK''))"
proof -
  have "boundaries_blocks 11 = bytes_of
            (''\<newline>Iteration 1: OK\<newline>Iteration 2: OK\<newline>Iteration 3: OK'' @
             ''\<newline>Iteration 4: OK\<newline>Iteration 5: OK\<newline>Iteration 6: OK'' @
             ''\<newline>Iteration 7: OK\<newline>Iteration 8: OK\<newline>Iteration 9: OK'' @
             ''\<newline>Iteration 0: OK\<newline>Iteration 1: OK'')"
    by (simp add: boundaries_blocks_def boundaries_block_def boundaries_label_def upt_rec
        smod_nonneg)
  moreover from boundaries_main_rounds [OF machine_lits(2) ram_samples, of 11]
  obtain s t where
    "chain (boundaries_entry (layout_of boundaries_table)) ram_machine = Some (Done s)"
    "rounds (boundaries_round (layout_of boundaries_table)) 0 s 11 t"
    "console t = entry_text (layout_of boundaries_table) (bytes_of ''048CGKOS'') @
       boundaries_blocks 11"
    by (auto simp: ram_machine_def)
  ultimately show ?thesis
    using machine_lits(2) ram_samples by (intro conjI exI [of _ s] exI [of _ t]) simp_all
qed

text \<open>
  C22 (termination, \<open>boundaries_main\<close>): with the program's strings in place
  and guest RAM readable the entry point never returns and never traps.
\<close>

theorem boundaries_main_diverges:
  assumes "lits_at L (mem st) program_lits" and "samples_at (mem st) 0x40000000 bs"
    and "length bs = 8"
  shows "boundaries_main L st = None"
proof -
  note parts = program_lits_parts [OF assms(1)]
  let ?I = "\<lambda>s. lits_at L (mem s) entry_lits \<and> lit_at L (mem s) '': ''"
  have "forever (boundaries_round L) 0 (emit (entry_text L bs) st) = None"
  proof (rule forever_diverges [where I = ?I])
    show "\<exists>t. boundaries_round L k s = Some (Done t) \<and> ?I t" if "?I s" for k s
      using that by (simp add: boundaries_round_run)
    from parts(4,6) show "?I (emit (entry_text L bs) st)" by (simp add: frame_lits_def)
  qed
  with boundaries_main_entry [OF assms] show ?thesis by simp
qed

theorem boundaries_main_diverges_witness:
  "lits_at (layout_of boundaries_table) (mem ram_machine) program_lits \<and>
   samples_at (mem ram_machine) 0x40000000 (bytes_of ''048CGKOS'') \<and>
   length (bytes_of ''048CGKOS'') = 8 \<and>
   boundaries_main (layout_of boundaries_table) ram_machine = None"
  using boundaries_main_diverges [OF machine_lits(2) ram_samples] machine_lits(2) ram_samples
  by simp

end
