(* ===== verification/Spec2Isabelle.thy ===== *)
theory Spec2Isabelle
  imports Prelude Machine Image Uart Formatter Probe Stride Virt Debug Boundaries
begin

text \<open>
  \<^bold>\<open>Verification of the capability-boundary diagnostic harness\<close>
  (\<^verbatim>\<open>src/qemu-arm-virt/freertos_build\<close>).

  The repository holds three bare-metal programs for a 32-bit ARM guest.  Each
  polls a memory-mapped UART and prints a trace; two of them walk strings in
  guest memory byte by byte to find out where a read across a frame boundary
  fails.  The programs share no object code, but they share their UART
  driver source, so the development models the driver once.

  \<^bold>\<open>Parts of the program and where they are modelled\<close>

  \<^item> \<^emph>\<open>Sequencing\<close> (theory \<open>Prelude\<close>): \<open>result\<close>, \<open>andthen\<close>, \<open>chain\<close>
    compose C statements so that a trap or a non-returning call ends the
    sequence; \<open>forever\<close> is \<^verbatim>\<open>while (1)\<close> with a round counter, and
    \<open>rounds\<close> is the same loop as an inductive step relation on its
    heads.  The lemmas are the monad laws, preservation of a property
    through a sequence, and for \<open>forever\<close> an induction over a run that
    ends, a divergence criterion, and the agreement of the loop with its
    step relation: rounds that return lead from head to head
    (\<open>rounds_steps\<close>), the counter determines the state at a head
    (\<open>rounds_unique\<close>), a run that ends has trapped in the round after a
    head (\<open>forever_trap_rounds\<close>), and invariants at the heads are proved
    by rule induction (\<open>rounds_invariant\<close>).
  \<^item> \<^emph>\<open>Machine\<close> (theory \<open>Machine\<close>): the record \<open>machine\<close> holds the log of
    stores to \<^verbatim>\<open>UART0_DR\<close>, the count of busy-wait iterations and the guest
    memory \<open>u32 \<Rightarrow> u8 option\<close>.  An unmapped address is \<open>None\<close>; a load from
    it ends the run with \<open>Trap\<close> and the state at that moment, which is what
    the operator sees on the serial line.  \<open>cstring_at\<close> and \<open>cut_at\<close> say
    that a terminated, respectively a truncated, string lies at an address;
    \<open>store_bytes\<close> is the initialisation of a local array.  The invariant
    \<open>wf_machine\<close> says that the log holds zero-extended characters only and
    that every store was paid for with its settle delay; \<open>extends\<close> is the
    step relation that keeps it.  \<open>tracing\<close> (every run extends the
    state), \<open>probing\<close> (it also leaves memory unchanged) and \<open>returns_on\<close>
    are proved once per primitive and inherited by sequences and loops.
  \<^item> \<^emph>\<open>Memory images\<close> (theory \<open>Image\<close>): a string table that satisfies the
    executable predicate \<open>table_ok\<close> places all its strings in the booted
    machine (\<open>table_lits\<close>); the concrete machines of the witnesses are
    built this way.
  \<^item> \<^emph>\<open>UART driver\<close> (theory \<open>Uart\<close>): \<open>uart_putc\<close>, \<open>uart_puts_safe\<close>,
    \<open>spin_loop\<close>, \<open>delay_loop\<close> from \<^verbatim>\<open>minimal_main_debug.c\<close> lines 5-16 and
    71-75 (the same text stands in the other two files).  The lemmas give
    the exact effect of each on the machine, the two ways a string walk ends
    and the condition under which it ends at all; \<open>prints\<close> is the
    compositional form of "returns having sent this text".
  \<^item> \<^emph>\<open>Text and hex formatter\<close> (theory \<open>Formatter\<close>): the hexadecimal loop
    of \<open>uart_puts_debug\<close> and \<open>print_hex_addr\<close>, and the two decimal offset
    labels of \<^verbatim>\<open>minimal_main_test_boundaries.c\<close>, with a round trip through
    \<open>parse_hex\<close> and the comparison with the three-digit format \<open>dec3\<close> of
    the specification.
  \<^item> \<^emph>\<open>Boundary probe engine\<close> (theories \<open>Probe\<close> and \<open>Stride\<close>):
    \<open>uart_puts_debug\<close> with its walk \<open>debug_loop\<close> (cap 32, a marker after
    every fourth byte), the byte-by-byte \<open>analysis_loop\<close> (cap 100, a label
    every sixteen bytes) and \<open>frame_probe_loop\<close> (eight samples, four bytes
    apart).  Each walk is characterised when the string is terminated, when
    it is cut by an unmapped address, and when the cap stops it, and, in
    one equation for every memory, as a function of the scan of the region
    (\<open>debug_loop_scan\<close>, \<open>uart_puts_debug_scan\<close>, \<open>analysis_loop_scan\<close>,
    \<open>frame_probe_loop_sample\<close>); each walk returns on every memory and
    only reads; the dump of \<open>uart_puts_debug\<close> adds at most 81 characters
    to the console; the 4096-byte tests of the two stride walks are shown
    to be unreachable.
  \<^item> \<^emph>\<open>Scenario drivers\<close> (theories \<open>Virt\<close>, \<open>Debug\<close>, \<open>Boundaries\<close>): the
    functions \<open>print_freertos_starting\<close>, \<open>print_hello_message\<close>,
    \<open>test_memory_access_patterns\<close>, \<open>test_4kb_boundary_crossing\<close>,
    \<open>test_capdl_frame_pattern\<close> and the three \<open>main\<close> functions
    (\<open>virt_main\<close>, \<open>debug_main\<close>, \<open>boundaries_main\<close>).  An entry point
    is the list of its statements in front of the loop (\<open>debug_entry\<close>,
    \<open>boundaries_entry\<close>) followed by \<open>forever\<close>.  For each entry point
    the lemmas give the text these statements print, and that the run never
    returns.  Progress of the periodic loop is stated over the step
    relation \<open>rounds\<close>, not over the value of the diverging run (which is
    \<open>None\<close> and tells nothing): the head after \<open>n\<close> rounds is reached,
    and the state there (console, busy-wait count, memory) is determined.
  \<^item> \<^emph>\<open>Across the parts\<close> (this theory): \<open>probe_result\<close> is the
    specification's sequence of tuples (offset, byte, crossed boundary) of
    a probe.  Together with the scans of memory (\<open>scan\<close> in \<open>Machine\<close>,
    \<open>sample\<close> in \<open>Stride\<close>: what a region holds up to the terminator,
    the cap or the first unmapped address) it is the abstract side of the
    refinement theorem, which gives the result of each of the three probes
    on every memory.  The machine invariant holds along every run of the
    driver and of the programs; no entry point returns; the two periodic
    loops label their rounds differently from round ten on.

  \<^bold>\<open>Conventions\<close>

  \<^item> C \<open>char\<close> is a byte \<open>u8\<close>; the store \<^verbatim>\<open>UART0_DR = c\<close> zero-extends it,
    as the ARM procedure call standard (unsigned plain \<open>char\<close>) prescribes.
  \<^item> A string literal \<open>"abc"\<close> of the source is the address \<open>L ''abc''\<close>, where
    \<open>L\<close> is the linker's placement of literals; theorems about output assume
    that the literals they name are in place (\<open>lit_at\<close>, \<open>lits_at\<close>).  The
    static arrays of the test functions are placed by \<open>L\<close> as well.
  \<^item> Loop counters whose values stay far below \<open>2^31\<close> are \<open>int\<close>; pointers
    and the \<open>unsigned\<close> delay count are \<open>u32\<close> and wrap.  C's \<open>/\<close> and \<open>%\<close>
    on \<open>int\<close> are \<open>sdiv\<close> and \<open>smod\<close>.
  \<^item> The round counter \<open>iteration\<close> of the periodic loops is an unbounded
    \<open>int\<close>.  In C it overflows after \<open>2^31 - 1\<close> rounds, which is undefined
    behaviour; a round takes at least five million busy-wait iterations, so
    the model covers every run that can be observed.
  \<^item> The string walk of \<open>uart_puts_safe\<close> and the periodic loops have no
    bound in the source.  They are \<open>partial_function\<close>s in the option
    monad: \<open>None\<close> is the run that never returns.  That a walk returns is
    stated as such (\<open>uart_puts_safe_returns\<close>, \<open>walks_return\<close>); that an
    entry point does not is stated as \<open>None\<close> (\<open>virt_main_diverges\<close>,
    \<open>debug_main_diverges\<close>, \<open>boundaries_main_diverges\<close>), and its progress
    as reachability of the loop head after \<open>n\<close> rounds in \<open>rounds\<close>
    (\<open>virt_main_rounds\<close>, \<open>debug_main_rounds\<close>,
    \<open>boundaries_main_rounds\<close>).  No fuel is used anywhere.
  \<^item> The bounded walks are \<open>function\<close>s with measures \<open>32 - i\<close>, \<open>100 - i\<close>
    and \<open>32 - offset\<close>, the bounds of the source.

  \<^bold>\<open>Not modelled\<close>

  Linker script, start-up code and the hypervisor: the model starts at
  \<open>main\<close> with memory already loaded (\<open>boot\<close>).  Wall-clock time: only the
  number of busy-wait iterations is counted.  The register \<^verbatim>\<open>UART0_FR\<close> is
  defined by the sources and never read, so the model gives it no behaviour.
  The stack frame of \<open>test_memory_access_patterns\<close> is reduced to the address
  of its one array.  The other stack locals are not part of \<open>mem\<close>: the
  \<^verbatim>\<open>volatile\<close> loop counters of the busy-wait loops and the \<^verbatim>\<open>volatile char
  test_byte\<close> of the frame probe are stored to the stack and reloaded by the
  compiled code, and the model keeps their values only.  "Memory
  unchanged" in the lemmas therefore means the memory the programs address
  through pointers, and no claim is made about a fault of the stack itself.
  The store to the UART register cannot trap in the model.  The half of
  \<open>wf_machine\<close> that bounds the logged values by 256 rests on the
  zero-extension of \<open>char\<close>; the half that accounts for the settle delays
  depends on the code of \<open>uart_putc\<close>.
\<close>

section \<open>The specification's probe result\<close>

text \<open>
  The specification describes a probe of a region as a sequence of tuples
  (offset, byte, crossed boundary) that is formatted as it is produced: the
  walk reads one byte per step of \<open>k\<close> bytes, and a step crosses a
  boundary when \<open>(offset + k) mod stride = 0\<close>.  \<open>probe_result\<close> is that
  sequence for the bytes that the scan of the region (\<open>scan\<close> for the
  two string walks, \<open>sample\<close> for the frame probe) reports;
  \<open>render_dump\<close>, \<open>render_analysis\<close> and \<open>render_frame\<close> format one
  tuple the way the bounded dump, the byte-by-byte analysis and the frame
  probe print it.
\<close>

fun probe_result :: "nat \<Rightarrow> nat \<Rightarrow> nat \<Rightarrow> u8 list \<Rightarrow> (nat \<times> u8 \<times> bool) list" where
  "probe_result stride k off [] = []"
| "probe_result stride k off (b # bs) =
     (off, b, (off + k) mod stride = 0) # probe_result stride k (off + k) bs"

fun render_dump :: "nat \<times> u8 \<times> bool \<Rightarrow> u8 list" where
  "render_dump (off, b, crossed) = b # (if crossed then bytes_of ''|'' else [])"

fun render_analysis :: "nat \<times> u8 \<times> bool \<Rightarrow> u8 list" where
  "render_analysis (off, b, crossed) =
     analysis_label off @ b # (if crossed then bytes_of ''|4KB|'' else [])"

fun render_frame :: "nat \<times> u8 \<times> bool \<Rightarrow> u8 list" where
  "render_frame (off, b, crossed) =
     frame_label off @ [sample_char b] @ bytes_of '' '' @
     (if crossed then bytes_of ''| 4KB boundary |'' else []) @ bytes_of ''\<newline>''"

lemma probe_result_offsets:
  "map fst (probe_result stride k off bs) = map (\<lambda>j. off + j * k) [0..<length bs]"
proof (induction bs arbitrary: off)
  case Nil
  show ?case by simp
next
  case (Cons b bs)
  have "map (\<lambda>j. off + j * k) [0..<length (b # bs)] =
      off # map (\<lambda>j. off + Suc j * k) [0..<length bs]"
    by (simp add: upt_conv_Cons map_Suc_upt [symmetric] del: upt_Suc)
  with Cons.IH [of "off + k"] show ?case by (simp add: ac_simps)
qed

lemma probe_result_bytes: "map (fst \<circ> snd) (probe_result stride k off bs) = bs"
  by (induction bs arbitrary: off) simp_all

lemma probe_result_crossed:
  "map fst (filter (snd \<circ> snd) (probe_result stride k 0 bs)) = boundary_steps stride k (length bs)"
proof -
  have "filter (snd \<circ> snd) (probe_result stride k off bs) =
      filter (\<lambda>t. (fst t + k) mod stride = 0) (probe_result stride k off bs)" for off
    by (induction bs arbitrary: off) simp_all
  then have "map fst (filter (snd \<circ> snd) (probe_result stride k 0 bs)) =
      filter (\<lambda>off. (off + k) mod stride = 0) (map fst (probe_result stride k 0 bs))"
    by (simp add: filter_map comp_def)
  then show ?thesis by (simp add: probe_result_offsets boundary_steps_def)
qed

lemma mark4_probe_result: "mark4 i bs = concat (map render_dump (probe_result 4 1 i bs))"
  by (induction bs arbitrary: i) simp_all

lemma walk_text_probe_result:
  "walk_text analysis_round i bs = concat (map render_analysis (probe_result 4096 1 i bs))"
  by (induction bs arbitrary: i) (simp_all add: analysis_round_def analysis_mark_def)

lemma frame_text_probe_result:
  "frame_text off bs = concat (map render_frame (probe_result 4096 4 off bs))"
  by (induction bs arbitrary: off) (simp_all add: frame_line_def)

section \<open>Properties that span components\<close>

text \<open>
  The transmit log of a booted machine after a string has been sent holds
  exactly the string's bytes.
\<close>

lemma boot_puts_console:
  assumes "cstring_at (image_of segs) p bs"
  shows "map_option (console \<circ> state_of) (uart_puts_safe p (boot segs)) = Some bs"
  using assms by (simp add: uart_puts_safe_cstring)

text \<open>
  C25 (refinement, probe engine): on every memory each of the three probes
  implements the specification's probe of its region.  The bounded dump
  and the byte-by-byte analysis read what the scan of the string reports
  (up to the first NUL byte, the cap of 32 respectively 100 bytes, or the
  first unmapped address), the frame probe what the word walk of eight
  steps reports; each prints the tuples of the probe result one by one, in
  the order of the offsets, and ends as the scan ends: it returns when the
  scan met the terminator or the cap, and traps at the address of the fault
  otherwise, the dump then without its closing bracket and the frame probe
  with the label of the faulting offset.  The tuples carry the offsets
  \<open>0, k, 2k, \<dots>\<close>, the bytes read, and the boundary flag, which is set
  exactly at the steps the specification counts.
\<close>

theorem probe_result_refinement:
  "(lits_at L (mem st) debug_lits \<longrightarrow>
      uart_puts_debug L s st =
        (case scan (mem st) s 32 of (bs, e) \<Rightarrow>
           Some (finish e (emit
             (bytes_of ''DEBUG: String addr=0x'' @ hex8 s @ bytes_of '' content=['' @
              concat (map render_dump (probe_result 4 1 0 bs)) @
              (case e of Fault a \<Rightarrow> [] | _ \<Rightarrow> bytes_of '']\<newline>'')) st)))) \<and>
   (lits_at L (mem st) analysis_lits \<longrightarrow>
      analysis_loop L p 0 st =
        (case scan (mem st) p 100 of (bs, e) \<Rightarrow>
           Some (finish e (emit (concat (map render_analysis (probe_result 4096 1 0 bs))) st)))) \<and>
   (lits_at L (mem st) frame_lits \<longrightarrow>
      frame_probe_loop L base 0 st =
        (case sample (mem st) base 8 of (bs, e) \<Rightarrow>
           Some (finish e (emit
             (concat (map render_frame (probe_result 4096 4 0 bs)) @
              (case e of Fault a \<Rightarrow> frame_label (4 * length bs) | _ \<Rightarrow> [])) st)))) \<and>
   map fst (probe_result stride k 0 xs) = map (\<lambda>j. j * k) [0..<length xs] \<and>
   map (fst \<circ> snd) (probe_result stride k 0 xs) = xs \<and>
   map fst (filter (snd \<circ> snd) (probe_result stride k 0 xs)) =
     boundary_steps stride k (length xs)"
proof -
  have "uart_puts_debug L s st =
        (case scan (mem st) s 32 of (bs, e) \<Rightarrow>
           Some (finish e (emit
             (bytes_of ''DEBUG: String addr=0x'' @ hex8 s @ bytes_of '' content=['' @
              concat (map render_dump (probe_result 4 1 0 bs)) @
              (case e of Fault a \<Rightarrow> [] | _ \<Rightarrow> bytes_of '']\<newline>'')) st)))"
    if "lits_at L (mem st) debug_lits"
    using uart_puts_debug_scan [OF that, of s]
    by (simp add: mark4_probe_result debug_line_def debug_head_def
        split: prod.splits ending.splits)
  moreover have "analysis_loop L p 0 st =
        (case scan (mem st) p 100 of (bs, e) \<Rightarrow>
           Some (finish e (emit (concat (map render_analysis (probe_result 4096 1 0 bs))) st)))"
    if "lits_at L (mem st) analysis_lits"
    using analysis_loop_scan [OF that, of p]
    by (simp add: walk_text_probe_result analysis_text_def)
  moreover have "frame_probe_loop L base 0 st =
        (case sample (mem st) base 8 of (bs, e) \<Rightarrow>
           Some (finish e (emit
             (concat (map render_frame (probe_result 4096 4 0 bs)) @
              (case e of Fault a \<Rightarrow> frame_label (4 * length bs) | _ \<Rightarrow> [])) st)))"
    if "lits_at L (mem st) frame_lits"
    using frame_probe_loop_sample [OF that, of base]
    by (simp add: frame_text_probe_result split: prod.splits ending.splits)
  ultimately show ?thesis
    using probe_result_offsets [of stride k 0 xs]
    by (simp add: probe_result_bytes probe_result_crossed)
qed

theorem probe_result_refinement_witness:
  "lits_at (layout_of demo_table) (mem cut_machine) debug_lits \<and>
   scan (mem cut_machine) 0x40000FFA 32 = (bytes_of ''Hello '', Fault 0x40001000) \<and>
   uart_puts_debug (layout_of demo_table) 0x40000FFA cut_machine =
     Some (Trap 0x40001000
       (emit (bytes_of ''DEBUG: String addr=0x40000FFA content=[Hell|o '') cut_machine))"
proof -
  have "cut_at (mem cut_machine) 0x40000FFA (bytes_of ''Hello '')"
    by (simp add: demo_simps)
  then have "scan (mem cut_machine) 0x40000FFA 32 = (bytes_of ''Hello '', Fault 0x40001000)"
    by (simp add: scan_Fault)
  with probe_result_refinement [where L = "layout_of demo_table" and st = cut_machine
      and s = "0x40000FFA"] cut_lits
  show ?thesis by (simp add: render_simps)
qed

text \<open>
  C11 (invariant, programs): the invariant of the machine (only
  zero-extended characters were stored to the data register, and each was
  followed by its settle delay of 10000 iterations) is kept by every run of
  the dump, of the two walks, of the three test functions, of a round of
  each periodic loop and of the entry points, however the run ends, and it
  holds at every head a periodic loop reaches; what was on the serial line
  stays in front of what a run adds, and the boundary test program and the
  greeting program leave memory as it was.
\<close>

theorem machine_invariant:
  "wf_machine st \<longrightarrow>
     (uart_puts_debug L p st = Some r \<longrightarrow> wf_machine (state_of r)) \<and>
     (analysis_loop L p i st = Some r \<longrightarrow> wf_machine (state_of r)) \<and>
     (frame_probe_loop L base offset st = Some r \<longrightarrow> wf_machine (state_of r)) \<and>
     (test_memory_access_patterns L sp st = Some r \<longrightarrow> wf_machine (state_of r)) \<and>
     (test_4kb_boundary_crossing L st = Some r \<longrightarrow> wf_machine (state_of r)) \<and>
     (test_capdl_frame_pattern L st = Some r \<longrightarrow> wf_machine (state_of r)) \<and>
     (debug_round L k st = Some r \<longrightarrow> wf_machine (state_of r)) \<and>
     (boundaries_round L k st = Some r \<longrightarrow> wf_machine (state_of r)) \<and>
     wf_machine (virt_round st) \<and> wf_machine (print_freertos_starting st) \<and>
     (debug_main L sp st = Some r \<longrightarrow>
        wf_machine (state_of r) \<and> prefix (console st) (console (state_of r))) \<and>
     (boundaries_main L st = Some r \<longrightarrow>
        wf_machine (state_of r) \<and> prefix (console st) (console (state_of r)) \<and>
        mem (state_of r) = mem st) \<and>
     (rounds (debug_round L) k st j t \<longrightarrow>
        wf_machine t \<and> prefix (console st) (console t)) \<and>
     (rounds (boundaries_round L) k st j t \<longrightarrow>
        wf_machine t \<and> prefix (console st) (console t) \<and> mem t = mem st) \<and>
     (rounds (\<lambda>iteration. exec virt_round) k st j t \<longrightarrow>
        wf_machine t \<and> prefix (console st) (console t) \<and> mem t = mem st)"
proof -
  note P = probing_keeps [of _ st r] and T = tracing_keeps [of _ st r]
    and R = probing_rounds_keeps [of _ st k j t]
  show ?thesis
    using P [OF probing_uart_puts_debug [of L p]] P [OF probing_analysis_loop [of L p i]]
      P [OF probing_frame_probe_loop [of L base offset]]
      P [OF probing_test_4kb_boundary_crossing [of L]]
      P [OF probing_test_capdl_frame_pattern [of L]]
      P [OF probing_boundaries_round [of L k]] P [OF probing_boundaries_main [of L]]
      T [OF tracing_test_memory_access_patterns [of L sp]] T [OF tracing_debug_round [of L k]]
      T [OF tracing_debug_main [of L sp]]
      wf_probe_step [OF probe_step_virt_round [of st]]
      wf_probe_step [OF probe_step_emit [of st]]
      R [of "boundaries_round L", OF probing_boundaries_round]
      R [of "\<lambda>iteration. exec virt_round", OF probing_exec [OF probe_step_virt_round]]
      tracing_rounds_keeps [of "debug_round L" st k j t, OF tracing_debug_round]
    by (simp add: print_freertos_starting_def del: emit_Cons)
qed

theorem machine_invariant_witness:
  "wf_machine short_ram \<and>
   (\<exists>r. analysis_loop (layout_of stride_table) 0x40000FF0 0 short_ram = Some r \<and>
      wf_machine (state_of r)) \<and>
   wf_machine (virt_round short_ram)"
proof -
  let ?L = "layout_of stride_table"
  have wf: "wf_machine short_ram"
    by (simp add: short_ram_def)
  from short_lits have "lit_at ?L (mem short_ram) ''|4KB|''"
    by (simp add: analysis_lits_def)
  then have "returns_on (mem short_ram) (analysis_loop ?L 0x40000FF0 0)"
    by (simp add: returns_on_analysis_loop)
  then obtain r where run: "analysis_loop ?L 0x40000FF0 0 short_ram = Some r"
    by (blast dest: returns_onD)
  from machine_invariant [where st = short_ram and L = ?L and p = "0x40000FF0" and i = 0
      and r = r] wf run
  show ?thesis by blast
qed

text \<open>
  C24 (safety, entry points): none of the three \<open>main\<close> functions returns,
  whatever the memory holds: a run of an entry point that ends, ends in a
  trap.  A periodic loop either runs for ever or ends with the trap of one
  of its rounds, entered at a head that the loop reached through rounds
  that returned.
\<close>

theorem entry_points_never_return:
  "virt_main st \<noteq> Some (Done t) \<and> debug_main L sp st \<noteq> Some (Done t) \<and>
   boundaries_main L st \<noteq> Some (Done t) \<and>
   (forever body k st = None \<or>
    (\<exists>j u a v. rounds body k st j u \<and> body (j + 1) u = Some (Trap a v) \<and>
       forever body k st = Some (Trap a v)))"
  using forever_rounds [of body k st]
  by (simp add: virt_main_None debug_main_not_Done boundaries_main_not_Done)

text \<open>
  C37 (functional, iteration labels): the two test programs label their
  rounds differently.  Both print the digit of the round number for rounds
  1 to 9; from round 10 on the debug program prints \<open>X\<close>, the boundary
  program the last decimal digit of the round number.
\<close>

theorem iteration_labels:
  "(1 \<le> k \<and> k < 10 \<longrightarrow> debug_label k = boundaries_label k \<and> debug_label k = 48 + word_of_int k) \<and>
   (10 \<le> k \<longrightarrow> debug_label k = 88 \<and> boundaries_label k = 48 + word_of_int (k mod 10)) \<and>
   debug_label 10 \<noteq> boundaries_label 10"
  by (simp add: debug_label_def boundaries_label_def smod_nonneg)

theorem iteration_labels_witness:
  "debug_label 7 = boundaries_label 7 \<and> debug_label 7 = 55 \<and>
   debug_label 12 = 88 \<and> boundaries_label 12 = 50"
  using iteration_labels [of 7] iteration_labels [of 12] by auto

text \<open>
  C40 (type, machine): a machine is well formed after boot, and every
  operation of the driver and of the formatter takes a well-formed machine
  to a well-formed machine: the log of the data register holds values
  below 256 only, and the busy-wait counter accounts for the settle delay
  of every store.
\<close>

theorem machine_wf_preserved:
  "wf_machine (boot segs) \<and>
   (wf_machine st \<longrightarrow>
      wf_machine (uart_putc c st) \<and> wf_machine (spin_loop i n st) \<and>
      wf_machine (delay_loop inner count st) \<and> wf_machine (hex_loop addr 28 st) \<and>
      wf_machine (put_offset_4kb j st) \<and> wf_machine (put_offset_capdl j st) \<and>
      (uart_puts_safe p st = Some r \<longrightarrow> wf_machine (state_of r)) \<and>
      (print_hex_addr L addr st = Some r \<longrightarrow> wf_machine (state_of r)) \<and>
      (store_bytes a bs st = Some r \<longrightarrow> wf_machine (state_of r)))"
  by (auto simp: run_simps intro: wf_probe_step wf_probing tracing_wf tracing_store_bytes)

theorem machine_wf_preserved_witness:
  "wf_machine (boot [(0x40000FFE, [72, 105])]) \<and>
   uart_puts_safe 0x40000FFE (boot [(0x40000FFE, [72, 105])]) =
     Some (Trap 0x40001000 (emit [72, 105] (boot [(0x40000FFE, [72, 105])]))) \<and>
   wf_machine (emit [72, 105] (boot [(0x40000FFE, [72, 105])]))"
proof -
  let ?s = "boot [(0x40000FFE, [72, 105])]"
  have run: "uart_puts_safe 0x40000FFE ?s = Some (Trap 0x40001000 (emit [72, 105] ?s))"
    using uart_puts_safe_cut [of ?s "0x40000FFE" "[72, 105]"] by simp
  from machine_wf_preserved [where segs = "[(0x40000FFE, [72, 105])]" and st = ?s
      and p = "0x40000FFE" and r = "Trap 0x40001000 (emit [72, 105] ?s)"] run
  show ?thesis by simp
qed

end
